(* ===== verification/Prelude.thy ===== *)
theory Prelude
  imports "HOL-Library.Word" "HOL-Library.Sublist"
begin

text \<open>
  Shared vocabulary of the development: names for the machine integers of the
  Rust service, the result type of fallible operations, and generic facts about
  lists and maps that several components use.

  A Rust \<^verbatim>\<open>Result<T, E>\<close> is the sum \<open>'e + 'a\<close> with \<open>Inl\<close> for \<^verbatim>\<open>Err\<close>.  A
  \<^verbatim>\<open>&str\<close> or \<^verbatim>\<open>String\<close> is an Isabelle \<open>string\<close>, read as its sequence of UTF-8
  bytes, so that \<open>length\<close> is Rust's \<^verbatim>\<open>len()\<close>.
\<close>

type_synonym u8 = "8 word"
type_synonym u16 = "16 word"
type_synonym u32 = "32 word"
type_synonym u64 = "64 word"
type_synonym u128 = "128 word"

named_theorems inv_intros \<open>introduction rules: an operation keeps its component's invariant\<close>
named_theorems std_eval \<open>definitions of library functions, to evaluate them on literals\<close>
named_theorems op_simps \<open>unfolding of operations on a record, one equation per operation\<close>

section \<open>Results\<close>

definition is_ok :: "'e + 'a \<Rightarrow> bool" where
  "is_ok r = (case r of Inl _ \<Rightarrow> False | Inr _ \<Rightarrow> True)"

lemma is_ok_simps [simp]: "is_ok (Inr x)" "\<not> is_ok (Inl e)"
  by (simp_all add: is_ok_def)

lemma is_ok_iff: "is_ok r \<longleftrightarrow> (\<exists>x. r = Inr x)"
  by (cases r) simp_all

lemma not_is_ok_iff: "\<not> is_ok r \<longleftrightarrow> (\<exists>e. r = Inl e)"
  by (cases r) simp_all

text \<open>A loop whose body ends in \<^verbatim>\<open>?\<close>: the first error leaves the loop.\<close>

fun fold_result :: "('s \<Rightarrow> 'x \<Rightarrow> 'e + 's) \<Rightarrow> 's \<Rightarrow> 'x list \<Rightarrow> 'e + 's" where
  "fold_result f s [] = Inr s"
| "fold_result f s (x # xs) = (case f s x of Inl e \<Rightarrow> Inl e | Inr s' \<Rightarrow> fold_result f s' xs)"

lemma fold_result_all_ok:
  "fold_result f s xs = Inr s' \<Longrightarrow> x \<in> set xs \<Longrightarrow> \<exists>t t'. f t x = Inr t'"
  by (induction xs arbitrary: s) (auto split: sum.splits)

lemma fold_result_fails:
  "x \<in> set xs \<Longrightarrow> (\<And>t. \<not> is_ok (f t x)) \<Longrightarrow> \<not> is_ok (fold_result f s xs)"
  by (metis fold_result_all_ok is_ok_iff)

section \<open>Checked access\<close>

text \<open>
  Indexing and slicing panic out of range.  Where the code indexes a buffer, \<open>None\<close> is the
  panic, so that the absence of panics is a theorem.
\<close>

definition buf_at :: "'a list \<Rightarrow> nat \<Rightarrow> 'a option" where
  "buf_at xs i = (if i < length xs then Some (xs ! i) else None)"

definition buf_slice :: "'a list \<Rightarrow> nat \<Rightarrow> nat \<Rightarrow> 'a list option" where
  "buf_slice xs a b = (if a \<le> b \<and> b \<le> length xs then Some (take (b - a) (drop a xs)) else None)"

lemma buf_at_Some [simp]: "i < length xs \<Longrightarrow> buf_at xs i = Some (xs ! i)"
  by (simp add: buf_at_def)

lemma buf_slice_Some [simp]: "a \<le> b \<Longrightarrow> b \<le> length xs \<Longrightarrow> buf_slice xs a b = Some (take (b - a) (drop a xs))"
  by (simp add: buf_slice_def)

lemma buf_slice_middle: "length a = i \<Longrightarrow> length b = n \<Longrightarrow> buf_slice (a @ b @ c) i (i + n) = Some b"
  by auto

section \<open>Lists\<close>

lemma length_dropWhile_le: "length (dropWhile P xs) \<le> length xs"
  by (induction xs) simp_all

lemma prefix_take_iff: "prefix p k \<longleftrightarrow> length p \<le> length k \<and> take (length p) k = p"
  by (metis append_eq_conv_conj append_take_drop_id length_append le_add1 prefix_def)

lemma filter_last_snoc: "xs \<noteq> [] \<Longrightarrow> last (filter P (xs @ [x])) = (if P x then x else last (filter P xs))"
  by simp

lemma nth_replicate_update: "i < length xs \<Longrightarrow> (xs[i := v]) ! j = (if j = i then v else xs ! j)"
  by (simp add: nth_list_update)

section \<open>Maps built by insertion\<close>

text \<open>
  A map filled by inserting the pair of each element of a list, the last one winning: what
  a loop over \<^verbatim>\<open>HashMap::insert\<close> builds.
\<close>

lemma insert_all_None:
  "foldl (\<lambda>m x. m(f x \<mapsto> g x)) m0 xs k = None \<longleftrightarrow> m0 k = None \<and> (\<forall>x \<in> set xs. f x \<noteq> k)"
  by (induction xs arbitrary: m0) auto

lemma insert_all_SomeD:
  "foldl (\<lambda>m x. m(f x \<mapsto> g x)) m0 xs k = Some v \<Longrightarrow>
     (\<exists>x \<in> set xs. f x = k \<and> g x = v) \<or> m0 k = Some v"
  by (induction xs arbitrary: m0) (fastforce split: if_splits)+

lemma insert_all_last:
  "foldl (\<lambda>m x. m(f x \<mapsto> g x)) m0 (xs @ [x]) (f x) = Some (g x)"
  by simp

lemma insert_all_lookup:
  "foldl (\<lambda>m x. m(f x \<mapsto> g x)) m0 xs k =
     (if filter (\<lambda>x. f x = k) xs = [] then m0 k else Some (g (last (filter (\<lambda>x. f x = k) xs))))"
  by (induction xs rule: rev_induct) auto

section \<open>Preference by priority\<close>

text \<open>
  Several places keep the best candidate seen so far and replace it by a later one only
  when that one has a strictly higher priority.  What such a scan returns is proved once.
\<close>

locale preference =
  fixes prio :: "'c \<Rightarrow> int"
    and pick :: "'c option \<Rightarrow> 'c \<Rightarrow> 'c option"
  assumes pick_None: "pick None c = Some c"
    and pick_Some: "pick (Some a) c = (if prio c \<le> prio a then Some a else Some c)"
begin

lemma scan_None: "foldl pick None cs = None \<longleftrightarrow> cs = []"
proof (induction cs rule: rev_induct)
  case (snoc c cs)
  then show ?case by (cases "foldl pick None cs") (auto simp: pick_None pick_Some)
qed simp

lemma scan_Some:
  "foldl pick None cs = Some c \<Longrightarrow>
     (\<exists>i < length cs. cs ! i = c \<and> (\<forall>j < i. prio (cs ! j) < prio c)) \<and> (\<forall>d \<in> set cs. prio d \<le> prio c)"
proof (induction cs arbitrary: c rule: rev_induct)
  case Nil
  then show ?case by simp
next
  case (snoc d cs)
  show ?case
  proof (cases "foldl pick None cs")
    case None
    then have "cs = []" by (simp add: scan_None)
    with snoc.prems show ?thesis by (simp add: pick_None)
  next
    case (Some a)
    from snoc.IH [OF Some] obtain i where i: "i < length cs" "cs ! i = a"
      "\<forall>j < i. prio (cs ! j) < prio a" and all: "\<forall>x \<in> set cs. prio x \<le> prio a" by blast
    show ?thesis
    proof (cases "prio d \<le> prio a")
      case True
      with Some snoc.prems have "c = a" by (simp add: pick_Some)
      with i all True show ?thesis
        by (intro conjI exI [of _ i]) (auto simp: nth_append)
    next
      case False
      with Some snoc.prems have c: "c = d" by (simp add: pick_Some)
      have "\<forall>j < length cs. prio (cs ! j) < prio d"
        using all False by (meson le_less_trans not_le nth_mem)
      with c False all show ?thesis
        by (intro conjI exI [of _ "length cs"]) (auto simp: nth_append)
    qed
  qed
qed

lemma scan_mem: "foldl pick None cs = Some c \<Longrightarrow> c \<in> set cs"
  using scan_Some by (metis nth_mem)

end

end
