(* ===== verification/Prefix_Index.thy ===== *)
theory Prefix_Index
  imports Prelude
begin

text \<open>
  The interface that the two tries of \<^verbatim>\<open>routing/matcher.rs\<close> offer to the rule index
  and to GeoIP: values stored under paths, and a lookup that returns the value of the
  longest stored prefix of a key.  The laws are stated over the abstract view
  \<open>entries\<close>, the partial map from paths to values; what a client may rely on is proved
  once, inside the locale.
\<close>

section \<open>Longest entry along a key\<close>

fun longest_entry :: "('k list \<Rightarrow> 'v option) \<Rightarrow> 'k list \<Rightarrow> 'v option" where
  "longest_entry e [] = e []"
| "longest_entry e (x # xs) =
     (case longest_entry (\<lambda>p. e (x # p)) xs of Some v \<Rightarrow> Some v | None \<Rightarrow> e [])"

lemma all_prefix_Cons:
  "(\<forall>p. prefix p (x # xs) \<longrightarrow> P p) \<longleftrightarrow> P [] \<and> (\<forall>p. prefix p xs \<longrightarrow> P (x # p))"
  by (metis Cons_prefix_Cons Nil_prefix prefix_Cons)

lemma longest_entry_None:
  "longest_entry e k = None \<longleftrightarrow> (\<forall>p. prefix p k \<longrightarrow> e p = None)"
proof (induction k arbitrary: e)
  case Nil
  then show ?case by simp
next
  case (Cons x xs)
  have "longest_entry e (x # xs) = None \<longleftrightarrow> e [] = None \<and> longest_entry (\<lambda>p. e (x # p)) xs = None"
    by (simp split: option.split)
  then show ?case
    by (simp only: Cons.IH all_prefix_Cons)
qed

lemma longest_entry_cong:
  "(\<And>q. prefix q k \<Longrightarrow> e q = e' q) \<Longrightarrow> longest_entry e k = longest_entry e' k"
proof (induction k arbitrary: e e')
  case (Cons x xs)
  have "longest_entry (\<lambda>p. e (x # p)) xs = longest_entry (\<lambda>p. e' (x # p)) xs"
    using Cons.prems by (intro Cons.IH) simp
  with Cons.prems [of "[]"] show ?case by (simp split: option.split)
qed simp

lemma prefix_same_length: "prefix p k \<Longrightarrow> prefix q k \<Longrightarrow> length p = length q \<Longrightarrow> p = q"
  by (simp add: prefix_take_iff)

lemma longest_entry_SomeD:
  "longest_entry e k = Some v \<Longrightarrow>
     \<exists>p. prefix p k \<and> e p = Some v \<and> (\<forall>q. prefix q k \<longrightarrow> length p < length q \<longrightarrow> e q = None)"
proof (induction k arbitrary: e)
  case Nil
  then show ?case by auto
next
  case (Cons x xs)
  show ?case
  proof (cases "longest_entry (\<lambda>p. e (x # p)) xs")
    case None
    then have "e [] = Some v" using Cons.prems by simp
    moreover have "\<forall>q. prefix q (x # xs) \<longrightarrow> 0 < length q \<longrightarrow> e q = None"
      using None by (simp only: longest_entry_None all_prefix_Cons) simp
    ultimately show ?thesis by (intro exI [of _ "[]"]) simp
  next
    case (Some w)
    then have "w = v" using Cons.prems by simp
    with Some obtain p where p: "prefix p xs" "e (x # p) = Some v"
      "\<forall>q. prefix q xs \<longrightarrow> length p < length q \<longrightarrow> e (x # q) = None"
      using Cons.IH [of "\<lambda>p. e (x # p)"] by blast
    then have "\<forall>q. prefix q (x # xs) \<longrightarrow> length (x # p) < length q \<longrightarrow> e q = None"
      by (simp only: all_prefix_Cons) simp
    with p(1,2) show ?thesis by (intro exI [of _ "x # p"]) simp
  qed
qed

lemma longest_entry_SomeI:
  assumes p: "prefix p k" "e p = Some v"
    and max: "\<And>q. prefix q k \<Longrightarrow> length p < length q \<Longrightarrow> e q = None"
  shows "longest_entry e k = Some v"
proof (cases "longest_entry e k")
  case None
  then have "e p = None" using p(1) unfolding longest_entry_None by blast
  with p(2) show ?thesis by simp
next
  case (Some w)
  from longest_entry_SomeD [OF Some] obtain p' where p': "prefix p' k" "e p' = Some w"
    "\<forall>q. prefix q k \<longrightarrow> length p' < length q \<longrightarrow> e q = None" by blast
  have "\<not> length p < length p'" using max [of p'] p' by auto
  moreover have "\<not> length p' < length p" using p'(3) p by auto
  ultimately have "p = p'" using p(1) p'(1) by (intro prefix_same_length) auto
  with p(2) p'(2) Some show ?thesis by simp
qed

section \<open>The reference: a linear scan of the inserted pairs\<close>

text \<open>
  Of the pairs whose path is a prefix of the key, the longest path wins, and among pairs
  with the same path the last one.
\<close>

definition lpm_step :: "'k list \<Rightarrow> ('k list \<times> 'v) option \<Rightarrow> 'k list \<times> 'v \<Rightarrow> ('k list \<times> 'v) option" where
  "lpm_step k best pv =
     (if prefix (fst pv) k \<and> (case best of None \<Rightarrow> True | Some b \<Rightarrow> length (fst b) \<le> length (fst pv))
      then Some pv else best)"

definition linear_lpm :: "('k list \<times> 'v) list \<Rightarrow> 'k list \<Rightarrow> 'v option" where
  "linear_lpm kvs k = map_option snd (foldl (lpm_step k) None kvs)"

lemma lpm_step_longest:
  assumes e: "\<And>q b. e q = Some b \<Longrightarrow> fst b = q"
  shows "lpm_step k (longest_entry e k) (p, v) = longest_entry (e(p := Some (p, v))) k"
proof (cases "prefix p k")
  case False
  then have "longest_entry (e(p := Some (p, v))) k = longest_entry e k"
    by (intro longest_entry_cong) auto
  with False show ?thesis by (simp add: lpm_step_def)
next
  case pk: True
  show ?thesis
  proof (cases "longest_entry e k")
    case None
    then have "longest_entry (e(p := Some (p, v))) k = Some (p, v)"
      using pk by (intro longest_entry_SomeI [of p]) (auto simp: longest_entry_None)
    with pk None show ?thesis by (simp add: lpm_step_def)
  next
    case (Some b)
    then obtain q where q: "prefix q k" "e q = Some b"
      "\<And>r. prefix r k \<Longrightarrow> length q < length r \<Longrightarrow> e r = None"
      using longest_entry_SomeD [OF Some] by blast
    have b: "fst b = q" using e q(2) .
    show ?thesis
    proof (cases "length q \<le> length p")
      case True
      then have "longest_entry (e(p := Some (p, v))) k = Some (p, v)"
        using q(3) pk by (intro longest_entry_SomeI [of p]) auto
      with pk True Some b show ?thesis by (simp add: lpm_step_def)
    next
      case False
      then have "p \<noteq> q" by auto
      with False q have "longest_entry (e(p := Some (p, v))) k = Some b"
        by (intro longest_entry_SomeI [of q]) auto
      with False Some b show ?thesis by (simp add: lpm_step_def)
    qed
  qed
qed

lemma lpm_fold_longest:
  "foldl (lpm_step k) None kvs = longest_entry (\<lambda>p. map_option (Pair p) (map_of (rev kvs) p)) k"
proof (induction kvs rule: rev_induct)
  case Nil
  show ?case by (simp add: longest_entry_None [THEN iffD2])
next
  case (snoc pv kvs)
  obtain p v where pv: "pv = (p, v)" by force
  have "(\<lambda>q. map_option (Pair q) (map_of (rev (kvs @ [pv])) q))
        = (\<lambda>q. map_option (Pair q) (map_of (rev kvs) q))(p := Some (p, v))"
    by (auto simp: pv)
  moreover have "lpm_step k (longest_entry (\<lambda>q. map_option (Pair q) (map_of (rev kvs) q)) k) (p, v)
      = longest_entry ((\<lambda>q. map_option (Pair q) (map_of (rev kvs) q))(p := Some (p, v))) k"
    by (rule lpm_step_longest) auto
  ultimately show ?case using snoc by (simp add: pv)
qed

lemma longest_entry_map:
  "longest_entry (\<lambda>p. map_option (Pair p) (e p)) k = None \<longleftrightarrow> longest_entry e k = None"
  "map_option snd (longest_entry (\<lambda>p. map_option (Pair p) (e p)) k) = longest_entry e k"
proof -
  show *: "longest_entry (\<lambda>p. map_option (Pair p) (e p)) k = None \<longleftrightarrow> longest_entry e k = None"
    by (simp add: longest_entry_None)
  show "map_option snd (longest_entry (\<lambda>p. map_option (Pair p) (e p)) k) = longest_entry e k"
  proof (cases "longest_entry e k")
    case None
    with * show ?thesis by simp
  next
    case (Some v)
    then obtain p where "prefix p k" "e p = Some v"
      "\<forall>q. prefix q k \<and> length p < length q \<longrightarrow> e q = None"
      using longest_entry_SomeD [OF Some] by blast
    then have "longest_entry (\<lambda>p. map_option (Pair p) (e p)) k = Some (p, v)"
      by (intro longest_entry_SomeI [of p]) simp_all
    with Some show ?thesis by simp
  qed
qed

lemma linear_lpm_longest: "linear_lpm kvs k = longest_entry (map_of (rev kvs)) k"
  using longest_entry_map(2) [of "map_of (rev kvs)" k]
  by (simp add: linear_lpm_def lpm_fold_longest)

lemma linear_lpm_None: "linear_lpm kvs k = None \<longleftrightarrow> (\<forall>(p, v) \<in> set kvs. \<not> prefix p k)"
proof -
  have "map_of (rev kvs) p = None \<longleftrightarrow> (\<forall>v. (p, v) \<notin> set kvs)" for p
    by (auto simp: map_of_eq_None_iff image_iff)
  then show ?thesis by (auto simp: linear_lpm_longest longest_entry_None)
qed

lemma linear_lpm_SomeD:
  assumes "linear_lpm kvs k = Some v"
  shows "\<exists>p. (p, v) \<in> set kvs \<and> prefix p k \<and> (\<forall>(q, w) \<in> set kvs. prefix q k \<longrightarrow> length q \<le> length p)"
proof -
  from assms obtain p where p: "prefix p k" "map_of (rev kvs) p = Some v"
    "\<forall>q. prefix q k \<longrightarrow> length p < length q \<longrightarrow> map_of (rev kvs) q = None"
    using longest_entry_SomeD [of "map_of (rev kvs)" k v] by (auto simp: linear_lpm_longest)
  have "length q \<le> length p" if "(q, w) \<in> set kvs" "prefix q k" for q w
  proof (rule ccontr)
    assume "\<not> length q \<le> length p"
    with p(3) that(2) have "map_of (rev kvs) q = None" by simp
    with that(1) show False by (force simp: map_of_eq_None_iff)
  qed
  with p(1) map_of_SomeD [OF p(2)] show ?thesis by auto
qed

section \<open>The interface\<close>

locale prefix_index =
  fixes empty :: 't
    and insert :: "'t \<Rightarrow> 'k list \<Rightarrow> 'v \<Rightarrow> 't"
    and lookup :: "'t \<Rightarrow> 'k list \<Rightarrow> 'v option"
    and entries :: "'t \<Rightarrow> 'k list \<Rightarrow> 'v option"
    and invar :: "'t \<Rightarrow> bool"
  assumes invar_empty: "invar empty"
    and entries_empty: "entries empty p = None"
    and invar_insert: "invar t \<Longrightarrow> invar (insert t p v)"
    and entries_insert: "invar t \<Longrightarrow> entries (insert t p v) q = (if q = p then Some v else entries t q)"
    and lookup_longest: "invar t \<Longrightarrow> lookup t k = longest_entry (entries t) k"
begin

lemma build_invar: "invar (foldl (\<lambda>t (p, v). insert t p v) empty kvs)"
  by (induction kvs rule: rev_induct) (auto simp: invar_empty invar_insert)

lemma build_entries:
  "entries (foldl (\<lambda>t (p, v). insert t p v) empty kvs) = map_of (rev kvs)"
proof (induction kvs rule: rev_induct)
  case Nil
  show ?case by (rule ext) (simp add: entries_empty)
next
  case (snoc pv kvs)
  obtain p v where "pv = (p, v)" by force
  with snoc show ?case by (auto simp: fun_eq_iff entries_insert [OF build_invar])
qed

lemma build_lookup: "lookup (foldl (\<lambda>t (p, v). insert t p v) empty kvs) k = linear_lpm kvs k"
  by (simp add: lookup_longest [OF build_invar] build_entries linear_lpm_longest)

lemma lookup_insert_self:
  assumes "invar t"
  shows "lookup (insert t k v) k = Some v"
proof -
  have "longest_entry (entries (insert t k v)) k = Some v"
    using assms by (intro longest_entry_SomeI [of k]) (auto simp: entries_insert dest: prefix_length_le)
  then show ?thesis using assms by (simp add: lookup_longest invar_insert)
qed

lemma lookup_insert_other:
  assumes "invar t" and "\<not> prefix p k"
  shows "lookup (insert t p v) k = lookup t k"
proof -
  have "longest_entry (entries (insert t p v)) k = longest_entry (entries t) k"
    using assms by (intro longest_entry_cong) (auto simp: entries_insert)
  then show ?thesis using assms(1) by (simp add: lookup_longest invar_insert)
qed

end

end
