(* ===== verification/Rust_Std.thy ===== *)
theory Rust_Std
  imports Prelude
begin

text \<open>
  The parts of the Rust standard library that the service calls: string
  functions of \<^verbatim>\<open>str\<close>, integer parsing (\<^verbatim>\<open>FromStr\<close>), number formatting, UTF-8
  decoding (\<^verbatim>\<open>String::from_utf8_lossy\<close>) and the address parser of \<^verbatim>\<open>std::net\<close>.
  Strings are sequences of UTF-8 bytes throughout.
\<close>

section \<open>Bytes and ASCII case\<close>

definition byte_of :: "char \<Rightarrow> u8" where
  "byte_of c = of_nat (of_char c)"

definition char_of_byte :: "u8 \<Rightarrow> char" where
  "char_of_byte b = char_of (unat b)"

definition as_bytes :: "string \<Rightarrow> u8 list" where
  "as_bytes s = map byte_of s"

definition ascii_lower_char :: "char \<Rightarrow> char" where
  "ascii_lower_char c =
     (let n = (of_char c :: nat) in if 65 \<le> n \<and> n \<le> 90 then char_of (n + 32) else c)"

definition ascii_upper_char :: "char \<Rightarrow> char" where
  "ascii_upper_char c =
     (let n = (of_char c :: nat) in if 97 \<le> n \<and> n \<le> 122 then char_of (n - 32) else c)"

definition to_ascii_lowercase :: "string \<Rightarrow> string" where
  "to_ascii_lowercase = map ascii_lower_char"

definition to_ascii_uppercase :: "string \<Rightarrow> string" where
  "to_ascii_uppercase = map ascii_upper_char"

definition eq_ignore_ascii_case :: "string \<Rightarrow> string \<Rightarrow> bool" where
  "eq_ignore_ascii_case a b \<longleftrightarrow> to_ascii_lowercase a = to_ascii_lowercase b"

lemma char_of_byte_byte_of [simp]: "char_of_byte (byte_of c) = c"
proof -
  have "(of_char c :: nat) < 256" by simp
  then have "unat (of_nat (of_char c) :: u8) = of_char c"
    by (simp add: unsigned_of_nat take_bit_nat_eq_self)
  then show ?thesis by (simp add: char_of_byte_def byte_of_def)
qed

lemma byte_of_char_of_byte [simp]: "byte_of (char_of_byte b) = b"
proof -
  have "unat b < 256" using unsigned_less [of b] by simp
  then show ?thesis by (simp add: char_of_byte_def byte_of_def)
qed

lemma length_as_bytes [simp]: "length (as_bytes s) = length s"
  by (simp add: as_bytes_def)

lemma ascii_lower_char_idem [simp]: "ascii_lower_char (ascii_lower_char c) = ascii_lower_char c"
  by (simp add: ascii_lower_char_def Let_def)

lemma to_ascii_lowercase_idem [simp]:
  "to_ascii_lowercase (to_ascii_lowercase s) = to_ascii_lowercase s"
  by (simp add: to_ascii_lowercase_def)

lemma length_to_ascii_lowercase [simp]: "length (to_ascii_lowercase s) = length s"
  by (simp add: to_ascii_lowercase_def)

section \<open>Searching, splitting and trimming\<close>

fun split_on :: "char \<Rightarrow> string \<Rightarrow> string list" where
  "split_on c [] = [[]]"
| "split_on c (x # xs) =
     (if x = c then [] # split_on c xs
      else case split_on c xs of [] \<Rightarrow> [[x]] | w # ws \<Rightarrow> (x # w) # ws)"

definition split_once :: "char \<Rightarrow> string \<Rightarrow> (string \<times> string) option" where
  "split_once c s =
     (if c \<in> set s then Some (takeWhile (\<lambda>x. x \<noteq> c) s, tl (dropWhile (\<lambda>x. x \<noteq> c) s)) else None)"

definition rsplit_once :: "char \<Rightarrow> string \<Rightarrow> (string \<times> string) option" where
  "rsplit_once c s = map_option (\<lambda>(b, a). (rev a, rev b)) (split_once c (rev s))"

fun find_str :: "string \<Rightarrow> string \<Rightarrow> nat option" where
  "find_str p [] = (if p = [] then Some 0 else None)"
| "find_str p (x # xs) = (if prefix p (x # xs) then Some 0 else map_option Suc (find_str p xs))"

definition str_contains :: "string \<Rightarrow> string \<Rightarrow> bool" where
  "str_contains s p \<longleftrightarrow> find_str p s \<noteq> None"

definition strip_prefix_str :: "string \<Rightarrow> string \<Rightarrow> string option" where
  "strip_prefix_str s p = (if prefix p s then Some (drop (length p) s) else None)"

definition strip_suffix_str :: "string \<Rightarrow> string \<Rightarrow> string option" where
  "strip_suffix_str s p = (if suffix p s then Some (take (length s - length p) s) else None)"

text \<open>
  The UTF-8 encodings of the characters with the Unicode property White\_Space, the ones
  \<^verbatim>\<open>str::trim\<close> removes.
\<close>

definition white_space :: "string list" where
  "white_space = map (map char_of)
     ([[9], [10], [11], [12], [13], [32], [194, 133], [194, 160], [225, 154, 128]]
      @ map (\<lambda>b. [226, 128, b]) [128, 129, 130, 131, 132, 133, 134, 135, 136, 137, 138]
      @ [[226, 128, 168], [226, 128, 169], [226, 128, 175], [226, 129, 159],
         [227, 128, 128 :: nat]])"

lemma white_space_nonempty: "w \<in> set white_space \<Longrightarrow> w \<noteq> []"
  by (auto simp: white_space_def)

function trim_with :: "string list \<Rightarrow> string \<Rightarrow> string" where
  "trim_with ws s =
     (case find (\<lambda>w. w \<noteq> [] \<and> prefix w s) ws of
        None \<Rightarrow> s
      | Some w \<Rightarrow> trim_with ws (drop (length w) s))"
  by pat_completeness auto
termination
  by (relation "measure (\<lambda>(ws, s). length s)") (auto simp: find_Some_iff prefix_def)

declare trim_with.simps [simp del]

definition trim_start :: "string \<Rightarrow> string" where
  "trim_start s = trim_with white_space s"

definition trim_end :: "string \<Rightarrow> string" where
  "trim_end s = rev (trim_with (map rev white_space) (rev s))"

definition trim :: "string \<Rightarrow> string" where
  "trim s = trim_end (trim_start s)"

fun lines_aux :: "string \<Rightarrow> string \<Rightarrow> string list" where
  "lines_aux acc [] = (if acc = [] then [] else [rev acc])"
| "lines_aux acc (x # xs) =
     (if x = char_of (10 :: nat)
      then rev (case acc of [] \<Rightarrow> [] | y # ys \<Rightarrow> if y = char_of (13 :: nat) then ys else acc)
           # lines_aux [] xs
      else lines_aux (x # acc) xs)"

definition str_lines :: "string \<Rightarrow> string list" where
  "str_lines s = lines_aux [] s"

text \<open>\<^verbatim>\<open>Path::file_stem\<close> and \<^verbatim>\<open>Path::extension\<close> of a file name.\<close>

definition split_file_at_dot :: "string \<Rightarrow> string option \<times> string option" where
  "split_file_at_dot f =
     (if f = ''..'' then (Some f, None)
      else case rsplit_once (CHR ''.'') f of
             None \<Rightarrow> (None, Some f)
           | Some (before, after) \<Rightarrow> if before = [] then (Some f, None) else (Some before, Some after))"

definition file_stem :: "string \<Rightarrow> string option" where
  "file_stem f =
     (case split_file_at_dot f of (before, after) \<Rightarrow> (case before of None \<Rightarrow> after | Some b \<Rightarrow> Some b))"

definition file_extension :: "string \<Rightarrow> string option" where
  "file_extension f =
     (case split_file_at_dot f of (before, after) \<Rightarrow> (case before of None \<Rightarrow> None | Some b \<Rightarrow> after))"

lemma split_on_nonempty [simp]: "split_on c s \<noteq> []"
  by (induction s) (auto split: list.splits)

lemma split_on_no_sep: "w \<in> set (split_on c s) \<Longrightarrow> c \<notin> set w"
  by (induction s arbitrary: w) (auto split: list.splits if_splits)

lemma split_on_id: "c \<notin> set w \<Longrightarrow> split_on c w = [w]"
  by (induction w) auto

lemma split_on_append: "c \<notin> set w \<Longrightarrow> split_on c (w @ c # s) = w # split_on c s"
  by (induction w) auto

lemma split_once_append: "c \<notin> set a \<Longrightarrow> split_once c (a @ c # b) = Some (a, b)"
  by (induction a) (auto simp: split_once_def)

lemma split_once_None: "split_once c s = None \<longleftrightarrow> c \<notin> set s"
  by (simp add: split_once_def)

lemma split_once_Some: "split_once c s = Some (a, b) \<Longrightarrow> s = a @ c # b \<and> c \<notin> set a"
proof -
  assume h: "split_once c s = Some (a, b)"
  then have c: "c \<in> set s" and a: "a = takeWhile (\<lambda>x. x \<noteq> c) s"
    and b: "b = tl (dropWhile (\<lambda>x. x \<noteq> c) s)"
    by (auto simp: split_once_def split: if_splits)
  from c have "dropWhile (\<lambda>x. x \<noteq> c) s \<noteq> []" and "hd (dropWhile (\<lambda>x. x \<noteq> c) s) = c"
    using hd_dropWhile [of "\<lambda>x. x \<noteq> c" s] by auto
  then have "dropWhile (\<lambda>x. x \<noteq> c) s = c # b"
    using b by (metis list.collapse)
  then show ?thesis using a by (metis set_takeWhileD takeWhile_dropWhile_id)
qed

lemma rsplit_once_append: "c \<notin> set b \<Longrightarrow> rsplit_once c (a @ c # b) = Some (a, b)"
  using split_once_append [of c "rev b" "rev a"] by (simp add: rsplit_once_def)

lemma rsplit_once_None: "rsplit_once c s = None \<longleftrightarrow> c \<notin> set s"
  by (simp add: rsplit_once_def split_once_None)

lemma last_split_on: "last (split_on c s) = rev (takeWhile (\<lambda>x. x \<noteq> c) (rev s))"
proof (induction s)
  case (Cons x s)
  obtain w ws where ws: "split_on c s = w # ws" by (cases "split_on c s") auto
  have nosep: "ws = [] \<longleftrightarrow> c \<notin> set s"
    using ws by (induction s arbitrary: w ws) (auto split: list.splits if_splits)
  show ?case
  proof (cases "c \<in> set s")
    case True
    with nosep ws Cons show ?thesis
      by (auto simp: takeWhile_append)
  next
    case False
    then have "takeWhile (\<lambda>x. x \<noteq> c) (rev s) = rev s" by (auto simp: takeWhile_eq_all_conv)
    with False nosep ws Cons show ?thesis
      by (auto simp: takeWhile_append)
  qed
qed simp

lemma last_split_on_append: "c \<notin> set b \<Longrightarrow> last (split_on c (a @ c # b)) = b"
  by (simp add: last_split_on takeWhile_append)

lemma last_split_on_absent: "c \<notin> set b \<Longrightarrow> last (split_on c b) = b"
  by (simp add: split_on_id)

lemma set_trim_with: "set (trim_with ws s) \<subseteq> set s"
proof (induction ws s rule: trim_with.induct)
  case (1 ws s)
  then show ?case
    by (subst trim_with.simps) (auto split: option.split dest: in_set_dropD)
qed

lemma set_trim: "set (trim s) \<subseteq> set s"
  using set_trim_with [of "map rev white_space"] set_trim_with [of white_space s]
  by (fastforce simp: trim_def trim_end_def trim_start_def)

lemma white_space_ends:
  "w \<in> set white_space \<Longrightarrow> c \<in> set w \<Longrightarrow> (of_char c :: nat) \<le> 32 \<or> 128 \<le> (of_char c :: nat)"
proof -
  have "\<forall>w \<in> set white_space. \<forall>c \<in> set w. (of_char c :: nat) \<le> 32 \<or> 128 \<le> (of_char c :: nat)"
    by (simp add: white_space_def)
  then show "w \<in> set white_space \<Longrightarrow> c \<in> set w \<Longrightarrow> ?thesis" by blast
qed

lemma trim_with_id:
  assumes "\<And>w c. w \<in> set ws \<Longrightarrow> c \<in> set w \<Longrightarrow> (of_char c :: nat) \<le> 32 \<or> 128 \<le> (of_char c :: nat)"
    and "s \<noteq> [] \<Longrightarrow> 32 < (of_char (hd s) :: nat) \<and> (of_char (hd s) :: nat) < 128"
  shows "trim_with ws s = s"
proof -
  have "find (\<lambda>w. w \<noteq> [] \<and> prefix w s) ws = None"
    using assms by (cases s) (force simp: find_None_iff prefix_Cons)+
  then show ?thesis by (subst trim_with.simps) simp
qed

lemma trim_id:
  assumes "s \<noteq> [] \<Longrightarrow> 32 < (of_char (hd s) :: nat) \<and> (of_char (hd s) :: nat) < 128"
    and "s \<noteq> [] \<Longrightarrow> 32 < (of_char (last s) :: nat) \<and> (of_char (last s) :: nat) < 128"
  shows "trim s = s"
proof -
  have "trim_with white_space s = s"
    using white_space_ends assms(1) by (rule trim_with_id)
  moreover have "trim_with (map rev white_space) (rev s) = rev s"
  proof (rule trim_with_id)
    fix w c assume "w \<in> set (map rev white_space)" "c \<in> set w"
    then show "(of_char c :: nat) \<le> 32 \<or> 128 \<le> (of_char c :: nat)"
      using white_space_ends [of "rev w" c] by auto
  qed (use assms(2) in \<open>simp add: hd_rev\<close>)
  ultimately show ?thesis by (simp add: trim_def trim_start_def trim_end_def)
qed

lemmas [std_eval] = trim_id split_once_def str_contains_def to_ascii_lowercase_def
  to_ascii_uppercase_def ascii_lower_char_def ascii_upper_char_def eq_ignore_ascii_case_def

end
