(* ===== verification/Rust_Num.thy ===== *)
theory Rust_Num
  imports Rust_Std
begin

text \<open>
  Numbers and bytes of the Rust standard library: decimal and hexadecimal
  formatting, \<^verbatim>\<open>FromStr\<close> for unsigned integers, big-endian and little-endian
  byte conversion, and UTF-8 decoding (\<^verbatim>\<open>String::from_utf8\<close>,
  \<^verbatim>\<open>String::from_utf8_lossy\<close>).
\<close>

unbundle bit_operations_syntax

section \<open>Formatting and parsing\<close>

definition digit_char :: "nat \<Rightarrow> char" where
  "digit_char d = (if d < 10 then char_of (48 + d) else char_of (87 + d))"

fun nat_str_radix :: "nat \<Rightarrow> nat \<Rightarrow> string" where
  "nat_str_radix r n =
     (if r < 2 \<or> n < r then [digit_char n] else nat_str_radix r (n div r) @ [digit_char (n mod r)])"

declare nat_str_radix.simps [simp del]

definition nat_str :: "nat \<Rightarrow> string" where
  "nat_str n = nat_str_radix 10 n"

definition pad_left :: "char \<Rightarrow> nat \<Rightarrow> string \<Rightarrow> string" where
  "pad_left c w s = replicate (w - length s) c @ s"

definition hex16 :: "u64 \<Rightarrow> string" where
  \<comment> \<open>\<^verbatim>\<open>{:016x}\<close>\<close>
  "hex16 w = pad_left (CHR ''0'') 16 (nat_str_radix 16 (unat w))"

definition to_digit :: "nat \<Rightarrow> char \<Rightarrow> nat option" where
  \<comment> \<open>\<^verbatim>\<open>char::to_digit\<close>\<close>
  "to_digit r c =
     (let n = (of_char c :: nat);
          d = (if 48 \<le> n \<and> n \<le> 57 then n - 48
               else if 97 \<le> n \<and> n \<le> 122 then n - 87
               else if 65 \<le> n \<and> n \<le> 90 then n - 55 else 36)
      in if d < r then Some d else None)"

definition digits_val :: "nat \<Rightarrow> string \<Rightarrow> nat" where
  "digits_val r s = foldl (\<lambda>v c. v * r + (case to_digit r c of None \<Rightarrow> 0 | Some d \<Rightarrow> d)) 0 s"

definition parse_uint :: "nat \<Rightarrow> string \<Rightarrow> nat option" where
  \<comment> \<open>\<^verbatim>\<open>str::parse\<close> at an unsigned type whose largest value is \<open>m\<close>\<close>
  "parse_uint m s =
     (let t = (case s of [] \<Rightarrow> [] | c # cs \<Rightarrow> if c = CHR ''+'' \<and> cs \<noteq> [] then cs else s)
      in if t = [] \<or> (\<exists>c \<in> set t. to_digit 10 c = None) \<or> m < digits_val 10 t then None
         else Some (digits_val 10 t))"

definition parse_u16 :: "string \<Rightarrow> u16 option" where
  "parse_u16 s = map_option of_nat (parse_uint 65535 s)"

definition parse_u8 :: "string \<Rightarrow> u8 option" where
  "parse_u8 s = map_option of_nat (parse_uint 255 s)"

definition parse_usize :: "string \<Rightarrow> nat option" where
  "parse_usize s = parse_uint (2 ^ 64 - 1) s"

lemma to_digit_digit_char: "d < r \<Longrightarrow> r \<le> 16 \<Longrightarrow> to_digit r (digit_char d) = Some d"
  by (auto simp: to_digit_def digit_char_def Let_def)

lemma digits_val_snoc:
  "digits_val r (s @ [c]) = digits_val r s * r + (case to_digit r c of None \<Rightarrow> 0 | Some d \<Rightarrow> d)"
  by (simp add: digits_val_def)

lemma nat_str_radix_correct:
  assumes "2 \<le> r" "r \<le> 16"
  shows "digits_val r (nat_str_radix r n) = n \<and> nat_str_radix r n \<noteq> []
         \<and> (\<forall>c \<in> set (nat_str_radix r n). \<exists>d < r. c = digit_char d)"
  using assms
proof (induction r n rule: nat_str_radix.induct)
  case (1 r n)
  show ?case
  proof (cases "n < r")
    case True
    then have "nat_str_radix r n = [digit_char n]"
      by (subst nat_str_radix.simps) simp
    with True 1 show ?thesis
      by (auto simp: digits_val_def to_digit_digit_char)
  next
    case False
    then have eq: "nat_str_radix r n = nat_str_radix r (n div r) @ [digit_char (n mod r)]"
      using 1 by (subst nat_str_radix.simps) simp
    from False 1 have IH: "digits_val r (nat_str_radix r (n div r)) = n div r"
      and IH2: "\<forall>c \<in> set (nat_str_radix r (n div r)). \<exists>d < r. c = digit_char d"
      by auto
    have lt: "n mod r < r" using 1 by simp
    show ?thesis
      using 1 IH IH2 exI [of "\<lambda>d. d < r \<and> digit_char (n mod r) = digit_char d", OF conjI [OF lt refl]]
      by (auto simp: eq digits_val_snoc to_digit_digit_char lt)
  qed
qed

lemma parse_uint_nat_str:
  assumes "n \<le> m"
  shows "parse_uint m (nat_str n) = Some n"
proof -
  have c: "digits_val 10 (nat_str n) = n" "nat_str n \<noteq> []"
    "\<forall>c \<in> set (nat_str n). \<exists>d < 10. c = digit_char d"
    using nat_str_radix_correct [of 10 n] by (simp_all add: nat_str_def)
  have plus: "CHR ''+'' \<notin> set (nat_str n)"
  proof
    assume "CHR ''+'' \<in> set (nat_str n)"
    then obtain d where "d < 10" "CHR ''+'' = digit_char d"
      using c(3) by auto
    then have "to_digit 10 CHR ''+'' = Some d" by (simp add: to_digit_digit_char)
    then show False by (simp add: to_digit_def)
  qed
  have "(case nat_str n of [] \<Rightarrow> [] | c # cs \<Rightarrow> if c = CHR ''+'' \<and> cs \<noteq> [] then cs else nat_str n)
        = nat_str n"
    using plus by (cases "nat_str n") auto
  moreover have "\<forall>c \<in> set (nat_str n). to_digit 10 c \<noteq> None"
    using c(3) by (auto simp: to_digit_digit_char)
  ultimately show ?thesis
    using c(1,2) assms by (auto simp: parse_uint_def Let_def)
qed

lemma parse_uint_le: "parse_uint m s = Some n \<Longrightarrow> n \<le> m"
  by (auto simp: parse_uint_def Let_def split: if_splits)

section \<open>Bytes of machine words\<close>

definition from_be_bytes :: "u8 list \<Rightarrow> 'a::len word" where
  "from_be_bytes bs = foldl (\<lambda>w b. push_bit 8 w OR ucast b) 0 bs"

definition to_be_bytes :: "nat \<Rightarrow> 'a::len word \<Rightarrow> u8 list" where
  "to_be_bytes n w = map (\<lambda>i. ucast (drop_bit (8 * (n - 1 - i)) w)) [0..<n]"

definition from_le_bytes :: "u8 list \<Rightarrow> 'a::len word" where
  "from_le_bytes bs = from_be_bytes (rev bs)"

definition to_le_bytes :: "nat \<Rightarrow> 'a::len word \<Rightarrow> u8 list" where
  "to_le_bytes n w = rev (to_be_bytes n w)"

lemma length_to_be_bytes [simp]: "length (to_be_bytes n w) = n"
  by (simp add: to_be_bytes_def)

lemma length_to_le_bytes [simp]: "length (to_le_bytes n w) = n"
  by (simp add: to_le_bytes_def)

lemma from_be_bytes_snoc:
  "from_be_bytes (bs @ [b]) = push_bit 8 (from_be_bytes bs) OR ucast b"
  by (simp add: from_be_bytes_def)

lemma bit_from_be_bytes:
  "bit (from_be_bytes bs :: 'a::len word) i \<longleftrightarrow>
     i < LENGTH('a) \<and> i < 8 * length bs \<and> bit (bs ! (length bs - 1 - i div 8)) (i mod 8)"
proof (induction bs arbitrary: i rule: rev_induct)
  case Nil
  then show ?case by (simp add: from_be_bytes_def)
next
  case (snoc b bs)
  show ?case
  proof (cases "i < 8")
    case True
    then show ?thesis
      by (auto simp: from_be_bytes_snoc bit_or_iff bit_push_bit_iff bit_ucast_iff nth_append)
  next
    case False
    then have b: "\<not> bit b i" by (auto dest: bit_imp_le_length)
    from False have d: "(i - 8) div 8 = i div 8 - 1" "(i - 8) mod 8 = i mod 8" "0 < i div 8"
      by (simp_all add: le_div_geq le_mod_geq)
    have n: "bs ! (length bs - 1 - (i div 8 - 1)) = (bs @ [b]) ! (length bs - i div 8)"
      if "i < 8 * length (bs @ [b])" 
    proof -
      from that have "i div 8 \<le> length bs" by simp
      with d(3) have "length bs - i div 8 < length bs"
        by linarith
      with d(3) show ?thesis
        by (simp add: nth_append)
    qed
    have "bit (from_be_bytes (bs @ [b]) :: 'a word) i \<longleftrightarrow>
            i < LENGTH('a) \<and> bit (from_be_bytes bs :: 'a word) (i - 8)"
      using False b by (auto simp: from_be_bytes_snoc bit_or_iff bit_push_bit_iff bit_ucast_iff dest: bit_imp_le_length)
    also have "\<dots> \<longleftrightarrow> i < LENGTH('a) \<and> i < 8 * length (bs @ [b]) \<and>
                 bit (bs ! (length bs - 1 - (i div 8 - 1))) (i mod 8)"
      using False by (auto simp: snoc.IH d)
    also have "\<dots> \<longleftrightarrow> i < LENGTH('a) \<and> i < 8 * length (bs @ [b]) \<and>
                 bit ((bs @ [b]) ! (length (bs @ [b]) - 1 - i div 8)) (i mod 8)"
      using n by auto
    finally show ?thesis .
  qed
qed

lemma from_be_bytes_to_be_bytes:
  assumes "LENGTH('a::len) = 8 * n"
  shows "from_be_bytes (to_be_bytes n w) = (w :: 'a word)"
proof (rule bit_word_eqI)
  fix i assume i: "i < LENGTH('a)"
  with assms have lt: "i div 8 < n" by simp
  then have "to_be_bytes n w ! (n - 1 - i div 8) = ucast (drop_bit (8 * (i div 8)) w)"
    by (simp add: to_be_bytes_def)
  then show "bit (from_be_bytes (to_be_bytes n w) :: 'a word) i = bit w i"
    using i assms by (simp add: bit_from_be_bytes bit_ucast_iff bit_drop_bit_eq)
qed

lemma from_le_bytes_to_le_bytes:
  "LENGTH('a::len) = 8 * n \<Longrightarrow> from_le_bytes (to_le_bytes n w) = (w :: 'a word)"
  by (simp add: from_le_bytes_def to_le_bytes_def from_be_bytes_to_be_bytes)

lemma to_be_bytes_from_be_bytes:
  assumes "length bs = n" "LENGTH('a::len) = 8 * n"
  shows "to_be_bytes n (from_be_bytes bs :: 'a word) = bs"
proof (rule nth_equalityI)
  fix i assume "i < length (to_be_bytes n (from_be_bytes bs :: 'a word))"
  then have i: "i < n" by simp
  show "to_be_bytes n (from_be_bytes bs :: 'a word) ! i = bs ! i"
  proof (rule bit_word_eqI)
    fix j assume "j < LENGTH(8)"
    then have j: "j < 8" by simp
    let ?k = "8 * (n - 1 - i) + j"
    have k: "?k div 8 = n - 1 - i" "?k mod 8 = j" using j by simp_all
    have "?k < 8 * n" using i j by arith
    moreover have "n - 1 - (n - 1 - i) = i" using i by arith
    ultimately have "bit (from_be_bytes bs :: 'a word) ?k = bit (bs ! i) j"
      using assms k by (simp add: bit_from_be_bytes)
    then show "bit (to_be_bytes n (from_be_bytes bs :: 'a word) ! i) j = bit (bs ! i) j"
      using i j by (simp add: to_be_bytes_def bit_ucast_iff bit_drop_bit_eq)
  qed
qed (simp add: assms)

lemma to_le_bytes_from_le_bytes:
  "length bs = n \<Longrightarrow> LENGTH('a::len) = 8 * n \<Longrightarrow> to_le_bytes n (from_le_bytes bs :: 'a word) = bs"
  by (simp add: to_le_bytes_def from_le_bytes_def to_be_bytes_from_be_bytes)
section \<open>UTF-8\<close>

definition utf8_cont :: "nat \<Rightarrow> bool" where
  "utf8_cont b \<longleftrightarrow> 128 \<le> b \<and> b \<le> 191"

definition utf8_second3 :: "nat \<Rightarrow> nat \<Rightarrow> bool" where
  "utf8_second3 b c \<longleftrightarrow>
     (b = 224 \<and> 160 \<le> c \<and> c \<le> 191) \<or> (225 \<le> b \<and> b \<le> 236 \<and> utf8_cont c)
     \<or> (b = 237 \<and> 128 \<le> c \<and> c \<le> 159) \<or> (238 \<le> b \<and> b \<le> 239 \<and> utf8_cont c)"

definition utf8_second4 :: "nat \<Rightarrow> nat \<Rightarrow> bool" where
  "utf8_second4 b c \<longleftrightarrow>
     (b = 240 \<and> 144 \<le> c \<and> c \<le> 191) \<or> (241 \<le> b \<and> b \<le> 243 \<and> utf8_cont c)
     \<or> (b = 244 \<and> 128 \<le> c \<and> c \<le> 143)"

text \<open>
  One step of the decoder at a non-empty input: whether the next sequence is a
  character, and how many bytes it (or the maximal ill-formed part) takes.
\<close>

definition utf8_step :: "nat list \<Rightarrow> bool \<times> nat" where
  "utf8_step bs =
     (case bs of
        [] \<Rightarrow> (True, 1)
      | b # r \<Rightarrow>
        if b < 128 then (True, 1)
        else if 194 \<le> b \<and> b \<le> 223 then
          (case r of [] \<Rightarrow> (False, 1) | c # _ \<Rightarrow> if utf8_cont c then (True, 2) else (False, 1))
        else if 224 \<le> b \<and> b \<le> 239 then
          (case r of [] \<Rightarrow> (False, 1)
           | c # r2 \<Rightarrow> if \<not> utf8_second3 b c then (False, 1)
             else (case r2 of [] \<Rightarrow> (False, 2)
                   | d # _ \<Rightarrow> if utf8_cont d then (True, 3) else (False, 2)))
        else if 240 \<le> b \<and> b \<le> 244 then
          (case r of [] \<Rightarrow> (False, 1)
           | c # r2 \<Rightarrow> if \<not> utf8_second4 b c then (False, 1)
             else (case r2 of [] \<Rightarrow> (False, 2)
                   | d # r3 \<Rightarrow> if \<not> utf8_cont d then (False, 2)
                     else (case r3 of [] \<Rightarrow> (False, 3)
                           | e # _ \<Rightarrow> if utf8_cont e then (True, 4) else (False, 3))))
        else (False, 1))"

lemma utf8_step_pos: "0 < snd (utf8_step bs)"
  by (auto simp: utf8_step_def split: list.splits)

function utf8_lossy :: "u8 list \<Rightarrow> string" where
  "utf8_lossy bs =
     (if bs = [] then []
      else case utf8_step (map unat bs) of
        (ok, n) \<Rightarrow>
          (if ok then map char_of_byte (take n bs) else map char_of [239, 191, 189 :: nat])
          @ utf8_lossy (drop (max 1 n) bs))"
  by pat_completeness auto
termination
  by (relation "measure length") auto

declare utf8_lossy.simps [simp del]

function utf8_valid :: "u8 list \<Rightarrow> bool" where
  "utf8_valid bs =
     (if bs = [] then True
      else case utf8_step (map unat bs) of (ok, n) \<Rightarrow> ok \<and> utf8_valid (drop (max 1 n) bs))"
  by pat_completeness auto
termination
  by (relation "measure length") auto

declare utf8_valid.simps [simp del]

definition from_utf8 :: "u8 list \<Rightarrow> string option" where
  "from_utf8 bs = (if utf8_valid bs then Some (map char_of_byte bs) else None)"

lemma utf8_lossy_valid: "utf8_valid bs \<Longrightarrow> utf8_lossy bs = map char_of_byte bs"
proof (induction bs rule: utf8_lossy.induct)
  case (1 bs)
  show ?case
  proof (cases "bs = []")
    case True
    then show ?thesis by (simp add: utf8_lossy.simps)
  next
    case False
    obtain ok n where st: "utf8_step (map unat bs) = (ok, n)" by (cases "utf8_step (map unat bs)")
    with False 1 have ok: "ok" and v: "utf8_valid (drop (max 1 n) bs)"
      by (auto simp: utf8_valid.simps [of bs])
    have pos: "0 < n" using utf8_step_pos [of "map unat bs"] st by simp
    have IH: "utf8_lossy (drop (max 1 n) bs) = map char_of_byte (drop (max 1 n) bs)"
      using 1(1) [OF False] st ok v by simp
    have n: "max 1 n = n" using pos by simp
    have "utf8_lossy bs = map char_of_byte (take n bs) @ map char_of_byte (drop n bs)"
      using False st ok IH n by (simp add: utf8_lossy.simps [of bs])
    then show ?thesis by (metis append_take_drop_id map_append)
  qed
qed

lemma utf8_valid_ascii: "\<forall>b \<in> set bs. unat b < 128 \<Longrightarrow> utf8_valid bs"
proof (induction bs)
  case Nil
  then show ?case by (simp add: utf8_valid.simps)
next
  case (Cons b bs)
  then show ?case by (simp add: utf8_valid.simps [of "b # bs"] utf8_step_def)
qed

lemma unat_byte_of: "unat (byte_of c) = of_char c"
proof -
  have "(of_char c :: nat) < 256" by simp
  then show ?thesis by (simp add: byte_of_def unsigned_of_nat take_bit_nat_eq_self)
qed

lemma utf8_lossy_as_bytes_ascii:
  assumes "\<forall>c \<in> set s. (of_char c :: nat) < 128"
  shows "utf8_lossy (as_bytes s) = s"
proof -
  have "utf8_valid (as_bytes s)"
    using assms by (intro utf8_valid_ascii) (auto simp: as_bytes_def unat_byte_of)
  then have "utf8_lossy (as_bytes s) = map char_of_byte (as_bytes s)"
    by (rule utf8_lossy_valid)
  then show ?thesis by (simp add: as_bytes_def comp_def)
qed

lemma parse_uint_eval:
  "parse_uint m s =
     (let t = (case s of [] \<Rightarrow> [] | c # cs \<Rightarrow> if c = CHR ''+'' \<and> cs \<noteq> [] then cs else s)
      in if t = [] \<or> \<not> list_all (\<lambda>c. to_digit 10 c \<noteq> None) t \<or> m < digits_val 10 t then None
         else Some (digits_val 10 t))"
  by (auto simp: parse_uint_def list_all_iff Let_def)

lemmas [std_eval] = parse_usize_def parse_u16_def parse_u8_def parse_uint_eval digits_val_def
  to_digit_def Let_def

end
