(* ===== verification/Rust_Net.thy ===== *)
theory Rust_Net
  imports Rust_Num "HOL-Library.Monad_Syntax"
begin

text \<open>
  \<^verbatim>\<open>std::net\<close>: IPv4 and IPv6 addresses, their octets, and the parser behind
  \<^verbatim>\<open>IpAddr::from_str\<close>.  A parser takes the input that is left and returns a
  value and the input after it, or \<open>None\<close> with nothing consumed.
\<close>

unbundle bit_operations_syntax

datatype ip_addr = V4 u32 | V6 u128

definition v4_octets :: "u32 \<Rightarrow> u8 list" where
  "v4_octets a = to_be_bytes 4 a"

definition v6_octets :: "u128 \<Rightarrow> u8 list" where
  "v6_octets a = to_be_bytes 16 a"

definition ipv4_new :: "u8 \<Rightarrow> u8 \<Rightarrow> u8 \<Rightarrow> u8 \<Rightarrow> u32" where
  "ipv4_new a b c d = from_be_bytes [a, b, c, d]"

section \<open>The address parser\<close>

definition read_char :: "char \<Rightarrow> string \<Rightarrow> string option" where
  "read_char c s = (case s of [] \<Rightarrow> None | x # xs \<Rightarrow> if x = c then Some xs else None)"

definition read_number :: "nat \<Rightarrow> nat \<Rightarrow> bool \<Rightarrow> nat \<Rightarrow> string \<Rightarrow> (nat \<times> string) option" where
  "read_number radix max_digits allow_zero_prefix max_val s =
     (let ds = takeWhile (\<lambda>c. to_digit radix c \<noteq> None) s; n = length ds
      in if n = 0 \<or> max_digits < n \<or> (\<not> allow_zero_prefix \<and> hd ds = CHR ''0'' \<and> 1 < n)
            \<or> max_val < digits_val radix ds
         then None else Some (digits_val radix ds, drop n s))"

definition read_separator :: "char \<Rightarrow> nat \<Rightarrow> (string \<Rightarrow> ('a \<times> string) option) \<Rightarrow> string \<Rightarrow> ('a \<times> string) option" where
  "read_separator sep index inner s =
     (if 0 < index then (case read_char sep s of None \<Rightarrow> None | Some t \<Rightarrow> inner t) else inner s)"

definition read_ipv4 :: "string \<Rightarrow> (u32 \<times> string) option" where
  "read_ipv4 s =
     do { (a, s) \<leftarrow> read_separator (CHR ''.'') 0 (read_number 10 3 False 255) s;
          (b, s) \<leftarrow> read_separator (CHR ''.'') 1 (read_number 10 3 False 255) s;
          (c, s) \<leftarrow> read_separator (CHR ''.'') 2 (read_number 10 3 False 255) s;
          (d, s) \<leftarrow> read_separator (CHR ''.'') 3 (read_number 10 3 False 255) s;
          Some (ipv4_new (of_nat a) (of_nat b) (of_nat c) (of_nat d), s) }"

text \<open>
  The groups of an IPv6 address, at most \<open>limit\<close> of them, with whether the last two
  came from an embedded IPv4 address.
\<close>

function read_groups :: "nat \<Rightarrow> nat \<Rightarrow> string \<Rightarrow> u16 list \<times> bool \<times> string" where
  "read_groups i limit s =
     (if limit \<le> i then ([], False, s)
      else case (if i < limit - 1 then read_separator (CHR '':'') i read_ipv4 s else None) of
        Some (v4, t) \<Rightarrow> ([ucast (drop_bit 16 v4), ucast v4], True, t)
      | None \<Rightarrow>
          (case read_separator (CHR '':'') i (read_number 16 4 True 65535) s of
             None \<Rightarrow> ([], False, s)
           | Some (g, t) \<Rightarrow>
               (case read_groups (Suc i) limit t of (gs, b, r) \<Rightarrow> (of_nat g # gs, b, r))))"
  by pat_completeness auto
termination
  by (relation "measure (\<lambda>(i, limit, s). limit - i)") auto

declare read_groups.simps [simp del]

definition ipv6_of_groups :: "u16 list \<Rightarrow> u128" where
  "ipv6_of_groups gs = from_be_bytes (concat (map (to_be_bytes 2) gs))"

definition read_ipv6 :: "string \<Rightarrow> (u128 \<times> string) option" where
  "read_ipv6 s =
     (case read_groups 0 8 s of (head, head_ipv4, s) \<Rightarrow>
        if length head = 8 then Some (ipv6_of_groups head, s)
        else if head_ipv4 then None
        else do {
          s \<leftarrow> read_char (CHR '':'') s;
          s \<leftarrow> read_char (CHR '':'') s;
          case read_groups 0 (8 - (length head + 1)) s of (tail, _, s) \<Rightarrow>
            Some (ipv6_of_groups (head @ replicate (8 - length head - length tail) 0 @ tail), s) })"

definition parse_ip :: "string \<Rightarrow> ip_addr option" where
  "parse_ip s =
     (case (case read_ipv4 s of Some (a, t) \<Rightarrow> Some (V4 a, t)
            | None \<Rightarrow> map_option (\<lambda>(a, t). (V6 a, t)) (read_ipv6 s)) of
        Some (a, []) \<Rightarrow> Some a
      | _ \<Rightarrow> None)"

lemma length_v4_octets [simp]: "length (v4_octets a) = 4"
  by (simp add: v4_octets_def)

lemma length_v6_octets [simp]: "length (v6_octets a) = 16"
  by (simp add: v6_octets_def)

lemma from_be_bytes_v4_octets: "from_be_bytes (v4_octets a) = a"
  by (simp add: v4_octets_def from_be_bytes_to_be_bytes)

lemma from_be_bytes_v6_octets: "from_be_bytes (v6_octets a) = a"
  by (simp add: v6_octets_def from_be_bytes_to_be_bytes)

lemmas [std_eval] = parse_ip_def read_ipv4_def read_separator_def read_number_def read_char_def
  ipv4_new_def from_be_bytes_def

end
