(* ===== verification/Bit_Trie.thy ===== *)
theory Bit_Trie
  imports Prefix_Index Rust_Net
begin

text \<open>
  \<^verbatim>\<open>BitNode\<close> and \<^verbatim>\<open>BitTrie\<close> of \<^verbatim>\<open>routing/matcher.rs\<close>: the binary
  longest-prefix-match trie for CIDR networks, and the bit expansion of addresses.
  A bit, which the code has as a \<^verbatim>\<open>u8\<close> that is 0 or 1 and uses as the index of the
  two-element child array, is a \<open>bool\<close>.
\<close>

unbundle bit_operations_syntax

section \<open>The trie\<close>

datatype 'a bit_node = BitNode "'a bit_node option" "'a bit_node option" "'a option"

definition bit_node_new :: "'a bit_node" where
  "bit_node_new = BitNode None None None"

fun bit_child :: "'a bit_node \<Rightarrow> bool \<Rightarrow> 'a bit_node option" where
  "bit_child (BitNode c0 c1 _) b = (if b then c1 else c0)"

fun bit_leaf :: "'a bit_node \<Rightarrow> 'a option" where
  "bit_leaf (BitNode _ _ l) = l"

fun bit_insert_path :: "'a bit_node \<Rightarrow> bool list \<Rightarrow> 'a \<Rightarrow> 'a bit_node" where
  "bit_insert_path (BitNode c0 c1 l) [] leaf = BitNode c0 c1 (Some leaf)"
| "bit_insert_path (BitNode c0 c1 l) (b # bs) leaf =
     (let next = bit_insert_path (case (if b then c1 else c0) of None \<Rightarrow> bit_node_new | Some n \<Rightarrow> n) bs leaf
      in if b then BitNode c0 (Some next) l else BitNode (Some next) c1 l)"

definition bit_trie_insert :: "'a bit_node \<Rightarrow> bool list \<Rightarrow> nat \<Rightarrow> 'a \<Rightarrow> 'a bit_node" where
  "bit_trie_insert t bits pfx leaf = bit_insert_path t (take pfx bits) leaf"

fun bit_walk :: "'a bit_node \<Rightarrow> 'a option \<Rightarrow> bool list \<Rightarrow> 'a option" where
  "bit_walk node best [] = best"
| "bit_walk node best (b # bs) =
     (case bit_child node b of
        Some nxt \<Rightarrow> bit_walk nxt (if bit_leaf nxt \<noteq> None then bit_leaf nxt else best) bs
      | None \<Rightarrow> best)"

definition bit_trie_lookup :: "'a bit_node \<Rightarrow> bool list \<Rightarrow> 'a option" where
  "bit_trie_lookup t bits = bit_walk t (bit_leaf t) bits"

text \<open>The abstract view: the leaf stored at a path.\<close>

fun bit_entries :: "'a bit_node \<Rightarrow> bool list \<Rightarrow> 'a option" where
  "bit_entries t [] = bit_leaf t"
| "bit_entries t (b # bs) = (case bit_child t b of None \<Rightarrow> None | Some n \<Rightarrow> bit_entries n bs)"

lemma bit_entries_new [simp]: "bit_entries bit_node_new p = None"
  by (cases p) (simp_all add: bit_node_new_def)

lemma bit_entries_insert:
  "bit_entries (bit_insert_path t p v) q = (if q = p then Some v else bit_entries t q)"
proof (induction p arbitrary: t q)
  case Nil
  show ?case by (cases t; cases q) simp_all
next
  case (Cons b bs)
  obtain c0 c1 l where t: "t = BitNode c0 c1 l" by (cases t)
  show ?case
  proof (cases q)
    case Nil
    then show ?thesis by (simp add: t Let_def)
  next
    case q: (Cons x xs)
    show ?thesis
      by (cases b; cases x; cases c0; cases c1) (simp_all add: t q Let_def Cons.IH)
  qed
qed

lemma bit_walk_longest:
  "bit_walk n best k =
     (case longest_entry (\<lambda>p. if p = [] then None else bit_entries n p) k of
        Some v \<Rightarrow> Some v | None \<Rightarrow> best)"
proof (induction k arbitrary: n best)
  case Nil
  show ?case by simp
next
  case (Cons b bs)
  show ?case
  proof (cases "bit_child n b")
    case None
    then have "longest_entry (\<lambda>p. if b # p = [] then None else bit_entries n (b # p)) bs = None"
      by (simp add: longest_entry_None)
    with None show ?thesis by simp
  next
    case (Some m)
    let ?e = "\<lambda>p. if p = [] then None else bit_entries m p"
    have "longest_entry (bit_entries m) bs =
            (case longest_entry ?e bs of Some v \<Rightarrow> Some v | None \<Rightarrow> bit_leaf m)"
      by (cases bs) (auto split: option.split)
    with Some show ?thesis by (auto simp: Cons.IH split: option.split)
  qed
qed

lemma bit_trie_lookup_longest: "bit_trie_lookup t k = longest_entry (bit_entries t) k"
  by (cases k) (auto simp: bit_trie_lookup_def bit_walk_longest split: option.split)

interpretation bit_ix: prefix_index bit_node_new bit_insert_path bit_trie_lookup bit_entries "\<lambda>_. True"
  by unfold_locales (simp_all add: bit_entries_insert bit_trie_lookup_longest)

section \<open>Address bits\<close>

definition octet_bits :: "u8 \<Rightarrow> bool list" where
  \<comment> \<open>\<^verbatim>\<open>(0..8).rev().map(|i| (o >> i) & 1)\<close>\<close>
  "octet_bits b = map (\<lambda>i. drop_bit i b AND 1 = 1) (rev [0..<8])"

definition ipv4_bits :: "u32 \<Rightarrow> bool list" where
  "ipv4_bits a = concat (map octet_bits (v4_octets a))"

definition ipv6_bits :: "u128 \<Rightarrow> bool list" where
  "ipv6_bits a = concat (map octet_bits (v6_octets a))"

definition word_bits :: "nat \<Rightarrow> 'a::len word \<Rightarrow> bool list" where
  "word_bits n w = map (\<lambda>k. bit w (n - 1 - k)) [0..<n]"

lemma octet_bits_eq: "octet_bits b = map (\<lambda>j. bit b (7 - j)) [0..<8]"
proof -
  have "(drop_bit i b AND 1 = 1) = bit b i" for i
    by (simp add: and_one_eq mod_2_eq_odd bit_iff_odd_drop_bit)
  moreover have "rev [0..<8] = map (\<lambda>j. 7 - j) [0..<8::nat]" by code_simp
  ultimately show ?thesis by (simp add: octet_bits_def)
qed

lemma concat_blocks:
  "concat (map (\<lambda>i. map (g i) [0..<8]) [0..<n]) = map (\<lambda>k. g (k div 8) (k mod 8)) [0..<8 * n]"
proof (induction n)
  case 0
  then show ?case by simp
next
  case (Suc n)
  have "[0..<8 * n + 8] = [0..<8 * n] @ [8 * n..<8 * n + 8]"
    by (rule upt_add_eq_append) simp
  moreover have "map (\<lambda>k. k + 8 * n) [0..<8] = [8 * n..<8 * n + 8]"
    using map_add_upt [of "8 * n" 8] by (simp add: add.commute)
  ultimately have "[0..<8 * Suc n] = [0..<8 * n] @ map (\<lambda>k. 8 * n + k) [0..<8]"
    by (simp add: add.commute)
  moreover have "map (\<lambda>k. g (k div 8) (k mod 8)) (map (\<lambda>k. 8 * n + k) [0..<8]) = map (g n) [0..<8]"
    by simp
  ultimately show ?case using Suc by simp
qed

lemma bytes_bits:
  assumes "LENGTH('a::len) = 8 * n"
  shows "concat (map octet_bits (to_be_bytes n (w :: 'a word))) = word_bits (8 * n) w"
proof -
  have lt: "7 - j < (8::nat)" for j by arith
  have "concat (map octet_bits (to_be_bytes n w))
      = concat (map (\<lambda>i. map (\<lambda>j. bit (drop_bit (8 * (n - 1 - i)) w) (7 - j)) [0..<8]) [0..<n])"
    by (simp add: to_be_bytes_def octet_bits_eq comp_def bit_ucast_iff lt)
  also have "\<dots> = map (\<lambda>k. bit (drop_bit (8 * (n - 1 - k div 8)) w) (7 - k mod 8)) [0..<8 * n]"
    by (rule concat_blocks)
  also have "\<dots> = word_bits (8 * n) w"
  proof -
    have "8 * (n - 1 - k div 8) + (7 - k mod 8) = 8 * n - 1 - k" if "k < 8 * n" for k
    proof -
      from that have "k div 8 < n" by simp
      then have "8 * (k div 8) + 8 \<le> 8 * n" by simp
      moreover have "k = 8 * (k div 8) + k mod 8" "k mod 8 < 8" by simp_all
      ultimately show ?thesis by linarith
    qed
    then show ?thesis by (auto simp: word_bits_def bit_drop_bit_eq)
  qed
  finally show ?thesis .
qed

lemma ipv4_bits_eq: "ipv4_bits a = word_bits 32 a"
  using bytes_bits [of 4 a] by (simp add: ipv4_bits_def v4_octets_def)

lemma ipv6_bits_eq: "ipv6_bits a = word_bits 128 a"
  using bytes_bits [of 16 a] by (simp add: ipv6_bits_def v6_octets_def)

lemma length_ipv4_bits [simp]: "length (ipv4_bits a) = 32"
  by (simp add: ipv4_bits_eq word_bits_def)

lemma length_ipv6_bits [simp]: "length (ipv6_bits a) = 128"
  by (simp add: ipv6_bits_eq word_bits_def)

section \<open>Prefixes are networks\<close>

definition in_network :: "nat \<Rightarrow> nat \<Rightarrow> 'a::len word \<Rightarrow> 'a word \<Rightarrow> bool" where
  \<comment> \<open>address \<open>a\<close> lies in the network \<open>net/p\<close>, \<open>n\<close> being the width\<close>
  "in_network n p net a \<longleftrightarrow> drop_bit (n - p) a = drop_bit (n - p) net"

lemma prefix_word_bits:
  assumes n: "LENGTH('a::len) = n" and p: "p \<le> n"
  shows "prefix (take p (word_bits n net)) (word_bits n (a :: 'a word)) \<longleftrightarrow> in_network n p net a"
proof -
  have "prefix (take p (word_bits n net)) (word_bits n a) \<longleftrightarrow>
          take p (word_bits n net) = take p (word_bits n a)"
    using p by (auto simp: prefix_take_iff word_bits_def)
  also have "\<dots> \<longleftrightarrow> (\<forall>k < p. bit net (n - 1 - k) = bit a (n - 1 - k))"
    using p by (auto simp: word_bits_def take_map list_eq_iff_nth_eq)
  also have "\<dots> \<longleftrightarrow> (\<forall>j. n - p \<le> j \<longrightarrow> j < n \<longrightarrow> bit net j = bit a j)"
  proof (rule iffI; rule allI; intro impI)
    fix j assume h: "\<forall>k < p. bit net (n - 1 - k) = bit a (n - 1 - k)" "n - p \<le> j" "j < n"
    then have "n - 1 - j < p" "n - 1 - (n - 1 - j) = j" using p by linarith+
    with h(1) show "bit net j = bit a j" by metis
  next
    fix k assume h: "\<forall>j. n - p \<le> j \<longrightarrow> j < n \<longrightarrow> bit net j = bit a j" "k < p"
    then have "n - p \<le> n - 1 - k" "n - 1 - k < n" using p by linarith+
    with h(1) show "bit net (n - 1 - k) = bit a (n - 1 - k)" by blast
  qed
  also have "\<dots> \<longleftrightarrow> in_network n p net a"
  proof
    assume h: "\<forall>j. n - p \<le> j \<longrightarrow> j < n \<longrightarrow> bit net j = bit a j"
    show "in_network n p net a"
      unfolding in_network_def
    proof (rule bit_word_eqI)
      fix i assume "i < LENGTH('a)"
      show "bit (drop_bit (n - p) a) i = bit (drop_bit (n - p) net) i"
        using h [rule_format, of "n - p + i"] n
        by (cases "n - p + i < n") (auto simp: bit_drop_bit_eq dest: bit_imp_le_length)
    qed
  next
    assume h: "in_network n p net a"
    show "\<forall>j. n - p \<le> j \<longrightarrow> j < n \<longrightarrow> bit net j = bit a j"
    proof (intro allI impI)
      fix j assume j: "n - p \<le> j" "j < n"
      have "bit (drop_bit (n - p) a) (j - (n - p)) = bit (drop_bit (n - p) net) (j - (n - p))"
        using h by (simp add: in_network_def)
      with j show "bit net j = bit a j" by (simp add: bit_drop_bit_eq)
    qed
  qed
  finally show ?thesis .
qed

lemma prefix_ipv4_bits:
  "p \<le> 32 \<Longrightarrow> prefix (take p (ipv4_bits net)) (ipv4_bits a) \<longleftrightarrow> in_network 32 p net a"
  using prefix_word_bits [of 32 p net a] by (simp add: ipv4_bits_eq)

lemma prefix_ipv6_bits:
  "p \<le> 128 \<Longrightarrow> prefix (take p (ipv6_bits net)) (ipv6_bits a) \<longleftrightarrow> in_network 128 p net a"
  using prefix_word_bits [of 128 p net a] by (simp add: ipv6_bits_eq)

end
