(* ===== verification/Domain_Trie.thy ===== *)
theory Domain_Trie
  imports Prefix_Index Rust_Std
begin

text \<open>
  \<^verbatim>\<open>LabelNode\<close> and \<^verbatim>\<open>DomainTrie\<close> of \<^verbatim>\<open>routing/matcher.rs\<close>: the reversed-label
  trie for domain suffixes.  As in the code the nodes live in a vector and refer to
  each other by index; node 0 is the root.  The invariant says that the indices form
  a tree: an edge leads to a larger index within the vector, and no two edges lead to
  the same node.  Under it every index the code reads is in range and distinct paths
  reach distinct nodes, which is what makes an insertion change one entry only.
\<close>

record 'm label_node =
  ln_children :: "string \<Rightarrow> nat option"
  ln_leaf :: "'m option"

type_synonym 'm domain_trie = "'m label_node list"

definition label_node_new :: "'m label_node" where
  "label_node_new = \<lparr>ln_children = (\<lambda>_. None), ln_leaf = None\<rparr>"

definition domain_trie_new :: "'m domain_trie" where
  "domain_trie_new = [label_node_new]"

definition domain_labels :: "string \<Rightarrow> string list" where
  "domain_labels s = rev (filter (\<lambda>l. l \<noteq> []) (split_on (CHR ''.'') (to_ascii_lowercase s)))"

definition push_child :: "'m domain_trie \<Rightarrow> nat \<Rightarrow> string \<Rightarrow> 'm domain_trie" where
  "push_child nodes cur label =
     (let ns = nodes @ [label_node_new]; node = ns ! cur
      in ns[cur := node\<lparr>ln_children := (ln_children node)(label \<mapsto> length nodes)\<rparr>])"

fun descend_insert :: "'m domain_trie \<Rightarrow> nat \<Rightarrow> string list \<Rightarrow> 'm domain_trie \<times> nat" where
  "descend_insert nodes cur [] = (nodes, cur)"
| "descend_insert nodes cur (label # ls) =
     (case ln_children (nodes ! cur) label of
        Some nxt \<Rightarrow> descend_insert nodes nxt ls
      | None \<Rightarrow> descend_insert (push_child nodes cur label) (length nodes) ls)"

definition insert_labels :: "'m domain_trie \<Rightarrow> string list \<Rightarrow> 'm \<Rightarrow> 'm domain_trie" where
  "insert_labels nodes labels m =
     (case descend_insert nodes 0 labels of (ns, cur) \<Rightarrow> ns[cur := (ns ! cur)\<lparr>ln_leaf := Some m\<rparr>])"

definition domain_trie_insert :: "'m domain_trie \<Rightarrow> string \<Rightarrow> 'm \<Rightarrow> 'm domain_trie" where
  "domain_trie_insert nodes sfx m = insert_labels nodes (domain_labels sfx) m"

fun descend_lookup :: "'m domain_trie \<Rightarrow> nat \<Rightarrow> 'm option \<Rightarrow> string list \<Rightarrow> 'm option" where
  "descend_lookup nodes cur best [] = best"
| "descend_lookup nodes cur best (label # ls) =
     (case ln_children (nodes ! cur) label of
        Some nxt \<Rightarrow>
          descend_lookup nodes nxt (case ln_leaf (nodes ! nxt) of Some l \<Rightarrow> Some l | None \<Rightarrow> best) ls
      | None \<Rightarrow> best)"

definition lookup_labels :: "'m domain_trie \<Rightarrow> string list \<Rightarrow> 'm option" where
  "lookup_labels nodes labels = descend_lookup nodes 0 (ln_leaf (nodes ! 0)) labels"

definition domain_trie_lookup :: "'m domain_trie \<Rightarrow> string \<Rightarrow> 'm option" where
  "domain_trie_lookup nodes name = lookup_labels nodes (domain_labels name)"

section \<open>The tree invariant\<close>

definition trie_wf :: "'m domain_trie \<Rightarrow> bool" where
  "trie_wf ns \<longleftrightarrow> ns \<noteq> []
     \<and> (\<forall>i < length ns. \<forall>l j. ln_children (ns ! i) l = Some j \<longrightarrow> i < j \<and> j < length ns)
     \<and> (\<forall>i < length ns. \<forall>i' < length ns. \<forall>l l' j.
          ln_children (ns ! i) l = Some j \<longrightarrow> ln_children (ns ! i') l' = Some j \<longrightarrow> i = i' \<and> l = l')"

lemma trie_wf_range:
  "trie_wf ns \<Longrightarrow> i < length ns \<Longrightarrow> ln_children (ns ! i) l = Some j \<Longrightarrow> i < j \<and> j < length ns"
  unfolding trie_wf_def by blast

lemma trie_wf_pos: "trie_wf ns \<Longrightarrow> 0 < length ns"
  unfolding trie_wf_def by blast

lemma trie_wf_inj:
  "trie_wf ns \<Longrightarrow> i < length ns \<Longrightarrow> i' < length ns \<Longrightarrow> ln_children (ns ! i) l = Some j \<Longrightarrow>
   ln_children (ns ! i') l' = Some j \<Longrightarrow> i = i' \<and> l = l'"
  unfolding trie_wf_def by blast

text \<open>The node that a path of labels reaches.\<close>

fun node_at :: "'m domain_trie \<Rightarrow> nat \<Rightarrow> string list \<Rightarrow> nat option" where
  "node_at ns cur [] = Some cur"
| "node_at ns cur (l # ls) =
     (case ln_children (ns ! cur) l of None \<Rightarrow> None | Some j \<Rightarrow> node_at ns j ls)"

definition trie_entries :: "'m domain_trie \<Rightarrow> string list \<Rightarrow> 'm option" where
  "trie_entries ns p = (case node_at ns 0 p of None \<Rightarrow> None | Some i \<Rightarrow> ln_leaf (ns ! i))"

lemma node_at_append:
  "node_at ns cur (p @ q) = (case node_at ns cur p of None \<Rightarrow> None | Some i \<Rightarrow> node_at ns i q)"
  by (induction p arbitrary: cur) (auto split: option.split)

lemma node_at_range:
  "trie_wf ns \<Longrightarrow> cur < length ns \<Longrightarrow> node_at ns cur p = Some i \<Longrightarrow> i < length ns \<and> (p \<noteq> [] \<longrightarrow> cur < i)"
proof (induction p arbitrary: cur)
  case (Cons l ls)
  then obtain j where j: "ln_children (ns ! cur) l = Some j" "node_at ns j ls = Some i"
    by (auto split: option.splits)
  with Cons.prems have r: "cur < j" "j < length ns" by (auto dest: trie_wf_range)
  with Cons.IH [of j] Cons.prems(1) j(2) have "i < length ns" "ls \<noteq> [] \<longrightarrow> j < i" by auto
  with r j(2) show ?case by (cases ls) auto
qed simp

lemma node_at_inj:
  assumes wf: "trie_wf ns"
  shows "node_at ns 0 p = Some i \<Longrightarrow> node_at ns 0 q = Some i \<Longrightarrow> p = q"
proof (induction p arbitrary: q i rule: rev_induct)
  case Nil
  then have "i = 0" by simp
  then show ?case using Nil(2) node_at_range [OF wf trie_wf_pos [OF wf], of q i] by (cases q) auto
next
  case (snoc l p)
  have pos: "0 < length ns" using wf by (rule trie_wf_pos)
  from snoc.prems(1) obtain a where a: "node_at ns 0 p = Some a" "ln_children (ns ! a) l = Some i"
    by (auto simp: node_at_append split: option.splits)
  show ?case
  proof (cases q rule: rev_cases)
    case Nil
    with snoc.prems(2) have "i = 0" by simp
    with snoc.prems(1) node_at_range [OF wf pos, of "p @ [l]" i] show ?thesis by simp
  next
    case q: (snoc q' l')
    with snoc.prems(2) obtain b where b: "node_at ns 0 q' = Some b" "ln_children (ns ! b) l' = Some i"
      by (auto simp: node_at_append split: option.splits)
    have "a < length ns" "b < length ns"
      using node_at_range [OF wf pos] a(1) b(1) by auto
    with trie_wf_inj [OF wf _ _ a(2) b(2)] have "a = b" "l = l'" by auto
    with snoc.IH [OF a(1)] b(1) q show ?thesis by simp
  qed
qed

section \<open>One new node\<close>

lemma length_push_child [simp]: "length (push_child ns cur l) = Suc (length ns)"
  by (simp add: push_child_def Let_def)

lemma push_child_nth:
  assumes "cur < length ns"
  shows "push_child ns cur l ! i =
     (if i = cur then (ns ! cur)\<lparr>ln_children := (ln_children (ns ! cur))(l \<mapsto> length ns)\<rparr>
      else if i < length ns then ns ! i
      else (ns @ [label_node_new]) ! i)"
  using assms by (simp add: push_child_def Let_def nth_list_update nth_append)

lemma push_child_children:
  assumes "cur < length ns" "i < Suc (length ns)"
  shows "ln_children (push_child ns cur l ! i) k =
     (if i = cur \<and> k = l then Some (length ns)
      else if i < length ns then ln_children (ns ! i) k else None)"
  using assms by (auto simp: push_child_nth nth_append label_node_new_def)

lemma push_child_leaf:
  assumes "cur < length ns" "i < Suc (length ns)"
  shows "ln_leaf (push_child ns cur l ! i) = (if i < length ns then ln_leaf (ns ! i) else None)"
  using assms by (auto simp: push_child_nth nth_append label_node_new_def)

lemma push_child_wf:
  assumes wf: "trie_wf ns" and cur: "cur < length ns" and fresh: "ln_children (ns ! cur) l = None"
  shows "trie_wf (push_child ns cur l)"
proof -
  have range: "i < j \<and> j < Suc (length ns)"
    if "i < Suc (length ns)" "ln_children (push_child ns cur l ! i) k = Some j" for i k j
    using that cur trie_wf_range [OF wf, of i k j]
    by (auto simp: push_child_children split: if_splits)
  have old: "j < length ns"
    if "i < length ns" "ln_children (ns ! i) k = Some j" for i k j
    using trie_wf_range [OF wf that] by simp
  have inj: "i = i' \<and> k = k'"
    if "i < Suc (length ns)" "i' < Suc (length ns)"
      "ln_children (push_child ns cur l ! i) k = Some j"
      "ln_children (push_child ns cur l ! i') k' = Some j" for i i' k k' j
    using that cur old trie_wf_inj [OF wf, of i i' k j k']
    by (fastforce simp: push_child_children split: if_splits)
  have "push_child ns cur l \<noteq> []" by (metis length_push_child list.size(3) nat.distinct(1))
  with range inj show ?thesis
    unfolding trie_wf_def length_push_child by blast
qed

lemma push_child_node_at_old:
  assumes wf: "trie_wf ns" and cur: "cur < length ns" and fresh: "ln_children (ns ! cur) l = None"
  shows "c < length ns \<Longrightarrow> node_at ns c p = Some i \<Longrightarrow> node_at (push_child ns cur l) c p = Some i"
proof (induction p arbitrary: c)
  case (Cons k p)
  then obtain j where j: "ln_children (ns ! c) k = Some j" "node_at ns j p = Some i"
    by (auto split: option.splits)
  with fresh have ne: "\<not> (c = cur \<and> k = l)" by auto
  have "j < length ns" using trie_wf_range [OF wf Cons.prems(1) j(1)] by simp
  with Cons.IH j(2) have "node_at (push_child ns cur l) j p = Some i" by blast
  with Cons.prems(1) cur j(1) ne show ?case by (auto simp: push_child_children)
qed simp

lemma push_child_node_at_new:
  assumes wf: "trie_wf ns" and cur: "cur < length ns"
  shows "c < Suc (length ns) \<Longrightarrow> node_at (push_child ns cur l) c p = Some i \<Longrightarrow>
           i = length ns \<or> (c < length ns \<and> node_at ns c p = Some i)"
proof (induction p arbitrary: c)
  case Nil
  then show ?case by auto
next
  case (Cons k p)
  then obtain j where j: "ln_children (push_child ns cur l ! c) k = Some j"
    "node_at (push_child ns cur l) j p = Some i"
    by (auto split: option.splits)
  show ?case
  proof (cases "c = cur \<and> k = l")
    case True
    with j(1) cur have "j = length ns" by (simp add: push_child_children)
    with Cons.IH [of j] j(2) show ?thesis by auto
  next
    case False
    with j(1) Cons.prems(1) cur have c: "c < length ns" "ln_children (ns ! c) k = Some j"
      by (auto simp: push_child_children split: if_splits)
    with trie_wf_range [OF wf] have "j < length ns" by blast
    with Cons.IH [of j] j(2) c show ?thesis by auto
  qed
qed

lemma push_child_entries:
  assumes wf: "trie_wf ns" and cur: "cur < length ns" and fresh: "ln_children (ns ! cur) l = None"
  shows "trie_entries (push_child ns cur l) = trie_entries ns"
proof
  fix p
  have pos: "0 < length ns" using wf by (rule trie_wf_pos)
  show "trie_entries (push_child ns cur l) p = trie_entries ns p"
  proof (cases "node_at ns 0 p")
    case (Some i)
    then have "node_at (push_child ns cur l) 0 p = Some i" "i < length ns"
      using push_child_node_at_old [OF assms pos] node_at_range [OF wf pos] by auto
    with Some cur show ?thesis by (simp add: trie_entries_def push_child_leaf)
  next
    case None
    show ?thesis
    proof (cases "node_at (push_child ns cur l) 0 p")
      case (Some i)
      with push_child_node_at_new [OF wf cur, of 0 l p i] None have "i = length ns" by auto
      with None Some cur show ?thesis by (simp add: trie_entries_def push_child_leaf)
    qed (simp add: trie_entries_def None)
  qed
qed

section \<open>Insertion\<close>

lemma descend_insert_spec:
  assumes "trie_wf ns" "node_at ns 0 p = Some cur" "descend_insert ns cur ls = (ns', c)"
  shows "trie_wf ns' \<and> trie_entries ns' = trie_entries ns \<and> node_at ns' 0 (p @ ls) = Some c
         \<and> c < length ns'"
  using assms
proof (induction ls arbitrary: ns cur p)
  case Nil
  then show ?case using node_at_range [of ns 0 p cur] trie_wf_pos by auto
next
  case (Cons l ls)
  have pos: "0 < length ns" using Cons.prems(1) by (rule trie_wf_pos)
  have cur: "cur < length ns" using node_at_range [OF Cons.prems(1) pos Cons.prems(2)] by simp
  show ?case
  proof (cases "ln_children (ns ! cur) l")
    case (Some j)
    then have "node_at ns 0 (p @ [l]) = Some j" using Cons.prems(2) by (simp add: node_at_append)
    from Cons.IH [OF Cons.prems(1) this] Some Cons.prems(3) show ?thesis by simp
  next
    case None
    let ?ns = "push_child ns cur l"
    have "node_at ?ns 0 p = Some cur"
      using push_child_node_at_old [OF Cons.prems(1) cur None pos Cons.prems(2)] .
    then have "node_at ?ns 0 (p @ [l]) = Some (length ns)"
      using cur by (simp add: node_at_append push_child_children)
    from Cons.IH [OF push_child_wf [OF Cons.prems(1) cur None] this] None Cons.prems(3)
    show ?thesis by (simp add: push_child_entries [OF Cons.prems(1) cur None])
  qed
qed

lemma set_leaf_children: "ln_children ((ns[c := (ns ! c)\<lparr>ln_leaf := m\<rparr>]) ! i) = ln_children (ns ! i)"
  by (cases "c < length ns") (auto simp: nth_list_update list_update_beyond)

lemma set_leaf_wf: "trie_wf (ns[c := (ns ! c)\<lparr>ln_leaf := m\<rparr>]) = trie_wf ns"
  by (simp add: trie_wf_def set_leaf_children)

lemma set_leaf_node_at: "node_at (ns[c := (ns ! c)\<lparr>ln_leaf := m\<rparr>]) k p = node_at ns k p"
  by (induction p arbitrary: k) (auto simp: set_leaf_children split: option.split)

lemma insert_labels_wf: "trie_wf ns \<Longrightarrow> trie_wf (insert_labels ns ls m)"
  using descend_insert_spec [of ns "[]" 0 ls]
  by (auto simp: insert_labels_def set_leaf_wf split: prod.split)

lemma insert_labels_entries:
  assumes wf: "trie_wf ns"
  shows "trie_entries (insert_labels ns ls m) q = (if q = ls then Some m else trie_entries ns q)"
proof -
  obtain ns' c where d: "descend_insert ns 0 ls = (ns', c)" by force
  with descend_insert_spec [OF wf _ d, of "[]"]
  have wf': "trie_wf ns'" and e: "trie_entries ns' = trie_entries ns"
    and c: "node_at ns' 0 ls = Some c" "c < length ns'" by auto
  show ?thesis
  proof (cases "q = ls")
    case True
    with c d show ?thesis
      by (simp add: insert_labels_def trie_entries_def set_leaf_node_at)
  next
    case False
    then have "node_at ns' 0 q \<noteq> Some c" using node_at_inj [OF wf'] c(1) by blast
    with False d c e show ?thesis
      by (auto simp: insert_labels_def trie_entries_def set_leaf_node_at nth_list_update
               simp flip: e split: option.split)
  qed
qed

lemma descend_lookup_longest:
  "descend_lookup ns cur best k =
     (case longest_entry (\<lambda>p. if p = [] then None
        else case node_at ns cur p of None \<Rightarrow> None | Some i \<Rightarrow> ln_leaf (ns ! i)) k of
        Some v \<Rightarrow> Some v | None \<Rightarrow> best)"
proof (induction k arbitrary: cur best)
  case Nil
  show ?case by simp
next
  case (Cons l k)
  show ?case
  proof (cases "ln_children (ns ! cur) l")
    case None
    then show ?thesis by (simp add: longest_entry_None [THEN iffD2])
  next
    case (Some j)
    let ?f = "\<lambda>p. case node_at ns j p of None \<Rightarrow> None | Some i \<Rightarrow> ln_leaf (ns ! i)"
    have "longest_entry ?f k =
        (case longest_entry (\<lambda>p. if p = [] then None else ?f p) k of
           Some v \<Rightarrow> Some v | None \<Rightarrow> ln_leaf (ns ! j))"
      by (cases k) (auto split: option.split)
    with Some show ?thesis by (auto simp: Cons.IH split: option.split)
  qed
qed

lemma lookup_labels_longest: "lookup_labels ns k = longest_entry (trie_entries ns) k"
  unfolding lookup_labels_def trie_entries_def
  by (cases k) (auto simp: descend_lookup_longest split: option.split)

interpretation dom_ix: prefix_index domain_trie_new insert_labels lookup_labels trie_entries trie_wf
proof unfold_locales
  show "trie_wf domain_trie_new"
    by (simp add: trie_wf_def domain_trie_new_def label_node_new_def)
  show "trie_entries domain_trie_new p = None" for p
    by (cases p) (simp_all add: trie_entries_def domain_trie_new_def label_node_new_def)
qed (simp_all add: insert_labels_wf insert_labels_entries lookup_labels_longest)

section \<open>Suffixes\<close>

text \<open>A name is under a suffix when the suffix's labels are the last labels of the name.\<close>

definition under_suffix :: "string \<Rightarrow> string \<Rightarrow> bool" where
  "under_suffix sfx name \<longleftrightarrow> prefix (domain_labels sfx) (domain_labels name)"

lemma domain_labels_lower: "domain_labels (to_ascii_lowercase s) = domain_labels s"
  by (simp add: domain_labels_def)

end
