(* ===== verification/Common.thy ===== *)
theory Common
  imports Rust_Net
begin

text \<open>
  \<^verbatim>\<open>common.rs\<close>: the error taxonomy of the service with its stable numeric
  codes and its display text, and the URL mask used for logs and views.  The
  variants that wrap errors of external crates (\<^verbatim>\<open>Io\<close>, \<^verbatim>\<open>Json\<close>, \<^verbatim>\<open>Http\<close>, \<^verbatim>\<open>Db\<close>)
  carry the display text of the wrapped error.
\<close>

datatype svc_error =
    InvalidState string string
  | ConfigInvalid string
  | NotFound string
  | NodeNotFound string
  | Subscription string
  | Parse string
  | Core string
  | Tun string
  | Route string
  | Dns string
  | Proxy string
  | Timeout
  | Auth string
  | AlreadyRunning string
  | Io string
  | Json string
  | Http string
  | Db string
  | Other string

type_synonym 'a svc_result = "svc_error + 'a"

fun err_code :: "svc_error \<Rightarrow> int" where
  "err_code (InvalidState _ _) = 409"
| "err_code (ConfigInvalid _) = 422"
| "err_code (Parse _) = 422"
| "err_code (Json _) = 422"
| "err_code (NotFound _) = 404"
| "err_code (NodeNotFound _) = 404"
| "err_code (Auth _) = 401"
| "err_code Timeout = 504"
| "err_code (AlreadyRunning _) = 409"
| "err_code (Subscription _) = 600"
| "err_code (Core _) = 601"
| "err_code (Tun _) = 602"
| "err_code (Route _) = 603"
| "err_code (Dns _) = 604"
| "err_code (Proxy _) = 605"
| "err_code (Io _) = 500"
| "err_code (Http _) = 500"
| "err_code (Db _) = 500"
| "err_code (Other _) = 500"

fun err_display :: "svc_error \<Rightarrow> string" where
  "err_display (InvalidState a b) = ''invalid state transition: '' @ a @ '' -> '' @ b"
| "err_display (ConfigInvalid m) = ''config invalid: '' @ m"
| "err_display (NotFound m) = ''not found: '' @ m"
| "err_display (NodeNotFound m) = ''node not found: '' @ m"
| "err_display (Subscription m) = ''subscription error: '' @ m"
| "err_display (Parse m) = ''parse error: '' @ m"
| "err_display (Core m) = ''core error: '' @ m"
| "err_display (Tun m) = ''tun error: '' @ m"
| "err_display (Route m) = ''route error: '' @ m"
| "err_display (Dns m) = ''dns failed: '' @ m"
| "err_display (Proxy m) = ''proxy failed: '' @ m"
| "err_display Timeout = ''network timeout''"
| "err_display (Auth m) = ''authentication failed: '' @ m"
| "err_display (AlreadyRunning m) = ''already running: '' @ m"
| "err_display (Io m) = ''io: '' @ m"
| "err_display (Json m) = ''json: '' @ m"
| "err_display (Http m) = ''http: '' @ m"
| "err_display (Db m) = ''db: '' @ m"
| "err_display (Other m) = m"

definition err_code_str :: "svc_error \<Rightarrow> string" where
  "err_code_str e = nat_str (nat (err_code e))"

definition mask_url :: "string \<Rightarrow> string" where
  "mask_url raw =
     (case find_str ''://'' raw of
        Some idx \<Rightarrow>
          (let rest = drop (idx + 3) raw
           in case find_str ''/'' rest of
                Some slash \<Rightarrow> take idx raw @ ''://'' @ take slash rest @ ''/****''
              | None \<Rightarrow> take idx raw @ ''://'' @ rest @ ''/****'')
      | None \<Rightarrow> ''****'')"

lemma err_code_pos: "0 < err_code e"
  by (cases e) simp_all

lemma find_str_single: "c \<notin> set a \<Longrightarrow> find_str [c] (a @ c # b) = Some (length a)"
  by (induction a) auto

lemma find_str_absent: "c \<notin> set a \<Longrightarrow> find_str [c] a = None"
  by (induction a) auto

lemma find_str_sep:
  "CHR '':'' \<notin> set a \<Longrightarrow> find_str ''://'' (a @ ''://'' @ b) = Some (length a)"
proof (induction a)
  case Nil
  then show ?case by (cases b) simp_all
next
  case (Cons x a)
  then show ?case by simp
qed

lemma mask_url_eq:
  assumes "CHR '':'' \<notin> set scheme" and "CHR ''/'' \<notin> set host"
  shows "mask_url (scheme @ ''://'' @ host @ ''/'' @ path) = scheme @ ''://'' @ host @ ''/****''"
proof -
  have "drop (length scheme + 3) (scheme @ ''://'' @ host @ ''/'' @ path) = host @ CHR ''/'' # path"
    by simp
  moreover have "find_str ''/'' (host @ CHR ''/'' # path) = Some (length host)"
    using assms(2) by (rule find_str_single)
  ultimately show ?thesis
    using find_str_sep [OF assms(1), of "host @ ''/'' @ path"] by (simp add: mask_url_def Let_def)
qed

lemma mask_url_no_slash:
  assumes "CHR '':'' \<notin> set scheme" and "CHR ''/'' \<notin> set rest"
  shows "mask_url (scheme @ ''://'' @ rest) = scheme @ ''://'' @ rest @ ''/****''"
  using find_str_sep [OF assms(1), of rest] find_str_absent [OF assms(2)]
  by (simp add: mask_url_def Let_def)

end
