(* ===== verification/Rule.thy ===== *)
theory Rule
  imports Common
begin

text \<open>
  \<^verbatim>\<open>routing/rule.rs\<close>: actions, rule kinds with the fixed priority ladder, rules,
  flows and decisions.  A priority is an \<^verbatim>\<open>i32\<close> that is only compared, never
  computed with, so it is an \<open>int\<close>.
\<close>

datatype action = Direct | ProxyAct | Block

definition parse_action :: "string \<Rightarrow> action option" where
  "parse_action s =
     (let u = to_ascii_uppercase s
      in if u = ''DIRECT'' then Some Direct
         else if u = ''PROXY'' then Some ProxyAct
         else if u = ''BLOCK'' then Some Block
         else None)"

datatype rule_kind =
  Domain | DomainSuffix | DomainKeyword | DomainRegex | IpCidr | Port | Process | Protocol | Geoip

definition parse_kind :: "string \<Rightarrow> rule_kind option" where
  "parse_kind s =
     (if s = ''domain'' then Some Domain
      else if s = ''domain_suffix'' then Some DomainSuffix
      else if s = ''domain_keyword'' then Some DomainKeyword
      else if s = ''domain_regex'' then Some DomainRegex
      else if s = ''ip_cidr'' then Some IpCidr
      else if s = ''port'' then Some Port
      else if s = ''process'' then Some Process
      else if s = ''protocol'' then Some Protocol
      else if s = ''geoip'' then Some Geoip
      else None)"

fun default_priority :: "rule_kind \<Rightarrow> int" where
  "default_priority Process = 900"
| "default_priority Domain = 800"
| "default_priority DomainSuffix = 800"
| "default_priority DomainKeyword = 800"
| "default_priority DomainRegex = 800"
| "default_priority IpCidr = 700"
| "default_priority Port = 700"
| "default_priority Protocol = 700"
| "default_priority Geoip = 600"

record rule =
  r_id :: string
  r_kind :: rule_kind
  r_value :: string
  r_action :: action
  r_enabled :: bool
  r_priority :: int

definition effective_priority :: "rule \<Rightarrow> int" where
  "effective_priority r = (if 0 < r_priority r then r_priority r else default_priority (r_kind r))"

definition as_user :: "rule \<Rightarrow> rule" where
  "as_user r = r\<lparr>r_priority := 1000\<rparr>"

record flow =
  f_protocol :: string
  f_src_ip :: "ip_addr option"
  f_src_port :: u16
  f_dst_ip :: "ip_addr option"
  f_dst_port :: u16
  f_domain :: "string option"
  f_process_id :: u32
  f_process_name :: "string option"

definition flow_default :: flow where
  "flow_default = \<lparr>f_protocol = [], f_src_ip = None, f_src_port = 0, f_dst_ip = None,
     f_dst_port = 0, f_domain = None, f_process_id = 0, f_process_name = None\<rparr>"

record decision =
  d_action :: action
  d_rule_id :: "string option"
  d_reason :: string

definition decision_direct :: "string \<Rightarrow> decision" where
  "decision_direct reason = \<lparr>d_action = Direct, d_rule_id = None, d_reason = reason\<rparr>"

definition decision_proxy :: "string \<Rightarrow> decision" where
  "decision_proxy reason = \<lparr>d_action = ProxyAct, d_rule_id = None, d_reason = reason\<rparr>"

lemma effective_priority_pos: "0 < effective_priority r"
  by (cases "r_kind r") (simp_all add: effective_priority_def)

lemma effective_priority_as_user [simp]: "effective_priority (as_user r) = 1000"
  by (simp add: effective_priority_def as_user_def)

end
