(* ===== verification/Rule_Index.thy ===== *)
theory Rule_Index
  imports Bit_Trie Domain_Trie Rule
begin

text \<open>
  \<^verbatim>\<open>M\<close>, \<^verbatim>\<open>IpIndex\<close> and \<^verbatim>\<open>RuleIndex\<close> of \<^verbatim>\<open>routing/matcher.rs\<close>: the compiled
  form of a rule list, built in one pass over the enabled rules, and the matchers the
  engine asks.  Regular expressions belong to an external crate; its two operations,
  compilation and matching, are the record \<open>regex_crate\<close> that the functions take.
\<close>

record rule_match =
  m_rule_id :: string
  m_action :: action
  m_priority :: int

definition from_rule :: "rule \<Rightarrow> rule_match" where
  "from_rule r = \<lparr>m_rule_id = r_id r, m_action = r_action r, m_priority = effective_priority r\<rparr>"

section \<open>CIDR index\<close>

record ip_index =
  ipx_v4 :: "rule_match bit_node"
  ipx_v6 :: "rule_match bit_node"

definition ip_index_new :: ip_index where
  "ip_index_new = \<lparr>ipx_v4 = bit_node_new, ipx_v6 = bit_node_new\<rparr>"

definition insert_cidr :: "ip_index \<Rightarrow> string \<Rightarrow> rule_match \<Rightarrow> svc_error + ip_index" where
  "insert_cidr ix cidr m =
     (case (case split_once (CHR ''/'') cidr of
              Some (ip, p) \<Rightarrow>
                (case parse_usize p of
                   None \<Rightarrow> Inl (ConfigInvalid (''bad prefix: '' @ cidr))
                 | Some n \<Rightarrow> Inr (ip, n))
            | None \<Rightarrow> Inr (cidr, 2 ^ 32 - 1)) of
        Inl e \<Rightarrow> Inl e
      | Inr (ip_part, pfx) \<Rightarrow>
          (case parse_ip (trim ip_part) of
             Some (V4 ip) \<Rightarrow>
               if 32 < pfx then Inl (ConfigInvalid (''bad v4 prefix: '' @ cidr))
               else Inr (ix\<lparr>ipx_v4 := bit_trie_insert (ipx_v4 ix) (ipv4_bits ip) pfx m\<rparr>)
           | Some (V6 ip) \<Rightarrow>
               if 128 < pfx then Inl (ConfigInvalid (''bad v6 prefix: '' @ cidr))
               else Inr (ix\<lparr>ipx_v6 := bit_trie_insert (ipx_v6 ix) (ipv6_bits ip) pfx m\<rparr>)
           | None \<Rightarrow> Inl (ConfigInvalid (''bad cidr: '' @ cidr))))"

definition ip_lookup :: "ip_index \<Rightarrow> ip_addr \<Rightarrow> rule_match option" where
  "ip_lookup ix ip =
     (case ip of
        V4 a \<Rightarrow> bit_trie_lookup (ipx_v4 ix) (ipv4_bits a)
      | V6 a \<Rightarrow> bit_trie_lookup (ipx_v6 ix) (ipv6_bits a))"

section \<open>Composite index\<close>

record 'r regex_crate =
  rx_new :: "string \<Rightarrow> string + 'r"
  rx_is_match :: "'r \<Rightarrow> string \<Rightarrow> bool"

record 'r rule_index =
  ix_suffix :: "rule_match domain_trie"
  ix_exact :: "string \<Rightarrow> rule_match option"
  ix_keyword :: "(string \<times> rule_match) list"
  ix_regex :: "('r \<times> rule_match) list"
  ix_cidr :: ip_index
  ix_process :: "string \<Rightarrow> rule_match option"
  ix_port_exact :: "u16 \<Rightarrow> rule_match option"
  ix_port_range :: "(u16 \<times> u16 \<times> rule_match) list"
  ix_protocol :: "string \<Rightarrow> rule_match option"
  ix_geoip :: "string \<Rightarrow> rule_match option"

definition rule_index_new :: "'r rule_index" where
  "rule_index_new =
     \<lparr>ix_suffix = domain_trie_new, ix_exact = Map.empty, ix_keyword = [], ix_regex = [],
      ix_cidr = ip_index_new, ix_process = Map.empty, ix_port_exact = Map.empty,
      ix_port_range = [], ix_protocol = Map.empty, ix_geoip = Map.empty\<rparr>"

definition bad_port :: "rule \<Rightarrow> svc_error" where
  "bad_port r = ConfigInvalid (''bad port rule '' @ r_id r)"

definition index_rule :: "'r regex_crate \<Rightarrow> 'r rule_index \<Rightarrow> rule \<Rightarrow> svc_error + 'r rule_index" where
  "index_rule rx ix r =
     (let m = from_rule r; v = trim (r_value r)
      in case r_kind r of
           Domain \<Rightarrow> Inr (ix\<lparr>ix_exact := (ix_exact ix)(to_ascii_lowercase v \<mapsto> m)\<rparr>)
         | DomainSuffix \<Rightarrow> Inr (ix\<lparr>ix_suffix := domain_trie_insert (ix_suffix ix) v m\<rparr>)
         | DomainKeyword \<Rightarrow> Inr (ix\<lparr>ix_keyword := ix_keyword ix @ [(to_ascii_lowercase v, m)]\<rparr>)
         | DomainRegex \<Rightarrow>
             (case rx_new rx v of
                Inl e \<Rightarrow> Inl (ConfigInvalid (''rule '' @ r_id r @ '': '' @ e))
              | Inr re \<Rightarrow> Inr (ix\<lparr>ix_regex := ix_regex ix @ [(re, m)]\<rparr>))
         | IpCidr \<Rightarrow>
             (case insert_cidr (ix_cidr ix) v m of
                Inl e \<Rightarrow> Inl e
              | Inr c \<Rightarrow> Inr (ix\<lparr>ix_cidr := c\<rparr>))
         | Port \<Rightarrow>
             (case split_once (CHR ''-'') v of
                Some (a, b) \<Rightarrow>
                  (case parse_u16 (trim a) of
                     None \<Rightarrow> Inl (bad_port r)
                   | Some lo \<Rightarrow>
                       (case parse_u16 (trim b) of
                          None \<Rightarrow> Inl (bad_port r)
                        | Some hi \<Rightarrow> Inr (ix\<lparr>ix_port_range := ix_port_range ix @ [(lo, hi, m)]\<rparr>)))
              | None \<Rightarrow>
                  (case parse_u16 v of
                     None \<Rightarrow> Inl (bad_port r)
                   | Some p \<Rightarrow> Inr (ix\<lparr>ix_port_exact := (ix_port_exact ix)(p \<mapsto> m)\<rparr>)))
         | Process \<Rightarrow> Inr (ix\<lparr>ix_process := (ix_process ix)(to_ascii_lowercase v \<mapsto> m)\<rparr>)
         | Protocol \<Rightarrow> Inr (ix\<lparr>ix_protocol := (ix_protocol ix)(to_ascii_lowercase v \<mapsto> m)\<rparr>)
         | Geoip \<Rightarrow> Inr (ix\<lparr>ix_geoip := (ix_geoip ix)(to_ascii_uppercase v \<mapsto> m)\<rparr>))"

definition build_index :: "'r regex_crate \<Rightarrow> rule list \<Rightarrow> svc_error + 'r rule_index" where
  "build_index rx rules = fold_result (index_rule rx) rule_index_new (filter r_enabled rules)"

fun better :: "rule_match option \<Rightarrow> rule_match \<Rightarrow> rule_match option" where
  "better (Some cur) c = (if m_priority c \<le> m_priority cur then Some cur else Some c)"
| "better None c = Some c"

definition match_domain :: "'r regex_crate \<Rightarrow> 'r rule_index \<Rightarrow> string \<Rightarrow> rule_match option" where
  "match_domain rx ix name =
     (let lower = to_ascii_lowercase name;
          best = None;
          best = (case ix_exact ix lower of Some m \<Rightarrow> better best m | None \<Rightarrow> best);
          best = (case domain_trie_lookup (ix_suffix ix) name of Some m \<Rightarrow> better best m | None \<Rightarrow> best);
          best = foldl (\<lambda>b (kw, m). if str_contains lower kw then better b m else b) best (ix_keyword ix);
          best = foldl (\<lambda>b (re, m). if rx_is_match rx re name then better b m else b) best (ix_regex ix)
      in best)"

definition match_ip :: "'r rule_index \<Rightarrow> ip_addr \<Rightarrow> rule_match option" where
  "match_ip ix ip = ip_lookup (ix_cidr ix) ip"

definition process_key :: "string \<Rightarrow> string" where
  "process_key exe = last (split_on (CHR ''/'') (last (split_on (char_of (92 :: nat)) (to_ascii_lowercase exe))))"

definition match_process :: "'r rule_index \<Rightarrow> string \<Rightarrow> rule_match option" where
  "match_process ix exe = ix_process ix (process_key exe)"

definition match_protocol :: "'r rule_index \<Rightarrow> string \<Rightarrow> rule_match option" where
  "match_protocol ix proto = ix_protocol ix (to_ascii_lowercase proto)"

definition match_port :: "'r rule_index \<Rightarrow> u16 \<Rightarrow> rule_match option" where
  "match_port ix port =
     (case ix_port_exact ix port of
        Some m \<Rightarrow> Some m
      | None \<Rightarrow> map_option (\<lambda>(_, _, m). m)
                  (find (\<lambda>(a, b, _). a \<le> port \<and> port \<le> b) (ix_port_range ix)))"

definition match_geoip :: "'r rule_index \<Rightarrow> string \<Rightarrow> rule_match option" where
  "match_geoip ix country = ix_geoip ix (to_ascii_uppercase country)"

interpretation rule_pref: preference m_priority better
  by unfold_locales simp_all

section \<open>What a successful build holds\<close>

text \<open>The CIDR of a rule as a network, and the trie entries of a rule list in rule order.\<close>

definition cidr_of :: "string \<Rightarrow> (ip_addr \<times> nat) option" where
  "cidr_of cidr =
     (case split_once (CHR ''/'') cidr of
        None \<Rightarrow> None
      | Some (ip, p) \<Rightarrow>
          (case (parse_ip (trim ip), parse_usize p) of
             (Some (V4 a), Some n) \<Rightarrow> if n \<le> 32 then Some (V4 a, n) else None
           | (Some (V6 a), Some n) \<Rightarrow> if n \<le> 128 then Some (V6 a, n) else None
           | _ \<Rightarrow> None))"

fun ip_in_network :: "ip_addr \<times> nat \<Rightarrow> ip_addr \<Rightarrow> bool" where
  "ip_in_network (V4 net, p) (V4 a) = in_network 32 p net a"
| "ip_in_network (V6 net, p) (V6 a) = in_network 128 p net a"
| "ip_in_network (_, p) _ = False"

definition v4_entry :: "rule \<Rightarrow> (bool list \<times> rule_match) list" where
  "v4_entry r = (case cidr_of (trim (r_value r)) of
     Some (V4 a, p) \<Rightarrow> [(take p (ipv4_bits a), from_rule r)] | _ \<Rightarrow> [])"

definition v4_entries :: "rule list \<Rightarrow> (bool list \<times> rule_match) list" where
  "v4_entries rs = concat (map v4_entry rs)"

definition v6_entry :: "rule \<Rightarrow> (bool list \<times> rule_match) list" where
  "v6_entry r = (case cidr_of (trim (r_value r)) of
     Some (V6 a, p) \<Rightarrow> [(take p (ipv6_bits a), from_rule r)] | _ \<Rightarrow> [])"

definition v6_entries :: "rule list \<Rightarrow> (bool list \<times> rule_match) list" where
  "v6_entries rs = concat (map v6_entry rs)"

definition enabled_of :: "rule_kind \<Rightarrow> rule list \<Rightarrow> rule list" where
  "enabled_of k rs = filter (\<lambda>r. r_enabled r \<and> r_kind r = k) rs"

lemma insert_cidr_ok:
  "insert_cidr ix cidr m = Inr ix' \<longleftrightarrow>
     (\<exists>a p. cidr_of cidr = Some (V4 a, p) \<and>
            ix' = ix\<lparr>ipx_v4 := bit_trie_insert (ipx_v4 ix) (ipv4_bits a) p m\<rparr>)
   \<or> (\<exists>a p. cidr_of cidr = Some (V6 a, p) \<and>
            ix' = ix\<lparr>ipx_v6 := bit_trie_insert (ipx_v6 ix) (ipv6_bits a) p m\<rparr>)"
  by (auto simp: insert_cidr_def cidr_of_def split: option.splits ip_addr.splits if_splits)

lemma insert_cidr_is_ok: "is_ok (insert_cidr ix cidr m) \<longleftrightarrow> cidr_of cidr \<noteq> None"
  by (auto simp: is_ok_iff insert_cidr_ok cidr_of_def split: option.splits ip_addr.splits if_splits)

lemma insert_cidr_no_slash: "CHR ''/'' \<notin> set cidr \<Longrightarrow> \<not> is_ok (insert_cidr ix cidr m)"
  by (simp add: insert_cidr_def is_ok_def split_once_None [THEN iffD2]
      split: option.split ip_addr.split)

text \<open>
  The maps, lists and tries that a pass of \<^verbatim>\<open>index_rule\<close> over \<open>rs\<close> adds to.
\<close>

lemma index_rules_maps:
  assumes "fold_result (index_rule rx) ix rs = Inr ix'"
  shows "ix_exact ix' = foldl (\<lambda>m r. m(to_ascii_lowercase (trim (r_value r)) \<mapsto> from_rule r))
           (ix_exact ix) (filter (\<lambda>r. r_kind r = Domain) rs)"
    and "ix_process ix' = foldl (\<lambda>m r. m(to_ascii_lowercase (trim (r_value r)) \<mapsto> from_rule r))
           (ix_process ix) (filter (\<lambda>r. r_kind r = Process) rs)"
    and "ix_protocol ix' = foldl (\<lambda>m r. m(to_ascii_lowercase (trim (r_value r)) \<mapsto> from_rule r))
           (ix_protocol ix) (filter (\<lambda>r. r_kind r = Protocol) rs)"
    and "ix_geoip ix' = foldl (\<lambda>m r. m(to_ascii_uppercase (trim (r_value r)) \<mapsto> from_rule r))
           (ix_geoip ix) (filter (\<lambda>r. r_kind r = Geoip) rs)"
  using assms
  by (induction rs arbitrary: ix)
    (auto simp: index_rule_def Let_def split: sum.splits option.splits rule_kind.splits)

lemma index_rules_keyword:
  "fold_result (index_rule rx) ix rs = Inr ix' \<Longrightarrow>
   ix_keyword ix' = ix_keyword ix
     @ map (\<lambda>r. (to_ascii_lowercase (trim (r_value r)), from_rule r)) (filter (\<lambda>r. r_kind r = DomainKeyword) rs)"
  by (induction rs arbitrary: ix)
    (auto simp: index_rule_def Let_def split: sum.splits option.splits rule_kind.splits)

lemma index_rules_regex:
  "fold_result (index_rule rx) ix rs = Inr ix' \<Longrightarrow>
   ix_regex ix' = ix_regex ix
     @ map (\<lambda>r. (projr (rx_new rx (trim (r_value r))), from_rule r)) (filter (\<lambda>r. r_kind r = DomainRegex) rs)"
  by (induction rs arbitrary: ix)
    (auto simp: index_rule_def Let_def split: sum.splits option.splits rule_kind.splits)

lemma index_rules_suffix:
  "fold_result (index_rule rx) ix rs = Inr ix' \<Longrightarrow>
   ix_suffix ix' = foldl (\<lambda>t (p, v). insert_labels t p v) (ix_suffix ix)
     (map (\<lambda>r. (domain_labels (trim (r_value r)), from_rule r)) (filter (\<lambda>r. r_kind r = DomainSuffix) rs))"
  by (induction rs arbitrary: ix)
    (auto simp: index_rule_def Let_def domain_trie_insert_def
      split: sum.splits option.splits rule_kind.splits)

lemma index_rules_cidr:
  "fold_result (index_rule rx) ix rs = Inr ix' \<Longrightarrow>
   ipx_v4 (ix_cidr ix') = foldl (\<lambda>t (p, v). bit_insert_path t p v) (ipx_v4 (ix_cidr ix))
     (v4_entries (filter (\<lambda>r. r_kind r = IpCidr) rs))
   \<and> ipx_v6 (ix_cidr ix') = foldl (\<lambda>t (p, v). bit_insert_path t p v) (ipx_v6 (ix_cidr ix))
     (v6_entries (filter (\<lambda>r. r_kind r = IpCidr) rs))"
proof (induction rs arbitrary: ix)
  case Nil
  then show ?case by (simp add: v4_entries_def v6_entries_def)
next
  case (Cons r rs)
  then obtain ix1 where one: "index_rule rx ix r = Inr ix1"
    and rest: "fold_result (index_rule rx) ix1 rs = Inr ix'" by (auto split: sum.splits)
  show ?case
  proof (cases "r_kind r = IpCidr")
    case False
    with one have "ix_cidr ix1 = ix_cidr ix"
      by (auto simp: index_rule_def Let_def split: sum.splits option.splits rule_kind.splits)
    with False Cons.IH [OF rest] show ?thesis by simp
  next
    case True
    with one obtain c where "insert_cidr (ix_cidr ix) (trim (r_value r)) (from_rule r) = Inr c"
      and "ix1 = ix\<lparr>ix_cidr := c\<rparr>"
      by (auto simp: index_rule_def Let_def split: sum.splits)
    with True Cons.IH [OF rest] show ?thesis
      by (auto simp: insert_cidr_ok v4_entries_def v6_entries_def v4_entry_def v6_entry_def bit_trie_insert_def)
  qed
qed

lemma build_index_fold:
  "build_index rx rs = Inr ix \<Longrightarrow> fold_result (index_rule rx) rule_index_new (filter r_enabled rs) = Inr ix"
  by (simp add: build_index_def)

end
