(* ===== verification/Rule_Matching.thy ===== *)
theory Rule_Matching
  imports Rule_Index
begin

text \<open>
  What the matchers of a successfully built rule index answer, stated over the rule list
  it was built from.
\<close>

section \<open>Keyed matchers\<close>

definition last_rule :: "rule_kind \<Rightarrow> (rule \<Rightarrow> bool) \<Rightarrow> rule list \<Rightarrow> rule_match option" where
  "last_rule k P rs =
     (if filter P (enabled_of k rs) = [] then None else Some (from_rule (last (filter P (enabled_of k rs)))))"

lemma enabled_of_filter: "filter (\<lambda>r. r_kind r = k) (filter r_enabled rs) = enabled_of k rs"
  by (simp add: enabled_of_def conj_commute)

lemmas built_maps = index_rules_maps [OF build_index_fold, unfolded enabled_of_filter]
lemmas built_keyword = index_rules_keyword [OF build_index_fold, unfolded enabled_of_filter]
lemmas built_regex = index_rules_regex [OF build_index_fold, unfolded enabled_of_filter]
lemmas built_suffix = index_rules_suffix [OF build_index_fold, unfolded enabled_of_filter]
lemmas built_cidr = index_rules_cidr [OF build_index_fold, unfolded enabled_of_filter]

lemma last_rule_lookup:
  "foldl (\<lambda>m r. m(f r \<mapsto> from_rule r)) Map.empty (enabled_of k rs) x = last_rule k (\<lambda>r. f r = x) rs"
  by (simp add: insert_all_lookup last_rule_def)

lemma last_rule_None: "last_rule k P rs = None \<longleftrightarrow> (\<forall>r \<in> set rs. r_enabled r \<longrightarrow> r_kind r = k \<longrightarrow> \<not> P r)"
  by (auto simp: last_rule_def enabled_of_def filter_empty_conv)

lemma last_rule_SomeD:
  assumes "last_rule k P rs = Some m"
  shows "\<exists>r \<in> set rs. r_enabled r \<and> r_kind r = k \<and> P r \<and> m = from_rule r"
proof -
  from assms have "filter P (enabled_of k rs) \<noteq> []" and m: "m = from_rule (last (filter P (enabled_of k rs)))"
    by (auto simp: last_rule_def split: if_splits)
  from last_in_set [OF this(1)] have "last (filter P (enabled_of k rs)) \<in> set (filter P (enabled_of k rs))" .
  with m show ?thesis by (auto simp: enabled_of_def)
qed

lemma process_key_path:
  assumes "CHR ''/'' \<notin> set name" "char_of (92 :: nat) \<notin> set name"
    and "sep = CHR ''/'' \<or> sep = char_of (92 :: nat)"
  shows "process_key (dir @ sep # name) = to_ascii_lowercase name" and "process_key name = to_ascii_lowercase name"
proof -
  have low: "ascii_lower_char c = d \<Longrightarrow> d \<in> {CHR ''/'', char_of (92 :: nat)} \<Longrightarrow> c = d" for c d
  proof -
    assume h: "ascii_lower_char c = d" "d \<in> {CHR ''/'', char_of (92 :: nat)}"
    have "\<not> (65 \<le> (of_char c :: nat) \<and> (of_char c :: nat) \<le> 90)"
    proof
      assume r: "65 \<le> (of_char c :: nat) \<and> (of_char c :: nat) \<le> 90"
      then have d: "d = char_of ((of_char c :: nat) + 32)" using h(1) by (simp add: ascii_lower_char_def Let_def)
      have "(of_char d :: nat) = of_char c + 32" using r unfolding d by (simp add: take_bit_nat_eq_self)
      moreover have "(of_char d :: nat) \<in> {47, 92}" using h(2) by auto
      ultimately show False using r by auto
    qed
    then show "c = d" using h(1) by (auto simp: ascii_lower_char_def Let_def split: if_splits)
  qed
  have low': "d \<notin> set (to_ascii_lowercase name)"
    if "d \<notin> set name" "d \<in> {CHR ''/'', char_of (92 :: nat)}" for d
  proof
    assume "d \<in> set (to_ascii_lowercase name)"
    then obtain c where "c \<in> set name" "ascii_lower_char c = d" by (auto simp: to_ascii_lowercase_def)
    with low [OF this(2) that(2)] that(1) show False by simp
  qed
  have no: "CHR ''/'' \<notin> set (to_ascii_lowercase name)" "char_of (92 :: nat) \<notin> set (to_ascii_lowercase name)"
    using low' assms(1,2) by blast+
  have sep: "to_ascii_lowercase (dir @ sep # name) = to_ascii_lowercase dir @ sep # to_ascii_lowercase name"
    using assms(3) by (auto simp: to_ascii_lowercase_def ascii_lower_char_def)
  show "process_key name = to_ascii_lowercase name"
    using no by (simp add: process_key_def split_on_id)
  show "process_key (dir @ sep # name) = to_ascii_lowercase name"
  proof (cases "sep = char_of (92 :: nat)")
    case True
    with no show ?thesis
      unfolding process_key_def sep by (simp add: last_split_on_append split_on_id)
  next
    case False
    then have s: "sep = CHR ''/''" using assms(3) by simp
    have ne: "CHR ''/'' \<noteq> char_of (92 :: nat)" by code_simp
    have "\<exists>d. last (split_on (char_of (92 :: nat)) (to_ascii_lowercase dir @ CHR ''/'' # to_ascii_lowercase name))
            = d @ CHR ''/'' # to_ascii_lowercase name"
      using no(2) ne by (simp add: last_split_on takeWhile_append)
    with no(1) s show ?thesis
      unfolding process_key_def sep by (auto simp: last_split_on_append)
  qed
qed

section \<open>Domains\<close>

definition domain_rule_hits :: "'r regex_crate \<Rightarrow> string \<Rightarrow> rule \<Rightarrow> bool" where
  "domain_rule_hits rx name r \<longleftrightarrow>
     (case r_kind r of
        Domain \<Rightarrow> to_ascii_lowercase (trim (r_value r)) = to_ascii_lowercase name
      | DomainSuffix \<Rightarrow> under_suffix (trim (r_value r)) name
      | DomainKeyword \<Rightarrow> str_contains (to_ascii_lowercase name) (to_ascii_lowercase (trim (r_value r)))
      | DomainRegex \<Rightarrow> rx_is_match rx (projr (rx_new rx (trim (r_value r)))) name
      | _ \<Rightarrow> False)"

definition longest_suffix_rule :: "string \<Rightarrow> rule list \<Rightarrow> rule_match option" where
  "longest_suffix_rule name rs =
     linear_lpm (map (\<lambda>r. (domain_labels (trim (r_value r)), from_rule r)) (enabled_of DomainSuffix rs))
       (domain_labels name)"

text \<open>What competes for a name: one exact rule, one suffix rule, every keyword and regex rule.\<close>

definition domain_candidates :: "'r regex_crate \<Rightarrow> rule list \<Rightarrow> string \<Rightarrow> rule_match list" where
  "domain_candidates rx rs name =
     (case last_rule Domain (domain_rule_hits rx name) rs of None \<Rightarrow> [] | Some m \<Rightarrow> [m])
     @ (case longest_suffix_rule name rs of None \<Rightarrow> [] | Some m \<Rightarrow> [m])
     @ map from_rule (filter (domain_rule_hits rx name) (enabled_of DomainKeyword rs))
     @ map from_rule (filter (domain_rule_hits rx name) (enabled_of DomainRegex rs))"

lemma foldl_if_filter:
  "foldl (\<lambda>b r. if P r then f b (g r) else b) b0 rs = foldl f b0 (map g (filter P rs))"
  by (induction rs arbitrary: b0) auto

lemma filter_enabled_cong:
  "(\<And>r. r_kind r = k \<Longrightarrow> P r = Q r) \<Longrightarrow> filter P (enabled_of k rs) = filter Q (enabled_of k rs)"
  by (rule filter_cong) (auto simp: enabled_of_def)

lemma match_domain_scan:
  assumes "build_index rx rs = Inr ix"
  shows "match_domain rx ix name = foldl better None (domain_candidates rx rs name)"
proof -
  let ?low = "to_ascii_lowercase name" and ?v = "\<lambda>r. trim (r_value r)"
  have exact: "ix_exact ix ?low = last_rule Domain (domain_rule_hits rx name) rs"
  proof -
    have "ix_exact ix ?low = last_rule Domain (\<lambda>r. to_ascii_lowercase (?v r) = ?low) rs"
      using built_maps(1) [OF assms] by (simp add: rule_index_new_def last_rule_lookup)
    also have "\<dots> = last_rule Domain (domain_rule_hits rx name) rs"
      using filter_enabled_cong [of Domain "\<lambda>r. to_ascii_lowercase (?v r) = ?low" "domain_rule_hits rx name" rs]
      by (simp add: last_rule_def domain_rule_hits_def)
    finally show ?thesis .
  qed
  have sfx: "domain_trie_lookup (ix_suffix ix) name = longest_suffix_rule name rs"
    using built_suffix [OF assms]
    by (simp add: domain_trie_lookup_def longest_suffix_rule_def rule_index_new_def
        dom_ix.build_lookup)
  have kw: "foldl (\<lambda>b (kw, m). if str_contains ?low kw then better b m else b) b0 (ix_keyword ix)
      = foldl better b0 (map from_rule (filter (domain_rule_hits rx name) (enabled_of DomainKeyword rs)))" for b0
  proof -
    have "filter (\<lambda>r. str_contains ?low (to_ascii_lowercase (?v r))) (enabled_of DomainKeyword rs)
        = filter (domain_rule_hits rx name) (enabled_of DomainKeyword rs)"
      by (rule filter_enabled_cong) (simp add: domain_rule_hits_def)
    then show ?thesis
      using built_keyword [OF assms] foldl_if_filter [where f = better and g = from_rule]
      by (simp add: rule_index_new_def foldl_map)
  qed
  have re: "foldl (\<lambda>b (re, m). if rx_is_match rx re name then better b m else b) b0 (ix_regex ix)
      = foldl better b0 (map from_rule (filter (domain_rule_hits rx name) (enabled_of DomainRegex rs)))" for b0
  proof -
    have "filter (\<lambda>r. rx_is_match rx (projr (rx_new rx (?v r))) name) (enabled_of DomainRegex rs)
        = filter (domain_rule_hits rx name) (enabled_of DomainRegex rs)"
      by (rule filter_enabled_cong) (simp add: domain_rule_hits_def)
    then show ?thesis
      using built_regex [OF assms] foldl_if_filter [where f = better and g = from_rule]
      by (simp add: rule_index_new_def foldl_map)
  qed
  show ?thesis
    by (simp add: match_domain_def Let_def exact sfx kw re domain_candidates_def split: option.split)
qed

lemma longest_suffix_rule_None:
  "longest_suffix_rule name rs = None \<longleftrightarrow>
     (\<forall>r \<in> set rs. r_enabled r \<longrightarrow> r_kind r = DomainSuffix \<longrightarrow> \<not> under_suffix (trim (r_value r)) name)"
  by (auto simp: longest_suffix_rule_def linear_lpm_None enabled_of_def under_suffix_def)

lemma longest_suffix_rule_SomeD:
  "longest_suffix_rule name rs = Some m \<Longrightarrow>
     \<exists>r \<in> set rs. r_enabled r \<and> r_kind r = DomainSuffix \<and> under_suffix (trim (r_value r)) name \<and> m = from_rule r"
  by (auto simp: longest_suffix_rule_def enabled_of_def under_suffix_def dest!: linear_lpm_SomeD)

lemma domain_candidates_sound:
  "m \<in> set (domain_candidates rx rs name) \<Longrightarrow>
     \<exists>r \<in> set rs. r_enabled r \<and> domain_rule_hits rx name r \<and> m = from_rule r"
  by (auto simp: domain_candidates_def domain_rule_hits_def enabled_of_def
      dest!: last_rule_SomeD [OF sym] longest_suffix_rule_SomeD [OF sym] split: option.splits)

lemma domain_candidates_empty:
  "domain_candidates rx rs name = [] \<longleftrightarrow> (\<forall>r \<in> set rs. r_enabled r \<longrightarrow> \<not> domain_rule_hits rx name r)"
proof
  assume *: "domain_candidates rx rs name = []"
  show "\<forall>r \<in> set rs. r_enabled r \<longrightarrow> \<not> domain_rule_hits rx name r"
  proof (intro ballI impI notI)
    fix r assume r: "r \<in> set rs" "r_enabled r" and hit: "domain_rule_hits rx name r"
    have "last_rule Domain (domain_rule_hits rx name) rs = None" "longest_suffix_rule name rs = None"
      "filter (domain_rule_hits rx name) (enabled_of DomainKeyword rs) = []"
      "filter (domain_rule_hits rx name) (enabled_of DomainRegex rs) = []"
      using * by (auto simp: domain_candidates_def split: option.splits)
    with r hit show False
      by (cases "r_kind r") (auto simp: last_rule_None longest_suffix_rule_None filter_empty_conv
          enabled_of_def domain_rule_hits_def)
  qed
next
  assume "\<forall>r \<in> set rs. r_enabled r \<longrightarrow> \<not> domain_rule_hits rx name r"
  then have "\<nexists>m. m \<in> set (domain_candidates rx rs name)" using domain_candidates_sound by blast
  then show "domain_candidates rx rs name = []" by (cases "domain_candidates rx rs name") auto
qed

section \<open>Networks\<close>

definition cidr_rule_hits :: "ip_addr \<Rightarrow> rule \<Rightarrow> bool" where
  "cidr_rule_hits ip r \<longleftrightarrow>
     (case cidr_of (trim (r_value r)) of None \<Rightarrow> False | Some n \<Rightarrow> ip_in_network n ip)"

definition cidr_rule_len :: "rule \<Rightarrow> nat" where
  "cidr_rule_len r = (case cidr_of (trim (r_value r)) of None \<Rightarrow> 0 | Some (_, p) \<Rightarrow> p)"

lemma cidr_of_range:
  "cidr_of s = Some (V4 a, p) \<Longrightarrow> p \<le> 32" "cidr_of s = Some (V6 b, p) \<Longrightarrow> p \<le> 128"
  by (auto simp: cidr_of_def split: option.splits ip_addr.splits if_splits)

lemma v4_entry_iff:
  "(path, m) \<in> set (v4_entry r) \<longleftrightarrow>
     (\<exists>a p. cidr_of (trim (r_value r)) = Some (V4 a, p) \<and> path = take p (ipv4_bits a) \<and> m = from_rule r)"
  by (auto simp: v4_entry_def dest: sym split: option.splits prod.splits ip_addr.splits)

lemma v4_entries_iff:
  "(path, m) \<in> set (v4_entries rs) \<longleftrightarrow>
     (\<exists>r \<in> set rs. \<exists>a p. cidr_of (trim (r_value r)) = Some (V4 a, p) \<and> path = take p (ipv4_bits a) \<and> m = from_rule r)"
  by (simp add: v4_entries_def v4_entry_iff)

lemma v6_entry_iff:
  "(path, m) \<in> set (v6_entry r) \<longleftrightarrow>
     (\<exists>a p. cidr_of (trim (r_value r)) = Some (V6 a, p) \<and> path = take p (ipv6_bits a) \<and> m = from_rule r)"
  by (auto simp: v6_entry_def dest: sym split: option.splits prod.splits ip_addr.splits)

lemma v6_entries_iff:
  "(path, m) \<in> set (v6_entries rs) \<longleftrightarrow>
     (\<exists>r \<in> set rs. \<exists>a p. cidr_of (trim (r_value r)) = Some (V6 a, p) \<and> path = take p (ipv6_bits a) \<and> m = from_rule r)"
  by (simp add: v6_entries_def v6_entry_iff)

text \<open>The entries that cover an address, whichever its family, are the rules that hit it.\<close>

definition covers :: "ip_addr \<Rightarrow> rule list \<Rightarrow> nat \<Rightarrow> rule_match \<Rightarrow> bool" where
  "covers ip rs p m \<longleftrightarrow> (\<exists>r \<in> set rs. cidr_rule_hits ip r \<and> cidr_rule_len r = p \<and> m = from_rule r)"

lemma covers_v4:
  "covers (V4 x) rs p m \<longleftrightarrow>
     (\<exists>path. (path, m) \<in> set (v4_entries rs) \<and> prefix path (ipv4_bits x) \<and> length path = p)"
proof
  assume "covers (V4 x) rs p m"
  then obtain r a where r: "r \<in> set rs" "cidr_of (trim (r_value r)) = Some (V4 a, p)"
    "in_network 32 p a x" "m = from_rule r"
    by (auto simp: covers_def cidr_rule_hits_def cidr_rule_len_def split: option.splits elim!: ip_in_network.elims)
  with prefix_ipv4_bits [OF cidr_of_range(1) [OF r(2)]] cidr_of_range(1) [OF r(2)]
  show "\<exists>path. (path, m) \<in> set (v4_entries rs) \<and> prefix path (ipv4_bits x) \<and> length path = p"
    by (intro exI [of _ "take p (ipv4_bits a)"]) (auto simp: v4_entries_iff)
next
  assume "\<exists>path. (path, m) \<in> set (v4_entries rs) \<and> prefix path (ipv4_bits x) \<and> length path = p"
  then obtain r a n where r: "r \<in> set rs" "cidr_of (trim (r_value r)) = Some (V4 a, n)" "m = from_rule r"
    and path: "prefix (take n (ipv4_bits a)) (ipv4_bits x)" "length (take n (ipv4_bits a)) = p"
    by (auto simp: v4_entries_iff)
  have n: "n \<le> 32" using cidr_of_range(1) [OF r(2)] .
  with path have "n = p" "in_network 32 n a x" using prefix_ipv4_bits by auto
  with r show "covers (V4 x) rs p m"
    unfolding covers_def cidr_rule_hits_def cidr_rule_len_def by (intro bexI [of _ r]) auto
qed

lemma covers_v6:
  "covers (V6 x) rs p m \<longleftrightarrow>
     (\<exists>path. (path, m) \<in> set (v6_entries rs) \<and> prefix path (ipv6_bits x) \<and> length path = p)"
proof
  assume "covers (V6 x) rs p m"
  then obtain r a where r: "r \<in> set rs" "cidr_of (trim (r_value r)) = Some (V6 a, p)"
    "in_network 128 p a x" "m = from_rule r"
    by (auto simp: covers_def cidr_rule_hits_def cidr_rule_len_def split: option.splits elim!: ip_in_network.elims)
  with prefix_ipv6_bits [OF cidr_of_range(2) [OF r(2)]] cidr_of_range(2) [OF r(2)]
  show "\<exists>path. (path, m) \<in> set (v6_entries rs) \<and> prefix path (ipv6_bits x) \<and> length path = p"
    by (intro exI [of _ "take p (ipv6_bits a)"]) (auto simp: v6_entries_iff)
next
  assume "\<exists>path. (path, m) \<in> set (v6_entries rs) \<and> prefix path (ipv6_bits x) \<and> length path = p"
  then obtain r a n where r: "r \<in> set rs" "cidr_of (trim (r_value r)) = Some (V6 a, n)" "m = from_rule r"
    and path: "prefix (take n (ipv6_bits a)) (ipv6_bits x)" "length (take n (ipv6_bits a)) = p"
    by (auto simp: v6_entries_iff)
  have n: "n \<le> 128" using cidr_of_range(2) [OF r(2)] .
  with path have "n = p" "in_network 128 n a x" using prefix_ipv6_bits by auto
  with r show "covers (V6 x) rs p m"
    unfolding covers_def cidr_rule_hits_def cidr_rule_len_def by (intro bexI [of _ r]) auto
qed

lemma match_ip_linear:
  assumes "build_index rx rs = Inr ix"
  shows "match_ip ix (V4 a) = linear_lpm (v4_entries (enabled_of IpCidr rs)) (ipv4_bits a)"
    and "match_ip ix (V6 b) = linear_lpm (v6_entries (enabled_of IpCidr rs)) (ipv6_bits b)"
  using built_cidr [OF assms]
  by (simp_all add: match_ip_def ip_lookup_def rule_index_new_def ip_index_new_def bit_ix.build_lookup)

lemma match_ip_covers:
  assumes "build_index rx rs = Inr ix"
  shows "match_ip ix ip = None \<longleftrightarrow> (\<forall>p m. \<not> covers ip (enabled_of IpCidr rs) p m)"
    and "match_ip ix ip = Some m \<Longrightarrow>
           \<exists>p. covers ip (enabled_of IpCidr rs) p m \<and> (\<forall>q m'. covers ip (enabled_of IpCidr rs) q m' \<longrightarrow> q \<le> p)"
proof -
  show "match_ip ix ip = None \<longleftrightarrow> (\<forall>p m. \<not> covers ip (enabled_of IpCidr rs) p m)"
    by (cases ip) (auto simp: match_ip_linear [OF assms] linear_lpm_None covers_v4 covers_v6)
  assume "match_ip ix ip = Some m"
  then show "\<exists>p. covers ip (enabled_of IpCidr rs) p m \<and> (\<forall>q m'. covers ip (enabled_of IpCidr rs) q m' \<longrightarrow> q \<le> p)"
    by (cases ip) (fastforce simp: match_ip_linear [OF assms] covers_v4 covers_v6 dest!: linear_lpm_SomeD)+
qed

section \<open>Ports\<close>

definition port_rule_hits :: "u16 \<Rightarrow> rule \<Rightarrow> bool" where
  "port_rule_hits p r \<longleftrightarrow>
     (case split_once (CHR ''-'') (trim (r_value r)) of
        None \<Rightarrow> parse_u16 (trim (r_value r)) = Some p
      | Some (a, b) \<Rightarrow>
          (case (parse_u16 (trim a), parse_u16 (trim b)) of
             (Some lo, Some hi) \<Rightarrow> lo \<le> p \<and> p \<le> hi
           | _ \<Rightarrow> False))"

definition is_range :: "rule \<Rightarrow> bool" where
  "is_range r \<longleftrightarrow> split_once (CHR ''-'') (trim (r_value r)) \<noteq> None"

definition range_entry :: "rule \<Rightarrow> u16 \<times> u16 \<times> rule_match" where
  "range_entry r =
     (case split_once (CHR ''-'') (trim (r_value r)) of
        Some (a, b) \<Rightarrow> (the (parse_u16 (trim a)), the (parse_u16 (trim b)), from_rule r)
      | None \<Rightarrow> (0, 0, from_rule r))"

lemma index_rule_port:
  "index_rule rx ix r = Inr ix' \<Longrightarrow>
     ix_port_exact ix' = (if r_kind r = Port \<and> \<not> is_range r
        then (ix_port_exact ix)(the (parse_u16 (trim (r_value r))) \<mapsto> from_rule r) else ix_port_exact ix)
   \<and> ix_port_range ix' = (if r_kind r = Port \<and> is_range r then ix_port_range ix @ [range_entry r] else ix_port_range ix)
   \<and> (r_kind r = Port \<longrightarrow> \<not> is_range r \<longrightarrow> parse_u16 (trim (r_value r)) \<noteq> None)
   \<and> (r_kind r = Port \<longrightarrow> is_range r \<longrightarrow>
        (\<exists>a b. split_once (CHR ''-'') (trim (r_value r)) = Some (a, b)
             \<and> parse_u16 (trim a) \<noteq> None \<and> parse_u16 (trim b) \<noteq> None))"
  by (cases "r_kind r")
    (auto simp: index_rule_def Let_def is_range_def range_entry_def
      split: sum.splits option.splits)

lemma index_rules_port:
  "fold_result (index_rule rx) ix rs = Inr ix' \<Longrightarrow>
     ix_port_exact ix' = foldl (\<lambda>m r. m(the (parse_u16 (trim (r_value r))) \<mapsto> from_rule r))
        (ix_port_exact ix) (filter (\<lambda>r. \<not> is_range r) (filter (\<lambda>r. r_kind r = Port) rs))
   \<and> ix_port_range ix' = ix_port_range ix @ map range_entry (filter is_range (filter (\<lambda>r. r_kind r = Port) rs))"
  by (induction rs arbitrary: ix) (auto split: sum.splits dest!: index_rule_port)

lemma port_rule_parsed:
  assumes "build_index rx rs = Inr ix" "r \<in> set (enabled_of Port rs)"
  shows "port_rule_hits p r \<longleftrightarrow>
           (if is_range r then fst (range_entry r) \<le> p \<and> p \<le> fst (snd (range_entry r))
            else the (parse_u16 (trim (r_value r))) = p)"
proof -
  from assms(2) have r: "r \<in> set (filter r_enabled rs)" "r_kind r = Port" by (auto simp: enabled_of_def)
  from fold_result_all_ok [OF build_index_fold [OF assms(1)] r(1)]
  obtain t t' where "index_rule rx t r = Inr t'" by blast
  from index_rule_port [OF this] r(2) show ?thesis
    by (auto simp: port_rule_hits_def range_entry_def is_range_def split: option.split)
qed

lemma match_port_sound_complete:
  assumes "build_index rx rs = Inr ix"
  shows "match_port ix p = None \<longleftrightarrow> (\<forall>r \<in> set rs. r_enabled r \<longrightarrow> r_kind r = Port \<longrightarrow> \<not> port_rule_hits p r)"
    and "match_port ix p = Some m \<Longrightarrow>
           \<exists>r \<in> set rs. r_enabled r \<and> r_kind r = Port \<and> port_rule_hits p r \<and> m = from_rule r"
proof -
  let ?rs = "enabled_of Port rs"
  note hits = port_rule_parsed [OF assms]
  have exact: "ix_port_exact ix = foldl (\<lambda>m r. m(the (parse_u16 (trim (r_value r))) \<mapsto> from_rule r))
        Map.empty (filter (\<lambda>r. \<not> is_range r) ?rs)"
    and range: "ix_port_range ix = map range_entry (filter is_range ?rs)"
    using index_rules_port [OF build_index_fold [OF assms], unfolded enabled_of_filter]
    by (simp_all add: rule_index_new_def)
  have entry: "range_entry r = (fst (range_entry r), fst (snd (range_entry r)), from_rule r)" for r
    by (auto simp: range_entry_def split: option.split)
  have mem: "r \<in> set ?rs \<longleftrightarrow> r \<in> set rs \<and> r_enabled r \<and> r_kind r = Port" for r
    by (auto simp: enabled_of_def)
  show "match_port ix p = None \<longleftrightarrow> (\<forall>r \<in> set rs. r_enabled r \<longrightarrow> r_kind r = Port \<longrightarrow> \<not> port_rule_hits p r)"
  proof -
    have "match_port ix p = None \<longleftrightarrow> (\<forall>r \<in> set ?rs. \<not> port_rule_hits p r)"
      unfolding match_port_def exact range
      by (subst entry [abs_def]) (auto simp: insert_all_None find_None_iff hits split: option.split
          dest!: insert_all_SomeD)
    then show ?thesis by (auto simp: enabled_of_def)
  qed
  assume m: "match_port ix p = Some m"
  have "\<exists>r \<in> set ?rs. port_rule_hits p r \<and> m = from_rule r"
  proof (cases "ix_port_exact ix p")
    case (Some m')
    with m have "ix_port_exact ix p = Some m" by (simp add: match_port_def)
    then show ?thesis unfolding exact by (auto dest!: insert_all_SomeD simp: hits)
  next
    case None
    with m obtain lo hi where "find (\<lambda>(a, b, _). a \<le> p \<and> p \<le> b) (ix_port_range ix) = Some (lo, hi, m)"
      by (auto simp: match_port_def)
    then obtain i where i: "i < length (ix_port_range ix)" "ix_port_range ix ! i = (lo, hi, m)" "lo \<le> p" "p \<le> hi"
      by (auto simp: find_Some_iff)
    then have "(lo, hi, m) \<in> set (ix_port_range ix)" by (metis nth_mem)
    with i(3,4) obtain r where "r \<in> set ?rs" "is_range r" "range_entry r = (lo, hi, m)" "lo \<le> p" "p \<le> hi"
      unfolding range by auto
    with hits [of r p] entry [of r] show ?thesis by (intro bexI [of _ r]) auto
  qed
  then show "\<exists>r \<in> set rs. r_enabled r \<and> r_kind r = Port \<and> port_rule_hits p r \<and> m = from_rule r"
    by (auto simp: mem)
qed
section \<open>Properties of the rule index\<close>

text \<open>Regular expressions read as literal substrings: an instance of the parameter.\<close>

definition regex_literal :: "string regex_crate" where
  "regex_literal = \<lparr>rx_new = Inr, rx_is_match = (\<lambda>re s. str_contains s re)\<rparr>"

definition demo_rule :: "string \<Rightarrow> rule_kind \<Rightarrow> string \<Rightarrow> action \<Rightarrow> rule" where
  "demo_rule i k v a = \<lparr>r_id = i, r_kind = k, r_value = v, r_action = a, r_enabled = True, r_priority = 0\<rparr>"

text \<open>
  C9. Longest-prefix match: a successfully built index answers an address of either family
  with no match exactly when no enabled CIDR rule's network contains it, and otherwise with
  an enabled CIDR rule whose network contains it and whose prefix no other such rule exceeds.
\<close>

theorem match_ip_longest_prefix:
  assumes "build_index rx rs = Inr ix"
  shows "(match_ip ix ip = None \<longleftrightarrow>
            (\<forall>r \<in> set rs. r_enabled r \<longrightarrow> r_kind r = IpCidr \<longrightarrow> \<not> cidr_rule_hits ip r))
       \<and> (\<forall>m. match_ip ix ip = Some m \<longrightarrow>
            (\<exists>r \<in> set rs. r_enabled r \<and> r_kind r = IpCidr \<and> cidr_rule_hits ip r \<and> m = from_rule r \<and>
               (\<forall>r' \<in> set rs. r_enabled r' \<longrightarrow> r_kind r' = IpCidr \<longrightarrow> cidr_rule_hits ip r' \<longrightarrow>
                  cidr_rule_len r' \<le> cidr_rule_len r)))"
proof (intro conjI allI impI)
  show "match_ip ix ip = None \<longleftrightarrow>
            (\<forall>r \<in> set rs. r_enabled r \<longrightarrow> r_kind r = IpCidr \<longrightarrow> \<not> cidr_rule_hits ip r)"
    using match_ip_covers(1) [OF assms, of ip] by (auto simp: covers_def enabled_of_def)
  fix m assume "match_ip ix ip = Some m"
  from match_ip_covers(2) [OF assms this]
  obtain r where "r \<in> set (enabled_of IpCidr rs)" "cidr_rule_hits ip r" "m = from_rule r"
    and "\<forall>q m'. covers ip (enabled_of IpCidr rs) q m' \<longrightarrow> q \<le> cidr_rule_len r"
    by (auto simp: covers_def)
  then show "\<exists>r \<in> set rs. r_enabled r \<and> r_kind r = IpCidr \<and> cidr_rule_hits ip r \<and> m = from_rule r \<and>
     (\<forall>r' \<in> set rs. r_enabled r' \<longrightarrow> r_kind r' = IpCidr \<longrightarrow> cidr_rule_hits ip r' \<longrightarrow>
        cidr_rule_len r' \<le> cidr_rule_len r)"
    by (intro bexI [of _ r]) (auto simp: covers_def enabled_of_def)
qed

definition demo_cidrs :: "rule list" where
  "demo_cidrs = [demo_rule ''priv'' IpCidr ''10.0.0.0/8'' Direct, demo_rule ''inner'' IpCidr ''10.1.0.0/16'' Block]"

lemma demo_cidrs_parse:
  "cidr_of ''10.0.0.0/8'' = Some (V4 0x0A000000, 8)" "cidr_of ''10.1.0.0/16'' = Some (V4 0x0A010000, 16)"
  by (simp_all add: cidr_of_def std_eval)

lemma demo_cidrs_build: "is_ok (build_index regex_literal demo_cidrs)"
proof -
  have "is_ok (insert_cidr ix ''10.0.0.0/8'' m)" "is_ok (insert_cidr ix ''10.1.0.0/16'' m)" for ix m
    by (simp_all add: insert_cidr_is_ok demo_cidrs_parse)
  then have "insert_cidr ix ''10.0.0.0/8'' m \<noteq> Inl e" "insert_cidr ix ''10.1.0.0/16'' m \<noteq> Inl e" for ix m e
    by (metis is_ok_simps(2))+
  then show ?thesis
    by (simp add: build_index_def demo_cidrs_def demo_rule_def index_rule_def is_ok_def trim_id
        split: sum.split)
qed

lemma demo_cidrs_facts:
  "\<exists>r \<in> set demo_cidrs. r_enabled r \<and> r_kind r = IpCidr \<and> cidr_rule_hits (V4 0x0A010203) r \<and> cidr_rule_len r = 16"
  by (simp add: demo_cidrs_def demo_rule_def cidr_rule_hits_def cidr_rule_len_def trim_id
      demo_cidrs_parse in_network_def)

theorem match_ip_longest_prefix_witness:
  "\<exists>ix. build_index regex_literal demo_cidrs = Inr ix \<and> match_ip ix (V4 0x0A010203) \<noteq> None"
proof -
  obtain ix where ix: "build_index regex_literal demo_cidrs = Inr ix"
    using demo_cidrs_build by (auto simp: is_ok_iff)
  with match_ip_longest_prefix [OF ix, of "V4 0x0A010203"] demo_cidrs_facts show ?thesis by blast
qed

text \<open>
  A CIDR rule whose value has no slash, such as a single host address, is always
  rejected, and with it the whole rule set, whatever the other rules are: the default
  prefix length of the code lies beyond every address width.
\<close>

theorem bare_address_rule_rejects_set:
  assumes "r \<in> set rs" "r_enabled r" "r_kind r = IpCidr" "CHR ''/'' \<notin> set (r_value r)"
  shows "\<not> is_ok (build_index rx rs)"
proof -
  have "CHR ''/'' \<notin> set (trim (r_value r))" using assms(4) set_trim by blast
  then have "\<not> is_ok (index_rule rx t r)" for t
    using insert_cidr_no_slash [of "trim (r_value r)" "ix_cidr t" "from_rule r"] assms(3)
    by (auto simp: index_rule_def Let_def is_ok_def split: sum.splits)
  with assms(1,2) show ?thesis
    unfolding build_index_def by (intro fold_result_fails) auto
qed

theorem bare_address_rule_rejects_set_witness:
  "\<not> is_ok (build_index regex_literal [demo_rule ''host'' IpCidr ''8.8.8.8'' Direct])"
  by (rule bare_address_rule_rejects_set [of "demo_rule ''host'' IpCidr ''8.8.8.8'' Direct"])
    (simp_all add: demo_rule_def)

text \<open>
  C23. Domain matching is sound and complete: the index answers nothing exactly when no
  enabled rule hits the name, and otherwise with an enabled rule that hits it.  Of the
  keyword and regex rules that hit, and of the exact and suffix rule that compete, none has
  a higher priority than the answer.
\<close>

theorem match_domain_sound_complete:
  assumes "build_index rx rs = Inr ix"
  shows "(match_domain rx ix name = None \<longleftrightarrow> (\<forall>r \<in> set rs. r_enabled r \<longrightarrow> \<not> domain_rule_hits rx name r))
       \<and> (\<forall>m. match_domain rx ix name = Some m \<longrightarrow>
            (\<exists>r \<in> set rs. r_enabled r \<and> domain_rule_hits rx name r \<and> m = from_rule r) \<and>
            (\<forall>r \<in> set rs. r_enabled r \<longrightarrow> r_kind r \<in> {DomainKeyword, DomainRegex} \<longrightarrow>
               domain_rule_hits rx name r \<longrightarrow> effective_priority r \<le> m_priority m) \<and>
            (\<forall>c \<in> set (domain_candidates rx rs name). m_priority c \<le> m_priority m))"
proof (intro conjI allI impI)
  note scan = match_domain_scan [OF assms, of name]
  show "match_domain rx ix name = None \<longleftrightarrow> (\<forall>r \<in> set rs. r_enabled r \<longrightarrow> \<not> domain_rule_hits rx name r)"
    by (simp add: scan rule_pref.scan_None domain_candidates_empty)
  fix m assume "match_domain rx ix name = Some m"
  then have m: "foldl better None (domain_candidates rx rs name) = Some m" by (simp add: scan)
  show "\<exists>r \<in> set rs. r_enabled r \<and> domain_rule_hits rx name r \<and> m = from_rule r"
    using rule_pref.scan_mem [OF m] by (rule domain_candidates_sound)
  show max: "\<forall>c \<in> set (domain_candidates rx rs name). m_priority c \<le> m_priority m"
    using rule_pref.scan_Some [OF m] by blast
  show "\<forall>r \<in> set rs. r_enabled r \<longrightarrow> r_kind r \<in> {DomainKeyword, DomainRegex} \<longrightarrow>
               domain_rule_hits rx name r \<longrightarrow> effective_priority r \<le> m_priority m"
  proof (intro ballI impI)
    fix r assume "r \<in> set rs" "r_enabled r" "r_kind r \<in> {DomainKeyword, DomainRegex}" "domain_rule_hits rx name r"
    then have "from_rule r \<in> set (domain_candidates rx rs name)"
      by (auto simp: domain_candidates_def enabled_of_def)
    with max show "effective_priority r \<le> m_priority m" by (auto simp: from_rule_def)
  qed
qed

definition demo_domains :: "rule list" where
  "demo_domains = [demo_rule ''s'' DomainSuffix ''example.com'' ProxyAct, demo_rule ''k'' DomainKeyword ''ads'' Block]"

lemma demo_domains_build: "is_ok (build_index regex_literal demo_domains)"
  by code_simp

lemma demo_domains_facts:
  "\<exists>r \<in> set demo_domains. r_enabled r \<and> domain_rule_hits regex_literal ''www.Example.com'' r"
  by code_simp

theorem match_domain_sound_complete_witness:
  "\<exists>ix. build_index regex_literal demo_domains = Inr ix
      \<and> match_domain regex_literal ix ''www.Example.com'' \<noteq> None"
proof -
  obtain ix where ix: "build_index regex_literal demo_domains = Inr ix"
    using demo_domains_build by (auto simp: is_ok_iff)
  with match_domain_sound_complete [OF ix, of "''www.Example.com''"] demo_domains_facts
  show ?thesis by blast
qed

text \<open>
  The keyed matchers answer with the last enabled rule of their kind whose key is the
  one asked for, whatever the priorities: the executable's file name for processes, the
  protocol name, the country code, each without regard to ASCII case.
\<close>

theorem keyed_matchers_last_rule:
  assumes "build_index rx rs = Inr ix"
  shows "match_process ix exe =
           last_rule Process (\<lambda>r. to_ascii_lowercase (trim (r_value r)) = process_key exe) rs
       \<and> match_protocol ix proto =
           last_rule Protocol (\<lambda>r. eq_ignore_ascii_case (trim (r_value r)) proto) rs
       \<and> match_geoip ix country =
           last_rule Geoip (\<lambda>r. to_ascii_uppercase (trim (r_value r)) = to_ascii_uppercase country) rs"
  using built_maps [OF assms]
  by (simp add: match_process_def match_protocol_def match_geoip_def rule_index_new_def
      last_rule_lookup eq_ignore_ascii_case_def)

definition demo_processes :: "rule list" where
  "demo_processes = [demo_rule ''a'' Process ''Chrome.exe'' ProxyAct, demo_rule ''b'' Process ''chrome.exe'' Direct]"

lemma demo_processes_build: "is_ok (build_index regex_literal demo_processes)"
  by code_simp

lemma demo_processes_last:
  "map_option m_rule_id (last_rule Process (\<lambda>r. to_ascii_lowercase (trim (r_value r)) = process_key ''/opt/CHROME.exe'') demo_processes)
     = Some ''b''"
  by code_simp

theorem keyed_matchers_last_rule_witness:
  "\<exists>ix. build_index regex_literal demo_processes = Inr ix
      \<and> map_option m_rule_id (match_process ix ''/opt/CHROME.exe'') = Some ''b''"
proof -
  obtain ix where ix: "build_index regex_literal demo_processes = Inr ix"
    using demo_processes_build by (auto simp: is_ok_iff)
  with keyed_matchers_last_rule [OF ix, of "''/opt/CHROME.exe''" "[]" "[]"] demo_processes_last
  show ?thesis by simp
qed

end
