(* ===== verification/Geoip.thy ===== *)
theory Geoip
  imports Bit_Trie
begin

text \<open>
  \<^verbatim>\<open>routing/geoip.rs\<close>: country lookup over CIDR lists, with a built-in table of
  private ranges.  A directory is the listing that \<^verbatim>\<open>read_dir\<close> yields: a file name and
  the contents, absent when the file cannot be read as text.
\<close>

definition PRIVATE :: string where
  "PRIVATE = ''PRIVATE''"

definition PRIVATE_V4 :: "(string \<times> nat) list" where
  "PRIVATE_V4 =
     [(''0.0.0.0'', 8), (''10.0.0.0'', 8), (''100.64.0.0'', 10), (''127.0.0.0'', 8),
      (''169.254.0.0'', 16), (''172.16.0.0'', 12), (''192.168.0.0'', 16), (''224.0.0.0'', 4)]"

definition PRIVATE_V6 :: "(string \<times> nat) list" where
  "PRIVATE_V6 = [(''::1'', 128), (''fc00::'', 7), (''fe80::'', 10)]"

record geoip =
  geo_v4 :: "string bit_node"
  geo_v6 :: "string bit_node"

definition geoip_empty :: geoip where
  "geoip_empty = \<lparr>geo_v4 = bit_node_new, geo_v6 = bit_node_new\<rparr>"

text \<open>\<^verbatim>\<open>parse().unwrap()\<close> at one address family; \<open>None\<close> is the panic of \<^verbatim>\<open>unwrap\<close>.\<close>

definition parse_v4 :: "string \<Rightarrow> u32 option" where
  "parse_v4 s = (case read_ipv4 s of Some (a, []) \<Rightarrow> Some a | _ \<Rightarrow> None)"

definition parse_v6 :: "string \<Rightarrow> u128 option" where
  "parse_v6 s = (case read_ipv6 s of Some (a, []) \<Rightarrow> Some a | _ \<Rightarrow> None)"

fun add_private_v4 :: "geoip \<Rightarrow> (string \<times> nat) list \<Rightarrow> geoip option" where
  "add_private_v4 g [] = Some g"
| "add_private_v4 g ((net, p) # rest) =
     (case parse_v4 net of
        None \<Rightarrow> None
      | Some ip \<Rightarrow> add_private_v4 (g\<lparr>geo_v4 := bit_trie_insert (geo_v4 g) (ipv4_bits ip) p PRIVATE\<rparr>) rest)"

fun add_private_v6 :: "geoip \<Rightarrow> (string \<times> nat) list \<Rightarrow> geoip option" where
  "add_private_v6 g [] = Some g"
| "add_private_v6 g ((net, p) # rest) =
     (case parse_v6 net of
        None \<Rightarrow> None
      | Some ip \<Rightarrow> add_private_v6 (g\<lparr>geo_v6 := bit_trie_insert (geo_v6 g) (ipv6_bits ip) p PRIVATE\<rparr>) rest)"

definition with_private :: "geoip option" where
  "with_private =
     (case add_private_v4 geoip_empty PRIVATE_V4 of
        None \<Rightarrow> None
      | Some g \<Rightarrow> add_private_v6 g PRIVATE_V6)"

definition geo_insert_cidr :: "geoip \<Rightarrow> string \<Rightarrow> string \<Rightarrow> string + geoip" where
  "geo_insert_cidr g cidr country =
     (case (case split_once (CHR ''/'') cidr of
              Some (ip, p) \<Rightarrow>
                (case parse_usize p of
                   None \<Rightarrow> Inl (''bad prefix '' @ cidr)
                 | Some n \<Rightarrow> Inr (ip, n))
            | None \<Rightarrow> Inr (cidr, 128)) of
        Inl e \<Rightarrow> Inl e
      | Inr (ip_part, pfx) \<Rightarrow>
          (case parse_ip ip_part of
             None \<Rightarrow> Inl ''invalid IP address syntax''
           | Some (V4 ip) \<Rightarrow>
               if 32 < pfx then Inl (''bad v4 prefix '' @ cidr)
               else Inr (g\<lparr>geo_v4 := bit_trie_insert (geo_v4 g) (ipv4_bits ip) pfx country\<rparr>)
           | Some (V6 ip) \<Rightarrow>
               if 128 < pfx then Inl (''bad v6 prefix '' @ cidr)
               else Inr (g\<lparr>geo_v6 := bit_trie_insert (geo_v6 g) (ipv6_bits ip) pfx country\<rparr>)))"

definition load_line :: "string \<Rightarrow> geoip \<Rightarrow> string \<Rightarrow> geoip" where
  "load_line country g line =
     (let l = trim line
      in if l = [] \<or> prefix ''#'' l then g
         else case geo_insert_cidr g l country of Inl _ \<Rightarrow> g | Inr g' \<Rightarrow> g')"

definition load_file :: "geoip \<Rightarrow> string \<times> string option \<Rightarrow> geoip" where
  "load_file g entry =
     (case entry of (name, body) \<Rightarrow>
        if file_extension name \<noteq> Some ''txt'' then g
        else case file_stem name of
               None \<Rightarrow> g
             | Some s \<Rightarrow>
                 (let country = to_ascii_uppercase s
                  in case body of
                       None \<Rightarrow> g
                     | Some b \<Rightarrow> foldl (load_line country) g (str_lines b)))"

definition load_dir :: "geoip \<Rightarrow> (string \<times> string option) list option \<Rightarrow> geoip" where
  "load_dir g dir = (case dir of None \<Rightarrow> g | Some entries \<Rightarrow> foldl load_file g entries)"

definition geo_country :: "geoip \<Rightarrow> ip_addr \<Rightarrow> string option" where
  "geo_country g ip =
     (case ip of
        V4 a \<Rightarrow> bit_trie_lookup (geo_v4 g) (ipv4_bits a)
      | V6 a \<Rightarrow> bit_trie_lookup (geo_v6 g) (ipv6_bits a))"

section \<open>The built-in table\<close>

lemma replicate_7: "replicate 7 x = [x, x, x, x, x, x, x]"
  by (simp add: eval_nat_numeral)

lemma private_v4_parse:
  "parse_v4 ''0.0.0.0'' = Some 0" "parse_v4 ''10.0.0.0'' = Some 0x0A000000"
  "parse_v4 ''100.64.0.0'' = Some 0x64400000" "parse_v4 ''127.0.0.0'' = Some 0x7F000000"
  "parse_v4 ''169.254.0.0'' = Some 0xA9FE0000" "parse_v4 ''172.16.0.0'' = Some 0xAC100000"
  "parse_v4 ''192.168.0.0'' = Some 0xC0A80000" "parse_v4 ''224.0.0.0'' = Some 0xE0000000"
  by (simp_all add: parse_v4_def std_eval)

lemma private_v6_parse:
  "parse_v6 ''::1'' = Some 1" "parse_v6 ''fc00::'' = Some 0xFC000000000000000000000000000000"
  "parse_v6 ''fe80::'' = Some 0xFE800000000000000000000000000000"
proof -
  have two: "to_be_bytes 2 (w :: u16) = [ucast (drop_bit 8 w), ucast w]" for w
    by (simp add: to_be_bytes_def upt_rec)
  show "parse_v6 ''::1'' = Some 1" "parse_v6 ''fc00::'' = Some 0xFC000000000000000000000000000000"
    "parse_v6 ''fe80::'' = Some 0xFE800000000000000000000000000000"
    by (simp_all add: parse_v6_def read_ipv6_def read_groups.simps ipv6_of_groups_def std_eval
        two replicate_7)
qed

definition private_v4_entries :: "(bool list \<times> string) list" where
  "private_v4_entries = map (\<lambda>(a, p). (take p (ipv4_bits a), PRIVATE))
     [(0, 8), (0x0A000000, 8), (0x64400000, 10), (0x7F000000, 8),
      (0xA9FE0000, 16), (0xAC100000, 12), (0xC0A80000, 16), (0xE0000000, 4)]"

definition private_v6_entries :: "(bool list \<times> string) list" where
  "private_v6_entries = map (\<lambda>(a, p). (take p (ipv6_bits a), PRIVATE))
     [(1, 128), (0xFC000000000000000000000000000000, 7), (0xFE800000000000000000000000000000, 10)]"

lemma with_private_entries:
  "with_private = Some
     \<lparr>geo_v4 = foldl (\<lambda>t (p, v). bit_insert_path t p v) bit_node_new private_v4_entries,
      geo_v6 = foldl (\<lambda>t (p, v). bit_insert_path t p v) bit_node_new private_v6_entries\<rparr>"
  by (simp add: with_private_def PRIVATE_V4_def PRIVATE_V6_def private_v4_parse private_v6_parse
      geoip_empty_def private_v4_entries_def private_v6_entries_def bit_trie_insert_def)

lemma linear_lpm_const:
  assumes "\<forall>(p, v) \<in> set kvs. v = c"
  shows "linear_lpm kvs k = (if \<exists>(p, v) \<in> set kvs. prefix p k then Some c else None)"
proof (cases "linear_lpm kvs k")
  case None
  then show ?thesis by (auto simp: linear_lpm_None)
next
  case (Some v)
  from linear_lpm_SomeD [OF this] obtain p where "(p, v) \<in> set kvs" "prefix p k" by blast
  with assms Some show ?thesis by auto
qed

lemma in_network_range:
  assumes "LENGTH('a::len) = n" "p \<le> n"
  shows "in_network n p net (a :: 'a word) \<longleftrightarrow>
           unat net div 2 ^ (n - p) * 2 ^ (n - p) \<le> unat a
         \<and> unat a < Suc (unat net div 2 ^ (n - p)) * 2 ^ (n - p)"
proof -
  let ?d = "2 ^ (n - p) :: nat"
  have d: "0 < ?d" by simp
  have "in_network n p net a \<longleftrightarrow> unat (drop_bit (n - p) a) = unat (drop_bit (n - p) net)"
    by (simp add: in_network_def word_unat_eq_iff)
  also have "\<dots> \<longleftrightarrow> unat a div ?d = unat net div ?d"
    unfolding unat_drop_bit_eq by (simp only: drop_bit_eq_div)
  also have "\<dots> \<longleftrightarrow> unat net div ?d * ?d \<le> unat a \<and> unat a < Suc (unat net div ?d) * ?d"
  proof
    assume "unat a div ?d = unat net div ?d"
    then show "unat net div ?d * ?d \<le> unat a \<and> unat a < Suc (unat net div ?d) * ?d"
      using div_times_less_eq_dividend [of "unat a" ?d] dividend_less_times_div [OF d, of "unat a"]
      by (simp add: mult.commute)
  next
    assume "unat net div ?d * ?d \<le> unat a \<and> unat a < Suc (unat net div ?d) * ?d"
    then show "unat a div ?d = unat net div ?d" by (intro div_nat_eqI) (simp_all add: mult.commute)
  qed
  finally show ?thesis .
qed

definition in_private_v4 :: "nat \<Rightarrow> bool" where
  "in_private_v4 a \<longleftrightarrow>
     a < 0x01000000
   \<or> (0x0A000000 \<le> a \<and> a < 0x0B000000)
   \<or> (0x64400000 \<le> a \<and> a < 0x64800000)
   \<or> (0x7F000000 \<le> a \<and> a < 0x80000000)
   \<or> (0xA9FE0000 \<le> a \<and> a < 0xA9FF0000)
   \<or> (0xAC100000 \<le> a \<and> a < 0xAC200000)
   \<or> (0xC0A80000 \<le> a \<and> a < 0xC0A90000)
   \<or> (0xE0000000 \<le> a \<and> a < 0xF0000000)"

definition in_private_v6 :: "nat \<Rightarrow> bool" where
  "in_private_v6 b \<longleftrightarrow>
     b = 1
   \<or> (0xFC000000000000000000000000000000 \<le> b \<and> b < 0xFE000000000000000000000000000000)
   \<or> (0xFE800000000000000000000000000000 \<le> b \<and> b < 0xFEC00000000000000000000000000000)"

lemma private_v4_hit:
  "(\<exists>(p, v) \<in> set private_v4_entries. prefix p (ipv4_bits a)) \<longleftrightarrow> in_private_v4 (unat a)"
  by (simp add: private_v4_entries_def prefix_ipv4_bits in_network_range in_private_v4_def)

lemma private_v6_hit:
  "(\<exists>(p, v) \<in> set private_v6_entries. prefix p (ipv6_bits b)) \<longleftrightarrow> in_private_v6 (unat b)"
proof -
  have one: "Suc 0 \<le> n \<and> n < Suc (Suc 0) \<longleftrightarrow> n = Suc 0" for n by auto
  show ?thesis
    using prefix_ipv6_bits [of 128 1 b]
    by (simp add: private_v6_entries_def prefix_ipv6_bits in_network_range in_private_v6_def one)
qed

lemma with_private_country:
  assumes "with_private = Some g"
  shows "geo_country g (V4 a) = (if in_private_v4 (unat a) then Some PRIVATE else None)"
    and "geo_country g (V6 b) = (if in_private_v6 (unat b) then Some PRIVATE else None)"
proof -
  have c4: "\<forall>(p, v) \<in> set private_v4_entries. v = PRIVATE"
    and c6: "\<forall>(p, v) \<in> set private_v6_entries. v = PRIVATE"
    by (simp_all add: private_v4_entries_def private_v6_entries_def)
  have g: "geo_v4 g = foldl (\<lambda>t (p, v). bit_insert_path t p v) bit_node_new private_v4_entries"
    "geo_v6 g = foldl (\<lambda>t (p, v). bit_insert_path t p v) bit_node_new private_v6_entries"
    using assms by (auto simp: with_private_entries)
  show "geo_country g (V4 a) = (if in_private_v4 (unat a) then Some PRIVATE else None)"
    "geo_country g (V6 b) = (if in_private_v6 (unat b) then Some PRIVATE else None)"
    by (simp_all add: g geo_country_def bit_ix.build_lookup
        linear_lpm_const [OF c4] linear_lpm_const [OF c6] private_v4_hit private_v6_hit)
qed

text \<open>
  The built-in table parses without panicking, and marks as private exactly the eight
  IPv4 ranges and three IPv6 ranges of its two tables, by address arithmetic.
\<close>

theorem private_table_exact:
  "\<exists>g. with_private = Some g
     \<and> (\<forall>a. geo_country g (V4 a) = (if in_private_v4 (unat a) then Some PRIVATE else None))
     \<and> (\<forall>b. geo_country g (V6 b) = (if in_private_v6 (unat b) then Some PRIVATE else None))"
proof -
  obtain g where "with_private = Some g" by (simp add: with_private_entries)
  then show ?thesis by (auto simp: with_private_country)
qed

section \<open>Loading a directory\<close>

text \<open>The trie entries that a line, a file and a directory listing stand for.\<close>

definition geo_cidr_of :: "string \<Rightarrow> (ip_addr \<times> nat) option" where
  "geo_cidr_of cidr =
     (case (case split_once (CHR ''/'') cidr of
              Some (ip, p) \<Rightarrow> map_option (Pair ip) (parse_usize p) | None \<Rightarrow> Some (cidr, 128)) of
        None \<Rightarrow> None
      | Some (ip, n) \<Rightarrow>
          (case parse_ip ip of
             None \<Rightarrow> None
           | Some (V4 a) \<Rightarrow> if n \<le> 32 then Some (V4 a, n) else None
           | Some (V6 a) \<Rightarrow> if n \<le> 128 then Some (V6 a, n) else None))"

definition line_entries :: "string \<Rightarrow> string \<Rightarrow> (ip_addr \<times> nat \<times> string) list" where
  "line_entries country line =
     (if trim line = [] \<or> prefix ''#'' (trim line) then []
      else case geo_cidr_of (trim line) of None \<Rightarrow> [] | Some (ip, n) \<Rightarrow> [(ip, n, country)])"

definition file_entries :: "string \<times> string option \<Rightarrow> (ip_addr \<times> nat \<times> string) list" where
  "file_entries f =
     (case (file_extension (fst f) = Some ''txt'', file_stem (fst f), snd f) of
        (True, Some s, Some body) \<Rightarrow> concat (map (line_entries (to_ascii_uppercase s)) (str_lines body))
      | _ \<Rightarrow> [])"

definition add_entry :: "geoip \<Rightarrow> ip_addr \<times> nat \<times> string \<Rightarrow> geoip" where
  "add_entry g e =
     (case e of
        (V4 a, n, c) \<Rightarrow> g\<lparr>geo_v4 := bit_insert_path (geo_v4 g) (take n (ipv4_bits a)) c\<rparr>
      | (V6 a, n, c) \<Rightarrow> g\<lparr>geo_v6 := bit_insert_path (geo_v6 g) (take n (ipv6_bits a)) c\<rparr>)"

definition v4_part :: "(ip_addr \<times> nat \<times> string) list \<Rightarrow> (bool list \<times> string) list" where
  "v4_part es = concat (map (\<lambda>e. case e of (V4 a, n, c) \<Rightarrow> [(take n (ipv4_bits a), c)] | _ \<Rightarrow> []) es)"

definition v6_part :: "(ip_addr \<times> nat \<times> string) list \<Rightarrow> (bool list \<times> string) list" where
  "v6_part es = concat (map (\<lambda>e. case e of (V6 a, n, c) \<Rightarrow> [(take n (ipv6_bits a), c)] | _ \<Rightarrow> []) es)"

lemma geo_insert_cidr_of:
  "(case geo_insert_cidr g l c of Inl _ \<Rightarrow> g | Inr g' \<Rightarrow> g') =
     (case geo_cidr_of l of None \<Rightarrow> g | Some (ip, n) \<Rightarrow> add_entry g (ip, n, c))"
  by (auto simp: geo_insert_cidr_def geo_cidr_of_def add_entry_def bit_trie_insert_def
      split: option.split ip_addr.split)

lemma load_line_entries: "load_line c = (\<lambda>g l. foldl add_entry g (line_entries c l))"
  by (intro ext) (auto simp: load_line_def line_entries_def Let_def geo_insert_cidr_of split: option.split)

lemma foldl_concat_map: "foldl (\<lambda>g x. foldl f g (h x)) g xs = foldl f g (concat (map h xs))"
  by (induction xs arbitrary: g) auto

lemma load_file_entries: "load_file = (\<lambda>g f. foldl add_entry g (file_entries f))"
  by (intro ext) (auto simp: load_file_def file_entries_def Let_def load_line_entries foldl_concat_map
      split: option.split)

lemma load_dir_entries: "load_dir g (Some fs) = foldl add_entry g (concat (map file_entries fs))"
  by (simp add: load_dir_def load_file_entries foldl_concat_map)

lemma foldl_add_entry:
  "geo_v4 (foldl add_entry g es) = foldl (\<lambda>t (p, v). bit_insert_path t p v) (geo_v4 g) (v4_part es)"
  "geo_v6 (foldl add_entry g es) = foldl (\<lambda>t (p, v). bit_insert_path t p v) (geo_v6 g) (v6_part es)"
  by (induction es arbitrary: g)
    (auto simp: add_entry_def v4_part_def v6_part_def split: ip_addr.split)


end
