(* ===== verification/Config.thy ===== *)
theory Config
  imports Complex_Main Common
begin

text \<open>
  \<^verbatim>\<open>config/schema.rs\<close> and \<^verbatim>\<open>config/manager.rs\<close>: the persisted configuration with
  its defaults and validation, and the write-to-temporary-then-rename protocol that every
  store of the service uses.  The disk is a map from paths to file contents, and the
  outcome of each system call is an argument.  JSON text belongs to the serde crate: its
  two directions are arguments as well.
\<close>

section \<open>Schema\<close>

datatype route_mode = Global | Smart | DirectMode

definition mode_str :: "route_mode \<Rightarrow> string" where
  "mode_str m = (case m of Global \<Rightarrow> ''global'' | Smart \<Rightarrow> ''smart'' | DirectMode \<Rightarrow> ''direct'')"

definition parse_mode :: "string \<Rightarrow> route_mode" where
  "parse_mode s =
     (let l = to_ascii_lowercase s
      in if l = ''global'' then Global else if l = ''direct'' then DirectMode else Smart)"

record tun_config =
  tc_enabled :: bool
  tc_name :: string
  tc_mtu :: u32
  tc_address_v4 :: string
  tc_address_v6 :: string

definition tun_config_default :: tun_config where
  "tun_config_default = \<lparr>tc_enabled = False, tc_name = ''NetworkClient'', tc_mtu = 1420,
     tc_address_v4 = ''10.255.0.1/24'', tc_address_v6 = ''fdfe:dcba:9876::1/126''\<rparr>"

record core_config =
  cc_kind :: string
  cc_executable :: string
  cc_work_dir :: string
  cc_mixed_port :: u16
  cc_socks_port :: u16
  cc_api_port :: u16
  cc_start_timeout_secs :: u64
  cc_restart_max :: u32

definition core_config_default :: core_config where
  "core_config_default = \<lparr>cc_kind = ''sing-box'', cc_executable = ''bin/sing-box.exe'',
     cc_work_dir = ''core'', cc_mixed_port = 2080, cc_socks_port = 2081, cc_api_port = 2082,
     cc_start_timeout_secs = 10, cc_restart_max = 3\<rparr>"

record dns_server =
  ds_kind :: string
  ds_url :: string
  ds_tag :: string

record dns_config =
  dc_mode :: string
  dc_servers :: "dns_server list"
  dc_cache :: bool
  dc_cache_size :: u32

definition dns_config_default :: dns_config where
  "dns_config_default = \<lparr>dc_mode = ''smart'',
     dc_servers = [\<lparr>ds_kind = ''udp'', ds_url = ''223.5.5.5:53'', ds_tag = ''direct''\<rparr>,
                   \<lparr>ds_kind = ''doh'', ds_url = ''https://1.1.1.1/dns-query'', ds_tag = ''proxy''\<rparr>],
     dc_cache = True, dc_cache_size = 4096\<rparr>"

text \<open>The threshold is a finite double, kept by its value.\<close>

record smart_config =
  sc_switch_threshold :: rat
  sc_health_interval_secs :: u64

definition smart_config_default :: smart_config where
  "smart_config_default = \<lparr>sc_switch_threshold = 10, sc_health_interval_secs = 45\<rparr>"

record app_config =
  ac_mode :: route_mode
  ac_tun :: tun_config
  ac_core :: core_config
  ac_dns :: dns_config
  ac_smart :: smart_config
  ac_auto_start_proxy :: bool
  ac_restore_previous_connection :: bool
  ac_log_level :: string

definition app_config_default :: app_config where
  "app_config_default = \<lparr>ac_mode = Smart, ac_tun = tun_config_default, ac_core = core_config_default,
     ac_dns = dns_config_default, ac_smart = smart_config_default, ac_auto_start_proxy = False,
     ac_restore_previous_connection = False, ac_log_level = ''info''\<rparr>"

record runtime_persist =
  rp_last_state :: string
  rp_node_id :: string
  rp_mode :: string
  rp_updated_at :: int

definition runtime_persist_default :: runtime_persist where
  "runtime_persist_default = \<lparr>rp_last_state = [], rp_node_id = [], rp_mode = [], rp_updated_at = 0\<rparr>"

section \<open>Validation\<close>

fun validate_servers :: "dns_server list \<Rightarrow> svc_error + unit" where
  "validate_servers [] = Inr ()"
| "validate_servers (srv # rest) =
     (if ds_kind srv = ''udp'' \<or> ds_kind srv = ''doh'' then validate_servers rest
      else Inl (ConfigInvalid (''unknown dns server type: '' @ ds_kind srv)))"

definition validate_app :: "app_config \<Rightarrow> svc_error + unit" where
  "validate_app cfg =
     (if tc_mtu (ac_tun cfg) < 576 \<or> 9000 < tc_mtu (ac_tun cfg) then
        Inl (ConfigInvalid ''tun.mtu out of [576, 9000]'')
      else if cc_mixed_port (ac_core cfg) = 0 \<or> 1000000 < dc_cache_size (ac_dns cfg) then
        Inl (ConfigInvalid ''core/dns config invalid'')
      else validate_servers (dc_servers (ac_dns cfg)))"

section \<open>The disk\<close>

text \<open>A path is its parent directory and its file name.\<close>

type_synonym fs_path = "string \<times> string"
type_synonym fs = "fs_path \<Rightarrow> string option"

text \<open>Outcomes of the calls of one write: an error, and for a short write how much got out.\<close>

record write_io =
  io_mkdir :: "string option"
  io_encode :: "string option"
  io_write :: "(string \<times> nat) option"
  io_rename :: "string option"

definition io_good :: write_io where
  "io_good = \<lparr>io_mkdir = None, io_encode = None, io_write = None, io_rename = None\<rparr>"

definition tmp_path :: "fs_path \<Rightarrow> fs_path" where
  \<comment> \<open>\<^verbatim>\<open>with_extension("json.tmp")\<close>\<close>
  "tmp_path p =
     (case p of (dir, f) \<Rightarrow>
        (dir, (case file_stem f of None \<Rightarrow> [] | Some s \<Rightarrow> s) @ ''.json.tmp''))"

definition atomic_write :: "write_io \<Rightarrow> fs \<Rightarrow> fs_path \<Rightarrow> string \<Rightarrow> fs \<times> (svc_error + unit)" where
  "atomic_write io disk p body =
     (case io_mkdir io of
        Some e \<Rightarrow> (disk, Inl (Io e))
      | None \<Rightarrow>
          (let tmp = tmp_path p
           in case io_encode io of
                Some e \<Rightarrow> (disk, Inl (Json e))
              | None \<Rightarrow>
                  (case io_write io of
                     Some (e, n) \<Rightarrow> (disk(tmp \<mapsto> take n body), Inl (Io e))
                   | None \<Rightarrow>
                       (let disk = disk(tmp \<mapsto> body)
                        in case io_rename io of
                             Some e \<Rightarrow> (disk, Inl (Io e))
                           | None \<Rightarrow> ((disk(tmp := None))(p \<mapsto> body), Inr ())))))"

definition utf8_bom :: string where
  "utf8_bom = map char_of [239, 187, 191 :: nat]"

definition read_json :: "(string \<Rightarrow> string + 'a) \<Rightarrow> fs \<Rightarrow> fs_path \<Rightarrow> svc_error + 'a" where
  "read_json de disk p =
     (case disk p of
        None \<Rightarrow> Inl (Io ''not found'')
      | Some body \<Rightarrow>
          (let body = (if prefix utf8_bom body then drop 3 body else body)
           in case de body of Inl e \<Rightarrow> Inl (Json e) | Inr v \<Rightarrow> Inr v))"

definition read_json_or :: "(string \<Rightarrow> string + 'a) \<Rightarrow> 'a \<Rightarrow> fs \<Rightarrow> fs_path \<Rightarrow> 'a" where
  "read_json_or de dflt disk p = (case read_json de disk p of Inl _ \<Rightarrow> dflt | Inr v \<Rightarrow> v)"

section \<open>The manager\<close>

record paths =
  pt_root :: string
  pt_config_dir :: string
  pt_subscriptions_dir :: string
  pt_nodes_dir :: string
  pt_rules_dir :: string
  pt_db_dir :: string
  pt_logs_dir :: string
  pt_cache_dir :: string

definition path_join :: "string \<Rightarrow> string \<Rightarrow> string" where
  "path_join a b = a @ ''/'' @ b"

definition paths_with_root :: "string \<Rightarrow> paths" where
  "paths_with_root base =
     \<lparr>pt_root = base, pt_config_dir = path_join base ''config'',
      pt_subscriptions_dir = path_join base ''subscriptions'', pt_nodes_dir = path_join base ''nodes'',
      pt_rules_dir = path_join base ''rules'', pt_db_dir = path_join base ''db'',
      pt_logs_dir = path_join base ''logs'', pt_cache_dir = path_join base ''cache''\<rparr>"

definition app_config_path :: "paths \<Rightarrow> fs_path" where
  "app_config_path p = (pt_config_dir p, ''app.json'')"

definition dns_config_path :: "paths \<Rightarrow> fs_path" where
  "dns_config_path p = (pt_config_dir p, ''dns.json'')"

definition nodes_path :: "paths \<Rightarrow> fs_path" where
  "nodes_path p = (pt_nodes_dir p, ''nodes.json'')"

definition subscriptions_path :: "paths \<Rightarrow> fs_path" where
  "subscriptions_path p = (pt_subscriptions_dir p, ''subscriptions.json'')"

definition rules_path :: "paths \<Rightarrow> fs_path" where
  "rules_path p = (pt_rules_dir p, ''rules.json'')"

definition runtime_state_path :: "paths \<Rightarrow> fs_path" where
  "runtime_state_path p = (pt_root p, ''runtime_state.json'')"

definition database_path :: "paths \<Rightarrow> fs_path" where
  "database_path p = (pt_db_dir p, ''statistics.db'')"

definition routing_config_path :: "paths \<Rightarrow> fs_path" where
  "routing_config_path p = (pt_config_dir p, ''routing.json'')"

record config_manager =
  cm_paths :: paths
  cm_app :: app_config
  cm_runtime :: runtime_persist

definition load_app_config :: "(string \<Rightarrow> string + app_config) \<Rightarrow> fs \<Rightarrow> paths \<Rightarrow> app_config" where
  "load_app_config de disk ps =
     (if disk (app_config_path ps) = None then app_config_default
      else case read_json de disk (app_config_path ps) of Inr cfg \<Rightarrow> cfg | Inl _ \<Rightarrow> app_config_default)"

definition cm_load_with_root ::
  "(string \<Rightarrow> string + app_config) \<Rightarrow> (string \<Rightarrow> string + runtime_persist) \<Rightarrow> fs \<Rightarrow> string
     \<Rightarrow> svc_error + config_manager" where
  "cm_load_with_root de_app de_rt disk base =
     (let ps = paths_with_root base; app = load_app_config de_app disk ps
      in case validate_app app of
           Inl e \<Rightarrow> Inl e
         | Inr _ \<Rightarrow>
             Inr \<lparr>cm_paths = ps, cm_app = app,
                  cm_runtime = read_json_or de_rt runtime_persist_default disk (runtime_state_path ps)\<rparr>)"

definition save_app ::
  "(app_config \<Rightarrow> string) \<Rightarrow> write_io \<Rightarrow> config_manager \<times> fs \<Rightarrow> app_config
     \<Rightarrow> (config_manager \<times> fs) \<times> (svc_error + unit)" where
  "save_app ser io s cfg =
     (case s of (cm, disk) \<Rightarrow>
        (case validate_app cfg of
           Inl e \<Rightarrow> (s, Inl e)
         | Inr _ \<Rightarrow>
             (case atomic_write io disk (app_config_path (cm_paths cm)) (ser cfg) of
                (disk, Inl e) \<Rightarrow> ((cm, disk), Inl e)
              | (disk, Inr _) \<Rightarrow> ((cm\<lparr>cm_app := cfg\<rparr>, disk), Inr ()))))"

definition cm_dns :: "(string \<Rightarrow> string + dns_config) \<Rightarrow> config_manager \<times> fs \<Rightarrow> dns_config" where
  "cm_dns de s = read_json_or de dns_config_default (snd s) (dns_config_path (cm_paths (fst s)))"

definition save_dns ::
  "(dns_config \<Rightarrow> string) \<Rightarrow> write_io \<Rightarrow> config_manager \<times> fs \<Rightarrow> dns_config
     \<Rightarrow> (config_manager \<times> fs) \<times> (svc_error + unit)" where
  "save_dns ser io s dns =
     (case atomic_write io (snd s) (dns_config_path (cm_paths (fst s))) (ser dns) of
        (disk, r) \<Rightarrow> ((fst s, disk), r))"

definition save_runtime ::
  "(runtime_persist \<Rightarrow> string) \<Rightarrow> write_io \<Rightarrow> config_manager \<times> fs \<Rightarrow> runtime_persist
     \<Rightarrow> (config_manager \<times> fs) \<times> (svc_error + unit)" where
  "save_runtime ser io s st =
     (case s of (cm, disk) \<Rightarrow>
        (case atomic_write io disk (runtime_state_path (cm_paths cm)) (ser st) of
           (disk, Inl e) \<Rightarrow> ((cm, disk), Inl e)
         | (disk, Inr _) \<Rightarrow> ((cm\<lparr>cm_runtime := st\<rparr>, disk), Inr ())))"

section \<open>Writes are atomic\<close>

lemma tmp_path_neq:
  assumes "file_extension f \<noteq> Some ''tmp''"
  shows "tmp_path (d, f) \<noteq> (d', f)"
proof
  assume "tmp_path (d, f) = (d', f)"
  then have "f = (case file_stem f of None \<Rightarrow> [] | Some s \<Rightarrow> s) @ ''.json.tmp''" by (simp add: tmp_path_def)
  then obtain x where "f = x @ ''.json.tmp''" by blast
  then have "f = (x @ ''.json'') @ CHR ''.'' # ''tmp''" by simp
  then obtain b where b: "f = b @ CHR ''.'' # ''tmp''" "b \<noteq> []" by blast
  have "length f \<ge> 4" using b by simp
  then have "f \<noteq> ''..''" by auto
  moreover have "rsplit_once (CHR ''.'') f = Some (b, ''tmp'')"
    unfolding b(1) by (rule rsplit_once_append) simp
  ultimately have "file_extension f = Some ''tmp''"
    using b(2) by (simp add: file_extension_def split_file_at_dot_def)
  with assms show False by simp
qed

text \<open>
  C30. A write never leaves its target half written.  Whatever the outcome of the system
  calls, and however much of a short write got out, the target holds the new text when the
  write succeeds and exactly what it held before when it fails; apart from the temporary
  file beside it no other file changes.
\<close>

theorem atomic_write_all_or_nothing:
  assumes "file_extension (snd p) \<noteq> Some ''tmp''"
  shows "case atomic_write io disk p body of (disk', r) \<Rightarrow>
           disk' p = (if is_ok r then Some body else disk p)
         \<and> (is_ok r \<longrightarrow> disk' (tmp_path p) = None)
         \<and> (\<forall>q. q \<noteq> p \<longrightarrow> q \<noteq> tmp_path p \<longrightarrow> disk' q = disk q)"
proof -
  have "tmp_path p \<noteq> p" using tmp_path_neq [OF assms, of "fst p" "fst p"] by simp
  then show ?thesis by (auto simp: atomic_write_def Let_def split: option.split)
qed

theorem atomic_write_all_or_nothing_witness:
  "case atomic_write (io_good\<lparr>io_write := Some (''disk full'', 3)\<rparr>) [(''d'', ''a.json'') \<mapsto> ''old'']
      (''d'', ''a.json'') ''[1, 2]'' of (disk', r) \<Rightarrow>
     disk' (''d'', ''a.json'') = Some ''old'' \<and> \<not> is_ok r"
proof -
  have "file_extension ''a.json'' = Some ''json''"
    by (simp add: file_extension_def split_file_at_dot_def rsplit_once_def split_once_def)
  then show ?thesis
    using atomic_write_all_or_nothing [where p = "(''d'', ''a.json'')" and io = "io_good\<lparr>io_write := Some (''disk full'', 3)\<rparr>"
        and disk = "[(''d'', ''a.json'') \<mapsto> ''old'']" and body = "''[1, 2]''"]
    by (auto simp: atomic_write_def io_good_def split: prod.split)
qed

lemma file_extension_json [simp]:
  "file_extension ''app.json'' = Some ''json''" "file_extension ''rules.json'' = Some ''json''"
  "file_extension ''routing.json'' = Some ''json''" "file_extension ''runtime_state.json'' = Some ''json''"
  "file_extension ''nodes.json'' = Some ''json''" "file_extension ''dns.json'' = Some ''json''"
  "file_extension ''subscriptions.json'' = Some ''json''"
  by (simp_all add: file_extension_def split_file_at_dot_def rsplit_once_def split_once_def)

lemma atomic_write_ok:
  assumes "file_extension (snd p) \<noteq> Some ''tmp''" "atomic_write io disk p body = (disk', Inr u)"
  shows "disk' p = Some body"
  using assms(2) tmp_path_neq [OF assms(1), of "fst p" "fst p"]
  by (auto simp: atomic_write_def Let_def split: option.splits)

lemma atomic_write_err:
  assumes "file_extension (snd p) \<noteq> Some ''tmp''" "atomic_write io disk p body = (disk', Inl e)"
  shows "disk' p = disk p"
  using assms(2) tmp_path_neq [OF assms(1), of "fst p" "fst p"]
  by (auto simp: atomic_write_def Let_def split: option.splits)

lemma atomic_write_other:
  "atomic_write io disk p body = (disk', r) \<Longrightarrow> q \<noteq> p \<Longrightarrow> q \<noteq> tmp_path p \<Longrightarrow> disk' q = disk q"
  by (auto simp: atomic_write_def Let_def split: option.splits)

lemma atomic_write_good: "is_ok (snd (atomic_write io_good disk p body))"
  by (simp add: atomic_write_def io_good_def Let_def)

section \<open>Validation and saving\<close>

lemma validate_servers_iff:
  "validate_servers srvs = Inr () \<longleftrightarrow> (\<forall>s \<in> set srvs. ds_kind s \<in> {''udp'', ''doh''})"
  by (induction srvs) auto

text \<open>
  Validation accepts a configuration exactly when the tunnel MTU is within 576..9000,
  the mixed port is not zero, the DNS cache size is at most a million and every DNS server
  is of type udp or doh; the default configuration passes.
\<close>

theorem validate_app_exact:
  "(validate_app cfg = Inr () \<longleftrightarrow>
      576 \<le> unat (tc_mtu (ac_tun cfg)) \<and> unat (tc_mtu (ac_tun cfg)) \<le> 9000
    \<and> cc_mixed_port (ac_core cfg) \<noteq> 0
    \<and> unat (dc_cache_size (ac_dns cfg)) \<le> 1000000
    \<and> (\<forall>s \<in> set (dc_servers (ac_dns cfg)). ds_kind s \<in> {''udp'', ''doh''}))
   \<and> validate_app app_config_default = Inr ()"
proof
  show "validate_app cfg = Inr () \<longleftrightarrow>
      576 \<le> unat (tc_mtu (ac_tun cfg)) \<and> unat (tc_mtu (ac_tun cfg)) \<le> 9000
    \<and> cc_mixed_port (ac_core cfg) \<noteq> 0
    \<and> unat (dc_cache_size (ac_dns cfg)) \<le> 1000000
    \<and> (\<forall>s \<in> set (dc_servers (ac_dns cfg)). ds_kind s \<in> {''udp'', ''doh''})"
    by (auto simp: validate_app_def validate_servers_iff word_less_nat_alt not_less)
  show "validate_app app_config_default = Inr ()"
    by (simp add: validate_app_def app_config_default_def tun_config_default_def
        core_config_default_def dns_config_default_def)
qed

theorem validate_app_exact_witness:
  "validate_app (app_config_default\<lparr>ac_tun := tun_config_default\<lparr>tc_mtu := 9001\<rparr>\<rparr>) \<noteq> Inr ()"
  using validate_app_exact [of "app_config_default\<lparr>ac_tun := tun_config_default\<lparr>tc_mtu := 9001\<rparr>\<rparr>"] by simp

text \<open>
  Saving the application configuration keeps memory and disk together: a save that
  succeeds was valid and a restart reads the same configuration back, given that the JSON
  library reads what it wrote; a save that fails, whether in validation or at any system
  call, leaves both the configuration in memory and the file as they were.
\<close>

theorem save_app_then_restart:
  assumes "de_app (ser cfg) = Inr cfg" and "\<not> prefix utf8_bom (ser cfg)"
    and "cm_paths cm = paths_with_root base"
  shows "case save_app ser io (cm, disk) cfg of ((cm', disk'), r) \<Rightarrow>
           (if is_ok r
            then validate_app cfg = Inr () \<and> cm_app cm' = cfg
                 \<and> (\<exists>m. cm_load_with_root de_app de_rt disk' base = Inr m \<and> cm_app m = cfg)
            else cm' = cm \<and> disk' (app_config_path (cm_paths cm)) = disk (app_config_path (cm_paths cm)))"
proof -
  let ?p = "app_config_path (cm_paths cm)"
  have ext: "file_extension (snd ?p) \<noteq> Some ''tmp''" by (simp add: app_config_path_def)
  show ?thesis
  proof (cases "validate_app cfg")
    case (Inl e)
    then show ?thesis by (simp add: save_app_def)
  next
    case (Inr u)
    obtain disk' r where w: "atomic_write io disk ?p (ser cfg) = (disk', r)" by force
    show ?thesis
    proof (cases r)
      case (Inl e)
      with w Inr atomic_write_err [OF ext] show ?thesis by (simp add: save_app_def)
    next
      case r: (Inr v)
      with w atomic_write_ok [OF ext] have "disk' ?p = Some (ser cfg)" by simp
      with assms have "load_app_config de_app disk' (paths_with_root base) = cfg"
        by (simp add: load_app_config_def read_json_def)
      with w r Inr assms(3) show ?thesis
        by (simp add: save_app_def cm_load_with_root_def Let_def)
    qed
  qed
qed

theorem save_app_then_restart_witness:
  "is_ok (snd (save_app (\<lambda>_. ''{}'') io_good
       (\<lparr>cm_paths = paths_with_root ''d'', cm_app = app_config_default, cm_runtime = runtime_persist_default\<rparr>,
        Map.empty) (app_config_default\<lparr>ac_mode := Global\<rparr>)))
   \<and> (\<exists>m. cm_load_with_root (\<lambda>_. Inr (app_config_default\<lparr>ac_mode := Global\<rparr>)) (\<lambda>_. Inl [])
         (snd (fst (save_app (\<lambda>_. ''{}'') io_good
           (\<lparr>cm_paths = paths_with_root ''d'', cm_app = app_config_default, cm_runtime = runtime_persist_default\<rparr>,
            Map.empty) (app_config_default\<lparr>ac_mode := Global\<rparr>)))) ''d'' = Inr m
       \<and> ac_mode (cm_app m) = Global)"
proof -
  let ?cfg = "app_config_default\<lparr>ac_mode := Global\<rparr>"
  let ?cm = "\<lparr>cm_paths = paths_with_root ''d'', cm_app = app_config_default, cm_runtime = runtime_persist_default\<rparr>"
  have "validate_app ?cfg = Inr ()"
    by (simp add: validate_app_def app_config_default_def tun_config_default_def
        core_config_default_def dns_config_default_def)
  then have ok: "is_ok (snd (save_app (\<lambda>_. ''{}'') io_good (?cm, Map.empty) ?cfg))"
    by (simp add: save_app_def atomic_write_def io_good_def Let_def)
  have "\<not> prefix utf8_bom ''{}''" by (simp add: utf8_bom_def)
  with save_app_then_restart [where de_app = "\<lambda>_. Inr ?cfg" and ser = "\<lambda>_. ''{}''" and cfg = ?cfg
      and cm = ?cm and base = "''d''" and io = io_good and disk = Map.empty and de_rt = "\<lambda>_. Inl []"] ok
  show ?thesis by (auto split: prod.splits)
qed

end
