(* ===== verification/Routing_Engine.thy ===== *)
theory Routing_Engine
  imports Rule_Matching Geoip Config
begin

text \<open>
  \<^verbatim>\<open>routing/engine.rs\<close>: the rule set with its compiled index, kept in step through
  validated commits, and the decision pipeline over a flow.  The engine's locks protect one
  field each; an operation is modelled as one step on the whole state, with the disk beside it.
\<close>

section \<open>State\<close>

record routing_config =
  rc_mode :: route_mode
  rc_final_action :: action
  rc_home_country :: string

definition routing_config_default :: routing_config where
  "routing_config_default = \<lparr>rc_mode = Smart, rc_final_action = ProxyAct, rc_home_country = ''CN''\<rparr>"

record 'r routing_engine =
  re_rules :: "rule list"
  re_index :: "'r rule_index"
  re_geo :: geoip
  re_cfg :: routing_config
  re_paths :: paths

text \<open>The JSON encodings of the two files the engine owns.\<close>

record rules_json =
  rj_rules :: "rule list \<Rightarrow> string"
  rj_cfg :: "routing_config \<Rightarrow> string"

type_synonym 'r engine_state = "'r routing_engine \<times> fs"

definition engine_load ::
  "'r regex_crate \<Rightarrow> (string \<Rightarrow> string + rule list) \<Rightarrow> (string \<Rightarrow> string + routing_config)
     \<Rightarrow> paths \<Rightarrow> fs \<Rightarrow> (string \<times> string option) list option \<Rightarrow> (svc_error + 'r routing_engine) option" where
  \<comment> \<open>\<open>None\<close> is the panic of an \<^verbatim>\<open>unwrap\<close> in the private table\<close>
  "engine_load rx de_rules de_cfg ps disk dir =
     (let rules = read_json_or de_rules [] disk (rules_path ps)
      in case build_index rx rules of
           Inl e \<Rightarrow> Some (Inl e)
         | Inr index \<Rightarrow>
             (case with_private of
                None \<Rightarrow> None
              | Some geo \<Rightarrow>
                  Some (Inr \<lparr>re_rules = rules, re_index = index, re_geo = load_dir geo dir,
                    re_cfg = read_json_or de_cfg routing_config_default disk (routing_config_path ps),
                    re_paths = ps\<rparr>)))"

section \<open>Operations\<close>

definition persist_config :: "rules_json \<Rightarrow> write_io \<Rightarrow> 'r engine_state \<Rightarrow> 'r engine_state \<times> (svc_error + unit)" where
  "persist_config js io s =
     (case s of (e, disk) \<Rightarrow>
        (case atomic_write io disk (routing_config_path (re_paths e)) (rj_cfg js (re_cfg e)) of
           (disk, r) \<Rightarrow> ((e, disk), r)))"

definition set_mode :: "rules_json \<Rightarrow> write_io \<Rightarrow> 'r engine_state \<Rightarrow> route_mode \<Rightarrow> 'r engine_state \<times> (svc_error + unit)" where
  "set_mode js io s m =
     (case s of (e, disk) \<Rightarrow> persist_config js io (e\<lparr>re_cfg := (re_cfg e)\<lparr>rc_mode := m\<rparr>\<rparr>, disk))"

definition set_config :: "rules_json \<Rightarrow> write_io \<Rightarrow> 'r engine_state \<Rightarrow> routing_config \<Rightarrow> 'r engine_state \<times> (svc_error + unit)" where
  "set_config js io s c = (case s of (e, disk) \<Rightarrow> persist_config js io (e\<lparr>re_cfg := c\<rparr>, disk))"

definition commit :: "'r regex_crate \<Rightarrow> rules_json \<Rightarrow> write_io \<Rightarrow> 'r engine_state \<Rightarrow> rule list \<Rightarrow> 'r engine_state \<times> (svc_error + unit)" where
  "commit rx js io s rules =
     (case s of (e, disk) \<Rightarrow>
        (case build_index rx rules of
           Inl err \<Rightarrow> (s, Inl err)
         | Inr index \<Rightarrow>
             (case atomic_write io disk (rules_path (re_paths e)) (rj_rules js rules) of
                (disk, Inl err) \<Rightarrow> ((e, disk), Inl err)
              | (disk, Inr _) \<Rightarrow> ((e\<lparr>re_index := index, re_rules := rules\<rparr>, disk), Inr ()))))"

definition add_rule ::
  "'r regex_crate \<Rightarrow> rules_json \<Rightarrow> write_io \<Rightarrow> string \<Rightarrow> 'r engine_state \<Rightarrow> rule \<Rightarrow> 'r engine_state \<times> (svc_error + rule)" where
  \<comment> \<open>\<open>uuid\<close> is the simple form of the fresh UUID\<close>
  "add_rule rx js io uuid s rule =
     (if trim (r_value rule) = [] then (s, Inl (ConfigInvalid ''rule value empty''))
      else
        (let rule = (if r_id rule = [] then rule\<lparr>r_id := ''rule_'' @ uuid\<rparr> else rule);
             rule = rule\<lparr>r_priority := 1000\<rparr>
         in case commit rx js io s (re_rules (fst s) @ [rule]) of
              (s, Inl err) \<Rightarrow> (s, Inl err)
            | (s, Inr _) \<Rightarrow> (s, Inr rule)))"

fun rule_position :: "string \<Rightarrow> rule list \<Rightarrow> nat option" where
  "rule_position i [] = None"
| "rule_position i (r # rs) = (if r_id r = i then Some 0 else map_option Suc (rule_position i rs))"

definition update_rule ::
  "'r regex_crate \<Rightarrow> rules_json \<Rightarrow> write_io \<Rightarrow> 'r engine_state \<Rightarrow> rule \<Rightarrow> 'r engine_state \<times> (svc_error + unit)" where
  "update_rule rx js io s rule =
     (let next = re_rules (fst s)
      in case rule_position (r_id rule) next of
           None \<Rightarrow> (s, Inl (NotFound (''rule '' @ r_id rule)))
         | Some pos \<Rightarrow> commit rx js io s (next[pos := rule]))"

definition delete_rule ::
  "'r regex_crate \<Rightarrow> rules_json \<Rightarrow> write_io \<Rightarrow> 'r engine_state \<Rightarrow> string \<Rightarrow> 'r engine_state \<times> (svc_error + unit)" where
  "delete_rule rx js io s i = commit rx js io s (filter (\<lambda>r. r_id r \<noteq> i) (re_rules (fst s)))"

section \<open>Decisions\<close>

definition consider_match :: "rule_match option \<times> string \<Rightarrow> rule_match option \<Rightarrow> string \<Rightarrow> rule_match option \<times> string" where
  "consider_match w candidate label =
     (case w of (current, why) \<Rightarrow>
        (case (current, candidate) of
           (Some cur, Some cand) \<Rightarrow>
             if m_priority cur < m_priority cand then (Some cand, label) else (Some cur, why)
         | (None, Some cand) \<Rightarrow> (Some cand, why @ label)
         | (cur, None) \<Rightarrow> (cur, why)))"

definition mode_default :: "'r routing_engine \<Rightarrow> flow \<Rightarrow> decision" where
  "mode_default e flow =
     (let cfg = re_cfg e
      in case rc_mode cfg of
           DirectMode \<Rightarrow> decision_direct ''mode=direct''
         | Global \<Rightarrow> decision_proxy ''mode=global''
         | Smart \<Rightarrow>
             (let home = to_ascii_uppercase (rc_home_country cfg)
              in case f_dst_ip flow of
                   Some ip \<Rightarrow>
                     (case geo_country (re_geo e) ip of
                        Some c \<Rightarrow>
                          if c = PRIVATE then decision_direct ''private/lan''
                          else if c = home then decision_direct ''smart:home-country''
                          else decision_proxy ''smart:international''
                      | None \<Rightarrow> decision_proxy ''smart:international'')
                 | None \<Rightarrow> \<lparr>d_action = rc_final_action cfg, d_rule_id = None, d_reason = ''smart:no-ip''\<rparr>))"

definition decide :: "'r regex_crate \<Rightarrow> 'r routing_engine \<Rightarrow> flow \<Rightarrow> decision" where
  "decide rx e flow =
     (let ix = re_index e;
          w = (None, []);
          w = (case f_process_name flow of Some exe \<Rightarrow> consider_match w (match_process ix exe) ''process'' | None \<Rightarrow> w);
          w = (case f_domain flow of Some d \<Rightarrow> consider_match w (match_domain rx ix d) ''domain'' | None \<Rightarrow> w);
          w = (case f_dst_ip flow of Some ip \<Rightarrow> consider_match w (match_ip ix ip) ''ip'' | None \<Rightarrow> w);
          w = (if f_dst_port flow \<noteq> 0 then consider_match w (match_port ix (f_dst_port flow)) ''port'' else w);
          w = (if f_protocol flow \<noteq> [] then consider_match w (match_protocol ix (f_protocol flow)) ''protocol'' else w);
          w = (case f_dst_ip flow of
                 Some ip \<Rightarrow>
                   (case geo_country (re_geo e) ip of
                      Some country \<Rightarrow> consider_match w (match_geoip ix country) ''geoip''
                    | None \<Rightarrow> w)
               | None \<Rightarrow> w)
      in case w of
           (Some m, why) \<Rightarrow> \<lparr>d_action = m_action m, d_rule_id = Some (m_rule_id m), d_reason = why\<rparr>
         | (None, _) \<Rightarrow> mode_default e flow)"

record match_test =
  mt_input :: string
  mt_action :: string
  mt_rule_id :: "string option"
  mt_reason :: string
  mt_mode :: string

definition test_match :: "'r regex_crate \<Rightarrow> 'r routing_engine \<Rightarrow> string \<Rightarrow> svc_error + match_test" where
  "test_match rx e raw =
     (let input = trim raw
      in if input = [] then Inl (ConfigInvalid ''empty input'')
         else
           (let flow = (case parse_ip input of
                          Some ip \<Rightarrow> flow_default\<lparr>f_dst_ip := Some ip\<rparr>
                        | None \<Rightarrow> flow_default\<lparr>f_domain := Some input\<rparr>);
                d = decide rx e flow
            in Inr \<lparr>mt_input = input,
                    mt_action = (case d_action d of Direct \<Rightarrow> ''direct'' | ProxyAct \<Rightarrow> ''proxy'' | Block \<Rightarrow> ''block''),
                    mt_rule_id = d_rule_id d, mt_reason = d_reason d,
                    mt_mode = mode_str (rc_mode (re_cfg e))\<rparr>))"

section \<open>The pipeline as a preference scan\<close>

text \<open>
  The candidates of a flow in pipeline order, each with its label; the pipeline keeps the
  first of highest priority.
\<close>

definition tag :: "string \<Rightarrow> rule_match option \<Rightarrow> (string \<times> rule_match) list" where
  "tag l m = (case m of None \<Rightarrow> [] | Some x \<Rightarrow> [(l, x)])"

definition candidates :: "'r regex_crate \<Rightarrow> 'r routing_engine \<Rightarrow> flow \<Rightarrow> (string \<times> rule_match) list" where
  "candidates rx e flow =
     (let ix = re_index e
      in (case f_process_name flow of Some exe \<Rightarrow> tag ''process'' (match_process ix exe) | None \<Rightarrow> [])
       @ (case f_domain flow of Some d \<Rightarrow> tag ''domain'' (match_domain rx ix d) | None \<Rightarrow> [])
       @ (case f_dst_ip flow of Some ip \<Rightarrow> tag ''ip'' (match_ip ix ip) | None \<Rightarrow> [])
       @ (if f_dst_port flow \<noteq> 0 then tag ''port'' (match_port ix (f_dst_port flow)) else [])
       @ (if f_protocol flow \<noteq> [] then tag ''protocol'' (match_protocol ix (f_protocol flow)) else [])
       @ (case f_dst_ip flow of
            Some ip \<Rightarrow> (case geo_country (re_geo e) ip of
                          Some country \<Rightarrow> tag ''geoip'' (match_geoip ix country) | None \<Rightarrow> [])
          | None \<Rightarrow> []))"

fun prefer_labelled :: "(string \<times> rule_match) option \<Rightarrow> string \<times> rule_match \<Rightarrow> (string \<times> rule_match) option" where
  "prefer_labelled None c = Some c"
| "prefer_labelled (Some a) c = (if m_priority (snd c) \<le> m_priority (snd a) then Some a else Some c)"

interpretation pipeline: preference "\<lambda>c. m_priority (snd c)" prefer_labelled
  by unfold_locales simp_all

definition labelled :: "(string \<times> rule_match) option \<Rightarrow> rule_match option \<times> string" where
  "labelled b = (case b of None \<Rightarrow> (None, []) | Some (l, m) \<Rightarrow> (Some m, l))"

lemma consider_labelled: "consider_match (labelled b) m l = labelled (foldl prefer_labelled b (tag l m))"
  by (cases b; cases m) (auto simp: consider_match_def labelled_def tag_def)

lemma decide_scan:
  "decide rx e flow =
     (case foldl prefer_labelled None (candidates rx e flow) of
        Some (l, m) \<Rightarrow> \<lparr>d_action = m_action m, d_rule_id = Some (m_rule_id m), d_reason = l\<rparr>
      | None \<Rightarrow> mode_default e flow)"
proof -
  have start: "(None, []) = labelled None" by (simp add: labelled_def)
  have step:
    "(case x of Some y \<Rightarrow> consider_match (labelled b) (f y) l | None \<Rightarrow> labelled b)
       = labelled (foldl prefer_labelled b (case x of Some y \<Rightarrow> tag l (f y) | None \<Rightarrow> []))"
    for x :: "'b option" and f b l by (cases x) (simp_all add: consider_labelled)
  have guard:
    "(if c then consider_match (labelled b) m l else labelled b)
       = labelled (foldl prefer_labelled b (if c then tag l m else []))" for c b m l
    by (simp add: consider_labelled)
  have nested:
    "(case x of Some y \<Rightarrow> labelled (foldl prefer_labelled b (h y)) | None \<Rightarrow> labelled b)
       = labelled (foldl prefer_labelled b (case x of Some y \<Rightarrow> h y | None \<Rightarrow> []))"
    for x :: "ip_addr option" and h b by (cases x) simp_all
  have fin: "(case labelled b of (Some m, why) \<Rightarrow> F m why | (None, _) \<Rightarrow> G)
       = (case b of Some (l, m) \<Rightarrow> F m l | None \<Rightarrow> G)" for b F and G :: decision
    by (auto simp: labelled_def split: option.split)
  show ?thesis
    unfolding decide_def candidates_def Let_def start step guard nested fin
    by (simp add: foldl_append [symmetric] del: foldl_append)
qed

section \<open>What a decision rests on\<close>

definition rule_applies :: "'r regex_crate \<Rightarrow> geoip \<Rightarrow> flow \<Rightarrow> rule \<Rightarrow> bool" where
  "rule_applies rx geo flow r \<longleftrightarrow>
     (case r_kind r of
        Process \<Rightarrow> (case f_process_name flow of None \<Rightarrow> False
                    | Some exe \<Rightarrow> to_ascii_lowercase (trim (r_value r)) = process_key exe)
      | IpCidr \<Rightarrow> (case f_dst_ip flow of None \<Rightarrow> False | Some ip \<Rightarrow> cidr_rule_hits ip r)
      | Port \<Rightarrow> f_dst_port flow \<noteq> 0 \<and> port_rule_hits (f_dst_port flow) r
      | Protocol \<Rightarrow> f_protocol flow \<noteq> [] \<and> eq_ignore_ascii_case (trim (r_value r)) (f_protocol flow)
      | Geoip \<Rightarrow> (case f_dst_ip flow of None \<Rightarrow> False
                  | Some ip \<Rightarrow> (case geo_country geo ip of None \<Rightarrow> False
                       | Some c \<Rightarrow> to_ascii_uppercase (trim (r_value r)) = to_ascii_uppercase c))
      | _ \<Rightarrow> (case f_domain flow of None \<Rightarrow> False | Some d \<Rightarrow> domain_rule_hits rx d r))"

definition engine_ok :: "'r regex_crate \<Rightarrow> 'r routing_engine \<Rightarrow> bool" where
  "engine_ok rx e \<longleftrightarrow> build_index rx (re_rules e) = Inr (re_index e)"

definition applies_some :: "'r regex_crate \<Rightarrow> 'r routing_engine \<Rightarrow> flow \<Rightarrow> rule_match \<Rightarrow> bool" where
  "applies_some rx e flow m \<longleftrightarrow>
     (\<exists>r \<in> set (re_rules e). r_enabled r \<and> rule_applies rx (re_geo e) flow r \<and> m = from_rule r)"

lemma set_tag [simp]: "x \<in> set (tag l m) \<longleftrightarrow> (\<exists>y. m = Some y \<and> x = (l, y))"
  by (auto simp: tag_def split: option.split)

lemma tag_empty [simp]: "tag l m = [] \<longleftrightarrow> m = None"
  by (simp add: tag_def split: option.split)

lemma applies_someI:
  "r \<in> set (re_rules e) \<Longrightarrow> r_enabled r \<Longrightarrow> rule_applies rx (re_geo e) flow r \<Longrightarrow> m = from_rule r \<Longrightarrow>
   applies_some rx e flow m"
  unfolding applies_some_def by blast

lemma rule_applies_domain:
  "f_domain flow = Some d \<Longrightarrow> domain_rule_hits rx d r \<Longrightarrow> rule_applies rx geo flow r"
  by (cases "r_kind r") (simp_all add: rule_applies_def domain_rule_hits_def)

lemma keyed_lookup:
  assumes "build_index rx rs = Inr ix"
  shows "ix_process ix k = last_rule Process (\<lambda>r. to_ascii_lowercase (trim (r_value r)) = k) rs"
    and "ix_protocol ix k = last_rule Protocol (\<lambda>r. to_ascii_lowercase (trim (r_value r)) = k) rs"
    and "ix_geoip ix k = last_rule Geoip (\<lambda>r. to_ascii_uppercase (trim (r_value r)) = k) rs"
  using built_maps [OF assms] by (simp_all add: rule_index_new_def last_rule_lookup)

lemma candidates_cases:
  assumes "(l, m) \<in> set (candidates rx e flow)"
  obtains (process) exe where "f_process_name flow = Some exe" "match_process (re_index e) exe = Some m"
    | (domain) d where "f_domain flow = Some d" "match_domain rx (re_index e) d = Some m"
    | (ip) a where "f_dst_ip flow = Some a" "match_ip (re_index e) a = Some m"
    | (port) "f_dst_port flow \<noteq> 0" "match_port (re_index e) (f_dst_port flow) = Some m"
    | (protocol) "f_protocol flow \<noteq> []" "match_protocol (re_index e) (f_protocol flow) = Some m"
    | (geoip) a country where "f_dst_ip flow = Some a" "geo_country (re_geo e) a = Some country"
        "match_geoip (re_index e) country = Some m"
  using assms unfolding candidates_def Let_def
  by (cases "f_process_name flow"; cases "f_domain flow"; cases "f_dst_ip flow";
      cases "geo_country (re_geo e) (the (f_dst_ip flow))") (auto split: if_splits)

lemma candidates_sound:
  assumes ok: "engine_ok rx e" and c: "(l, m) \<in> set (candidates rx e flow)"
  shows "applies_some rx e flow m"
proof -
  note ix = ok [unfolded engine_ok_def]
  from c show ?thesis
  proof (cases rule: candidates_cases)
    case process
    then show ?thesis
      by (auto simp: match_process_def keyed_lookup [OF ix] rule_applies_def
          dest!: last_rule_SomeD intro!: applies_someI)
  next
    case (domain d)
    then have "foldl better None (domain_candidates rx (re_rules e) d) = Some m"
      by (simp add: match_domain_scan [OF ix])
    from domain_candidates_sound [OF rule_pref.scan_mem [OF this]] domain(1) show ?thesis
      by (auto dest: rule_applies_domain intro!: applies_someI)
  next
    case ip
    from match_ip_covers(2) [OF ix ip(2)] ip(1) show ?thesis
      by (auto simp: covers_def enabled_of_def rule_applies_def intro!: applies_someI)
  next
    case port
    from match_port_sound_complete(2) [OF ix port(2)] port(1) show ?thesis
      by (auto simp: rule_applies_def intro!: applies_someI)
  next
    case protocol
    then show ?thesis
      by (auto simp: match_protocol_def keyed_lookup [OF ix] rule_applies_def eq_ignore_ascii_case_def
          dest!: last_rule_SomeD intro!: applies_someI)
  next
    case geoip
    then show ?thesis
      by (auto simp: match_geoip_def keyed_lookup [OF ix] rule_applies_def
          dest!: last_rule_SomeD intro!: applies_someI)
  qed
qed

lemma match_domain_None:
  "build_index rx rs = Inr ix \<Longrightarrow>
     match_domain rx ix name = None \<longleftrightarrow> (\<forall>r \<in> set rs. r_enabled r \<longrightarrow> \<not> domain_rule_hits rx name r)"
  by (simp add: match_domain_scan rule_pref.scan_None domain_candidates_empty)

lemma match_ip_None:
  "build_index rx rs = Inr ix \<Longrightarrow>
     match_ip ix ip = None \<longleftrightarrow> (\<forall>r \<in> set rs. r_enabled r \<longrightarrow> r_kind r = IpCidr \<longrightarrow> \<not> cidr_rule_hits ip r)"
  by (auto simp: match_ip_covers covers_def enabled_of_def)

lemma candidates_complete:
  assumes ok: "engine_ok rx e" and none: "candidates rx e flow = []"
    and r: "r \<in> set (re_rules e)" "r_enabled r"
  shows "\<not> rule_applies rx (re_geo e) flow r"
proof
  assume a: "rule_applies rx (re_geo e) flow r"
  note ix = ok [unfolded engine_ok_def]
  have dom: "r_kind r \<noteq> Process \<Longrightarrow> r_kind r \<noteq> IpCidr \<Longrightarrow> r_kind r \<noteq> Port \<Longrightarrow> r_kind r \<noteq> Protocol \<Longrightarrow>
      r_kind r \<noteq> Geoip \<Longrightarrow> \<exists>d. f_domain flow = Some d \<and> domain_rule_hits rx d r"
    using a by (cases "r_kind r") (auto simp: rule_applies_def split: option.splits)
  show False
  proof (cases "r_kind r")
    case Process
    with a obtain exe where "f_process_name flow = Some exe" "to_ascii_lowercase (trim (r_value r)) = process_key exe"
      by (auto simp: rule_applies_def split: option.splits)
    with none r Process show False
      by (auto simp: candidates_def Let_def match_process_def keyed_lookup [OF ix] last_rule_None)
  next
    case IpCidr
    with a obtain ip where "f_dst_ip flow = Some ip" "cidr_rule_hits ip r"
      by (auto simp: rule_applies_def split: option.splits)
    with none r IpCidr show False
      by (auto simp: candidates_def Let_def match_ip_None [OF ix])
  next
    case Port
    with a none r show False
      by (auto simp: rule_applies_def candidates_def Let_def match_port_sound_complete(1) [OF ix])
  next
    case Protocol
    with a none r show False
      by (auto simp: rule_applies_def candidates_def Let_def match_protocol_def keyed_lookup [OF ix]
          last_rule_None eq_ignore_ascii_case_def)
  next
    case Geoip
    with a obtain ip c where "f_dst_ip flow = Some ip" "geo_country (re_geo e) ip = Some c"
      "to_ascii_uppercase (trim (r_value r)) = to_ascii_uppercase c"
      by (auto simp: rule_applies_def split: option.splits)
    with none r Geoip show False
      by (auto simp: candidates_def Let_def match_geoip_def keyed_lookup [OF ix] last_rule_None)
  qed (use dom none r in \<open>auto simp: candidates_def Let_def match_domain_None [OF ix]\<close>)
qed

lemma mode_default_no_rule: "d_rule_id (mode_default e flow) = None"
  by (auto simp: mode_default_def Let_def decision_direct_def decision_proxy_def
      split: route_mode.split option.split)

text \<open>
  C1. Decisions are sound and complete with respect to the rule list.  With an index in
  step with the rules, a decision names no rule exactly when no enabled rule applies to the
  flow, and then it is the mode's default; otherwise it carries the id and the action of an
  enabled rule that applies, of a priority no other stage's candidate exceeds.
\<close>

theorem decide_sound_complete:
  assumes "engine_ok rx e"
  shows "(d_rule_id (decide rx e flow) = None \<longleftrightarrow>
            (\<forall>r \<in> set (re_rules e). r_enabled r \<longrightarrow> \<not> rule_applies rx (re_geo e) flow r))
       \<and> (d_rule_id (decide rx e flow) = None \<longrightarrow> decide rx e flow = mode_default e flow)
       \<and> (\<forall>i. d_rule_id (decide rx e flow) = Some i \<longrightarrow>
            (\<exists>r \<in> set (re_rules e). r_enabled r \<and> rule_applies rx (re_geo e) flow r
               \<and> r_id r = i \<and> d_action (decide rx e flow) = r_action r
               \<and> (\<forall>(l, m) \<in> set (candidates rx e flow). m_priority m \<le> effective_priority r)))"
proof (cases "foldl prefer_labelled None (candidates rx e flow)")
  case None
  then have empty: "candidates rx e flow = []" by (simp add: pipeline.scan_None)
  have d: "decide rx e flow = mode_default e flow" by (simp add: decide_scan None)
  with candidates_complete [OF assms empty] show ?thesis by (simp add: mode_default_no_rule)
next
  case (Some lm)
  obtain l m where lm: "lm = (l, m)" by force
  have d: "decide rx e flow = \<lparr>d_action = m_action m, d_rule_id = Some (m_rule_id m), d_reason = l\<rparr>"
    by (simp add: decide_scan Some lm)
  have "(l, m) \<in> set (candidates rx e flow)" using pipeline.scan_mem [OF Some] lm by simp
  from candidates_sound [OF assms this]
  obtain r where r: "r \<in> set (re_rules e)" "r_enabled r" "rule_applies rx (re_geo e) flow r" "m = from_rule r"
    by (auto simp: applies_some_def)
  have "\<forall>(l', m') \<in> set (candidates rx e flow). m_priority m' \<le> m_priority m"
    using pipeline.scan_Some [OF Some] lm by auto
  with r d show ?thesis by (auto simp: from_rule_def)
qed

definition demo_engine :: "string routing_engine" where
  "demo_engine = \<lparr>re_rules = demo_processes, re_index = projr (build_index regex_literal demo_processes),
     re_geo = geoip_empty, re_cfg = routing_config_default, re_paths = paths_with_root ''d''\<rparr>"

lemma demo_engine_ok: "engine_ok regex_literal demo_engine"
  using demo_processes_build by (auto simp: engine_ok_def demo_engine_def is_ok_iff)

lemma demo_engine_applies:
  "\<exists>r \<in> set demo_processes. r_enabled r
      \<and> rule_applies regex_literal geoip_empty (flow_default\<lparr>f_process_name := Some ''/opt/CHROME.exe''\<rparr>) r"
proof -
  have "process_key ''/opt/CHROME.exe'' = ''chrome.exe''" "to_ascii_lowercase ''chrome.exe'' = ''chrome.exe''"
    by code_simp+
  then show ?thesis
    by (simp add: demo_processes_def demo_rule_def rule_applies_def flow_default_def trim_id)
qed

theorem decide_sound_complete_witness:
  "d_rule_id (decide regex_literal demo_engine (flow_default\<lparr>f_process_name := Some ''/opt/CHROME.exe''\<rparr>)) \<noteq> None"
  using decide_sound_complete [OF demo_engine_ok, of "flow_default\<lparr>f_process_name := Some ''/opt/CHROME.exe''\<rparr>"]
    demo_engine_applies
  by (auto simp: demo_engine_def)

lemma engine_load_facts:
  assumes "engine_load rx de_rules de_cfg ps disk dir = Some (Inr e)"
  shows "engine_ok rx e" and "re_paths e = ps"
    and "\<exists>g. with_private = Some g \<and> re_geo e = load_dir g dir"
    and "re_rules e = read_json_or de_rules [] disk (rules_path ps)"
  using assms by (auto simp: engine_load_def Let_def engine_ok_def split: sum.splits option.splits)

text \<open>
  Out of the box, smart mode keeps local traffic off the proxy: on an engine loaded
  without country files, a flow to an IPv4 address that no rule applies to goes direct when
  the address is in a private range and through the proxy otherwise, whatever final action
  is configured.
\<close>

theorem smart_mode_private_direct:
  assumes "engine_load rx de_rules de_cfg ps disk None = Some (Inr e)"
    and "rc_mode (re_cfg e) = Smart" and "f_dst_ip flow = Some (V4 a)"
    and "\<forall>r \<in> set (re_rules e). r_enabled r \<longrightarrow> \<not> rule_applies rx (re_geo e) flow r"
  shows "decide rx e flow =
     (if in_private_v4 (unat a) then decision_direct ''private/lan'' else decision_proxy ''smart:international'')"
proof -
  note load = engine_load_facts [OF assms(1)]
  have "candidates rx e flow = []"
  proof (cases "candidates rx e flow")
    case (Cons lm rest)
    then have "(fst lm, snd lm) \<in> set (candidates rx e flow)" by simp
    from candidates_sound [OF load(1) this] assms(4) show ?thesis by (auto simp: applies_some_def)
  qed
  then have d: "decide rx e flow = mode_default e flow" by (simp add: decide_scan)
  obtain g where g: "with_private = Some g" "re_geo e = g"
    using load(3) by (auto simp: load_dir_def)
  have "geo_country g (V4 a) = (if in_private_v4 (unat a) then Some PRIVATE else None)"
    using g(1) by (rule with_private_country)
  with d g(2) assms(2,3) show ?thesis by (simp add: mode_default_def Let_def)
qed

theorem smart_mode_private_direct_witness:
  "\<exists>e. engine_load regex_literal (\<lambda>_. Inl []) (\<lambda>_. Inl []) (paths_with_root ''d'') Map.empty None = Some (Inr e)
     \<and> decide regex_literal e (flow_default\<lparr>f_dst_ip := Some (V4 0xC0A80101)\<rparr>) = decision_direct ''private/lan''"
proof -
  obtain e where e: "engine_load regex_literal (\<lambda>_. Inl []) (\<lambda>_. Inl []) (paths_with_root ''d'') Map.empty None
      = Some (Inr e)" "re_rules e = []" "rc_mode (re_cfg e) = Smart"
    by (simp add: engine_load_def with_private_entries build_index_def read_json_or_def read_json_def
        routing_config_default_def)
  have "in_private_v4 (unat (0xC0A80101 :: u32))" by (simp add: in_private_v4_def)
  with smart_mode_private_direct [OF e(1) e(3), of "flow_default\<lparr>f_dst_ip := Some (V4 0xC0A80101)\<rparr>" "0xC0A80101"] e
  show ?thesis by (simp add: flow_default_def)
qed

section \<open>Runs of the engine\<close>

text \<open>One operation of the engine, under any outcome of its system calls.\<close>

inductive engine_step ::
  "'r regex_crate \<Rightarrow> rules_json \<Rightarrow> 'r engine_state \<Rightarrow> 'r engine_state \<Rightarrow> bool" for rx js where
  step_add: "engine_step rx js s (fst (add_rule rx js io uuid s r))"
| step_update: "engine_step rx js s (fst (update_rule rx js io s r))"
| step_delete: "engine_step rx js s (fst (delete_rule rx js io s i))"
| step_mode: "engine_step rx js s (fst (set_mode js io s m))"
| step_config: "engine_step rx js s (fst (set_config js io s c))"

inductive_cases engine_step_cases: "engine_step rx js s t"

definition engine_inv :: "'r regex_crate \<Rightarrow> rules_json \<Rightarrow> paths \<Rightarrow> fs \<Rightarrow> rule list \<Rightarrow> 'r engine_state \<Rightarrow> bool" where
  "engine_inv rx js ps disk0 rules0 s \<longleftrightarrow>
     engine_ok rx (fst s) \<and> re_paths (fst s) = ps
   \<and> (snd s (rules_path ps) = Some (rj_rules js (re_rules (fst s)))
      \<or> (snd s (rules_path ps) = disk0 (rules_path ps) \<and> re_rules (fst s) = rules0))"

lemma commit_inv [inv_intros]:
  assumes "engine_inv rx js ps disk0 rules0 s"
  shows "engine_inv rx js ps disk0 rules0 (fst (commit rx js io s rules))"
proof -
  have ext: "file_extension (snd (rules_path q)) \<noteq> Some ''tmp''" for q by (simp add: rules_path_def)
  show ?thesis
    using assms
    by (cases s)
      (auto simp: commit_def engine_inv_def engine_ok_def
        dest: atomic_write_ok [OF ext] atomic_write_err [OF ext] split: sum.splits prod.splits)
qed

lemma commit_outcome:
  "case commit rx js io s rules of (s', r) \<Rightarrow>
     if is_ok r then engine_ok rx (fst s') \<and> re_rules (fst s') = rules
     else fst s' = fst s \<and> snd s' (rules_path (re_paths (fst s))) = snd s (rules_path (re_paths (fst s)))"
proof -
  have ext: "file_extension (snd (rules_path q)) \<noteq> Some ''tmp''" for q by (simp add: rules_path_def)
  show ?thesis
    by (cases s) (auto simp: commit_def engine_ok_def dest: atomic_write_err [OF ext]
        split: sum.splits prod.splits)
qed

lemma persist_config_inv [inv_intros]:
  assumes "engine_inv rx js ps disk0 rules0 s"
  shows "engine_inv rx js ps disk0 rules0 (fst (persist_config js io s))"
proof -
  have "rules_path ps \<noteq> routing_config_path ps" "rules_path ps \<noteq> tmp_path (routing_config_path ps)"
    by (auto simp: rules_path_def routing_config_path_def tmp_path_def file_stem_def split_file_at_dot_def
        rsplit_once_def split_once_def)
  with assms show ?thesis
    by (cases s) (auto simp: persist_config_def engine_inv_def dest: atomic_write_other split: prod.splits)
qed

lemma engine_step_inv:
  "engine_step rx js s t \<Longrightarrow> engine_inv rx js ps disk0 rules0 s \<Longrightarrow> engine_inv rx js ps disk0 rules0 t"
proof (induction rule: engine_step.induct)
  case (step_add s io uuid r)
  then show ?case
    using commit_inv [of rx js ps disk0 rules0 s io]
    by (auto simp: add_rule_def Let_def split: prod.splits sum.splits) (metis fst_conv)+
next
  case (step_update s io r)
  then show ?case by (auto simp: update_rule_def Let_def intro: commit_inv split: option.split)
next
  case (step_delete s io i)
  then show ?case by (auto simp: delete_rule_def intro: commit_inv)
next
  case (step_mode s io m)
  then show ?case
    by (cases s) (auto simp: set_mode_def engine_inv_def engine_ok_def intro!: persist_config_inv [unfolded engine_inv_def engine_ok_def])
next
  case (step_config s io c)
  then show ?case
    by (cases s) (auto simp: set_config_def engine_inv_def engine_ok_def intro!: persist_config_inv [unfolded engine_inv_def engine_ok_def])
qed



definition demo_json :: rules_json where
  "demo_json = \<lparr>rj_rules = (\<lambda>rs. nat_str (length rs)), rj_cfg = (\<lambda>c. mode_str (rc_mode c))\<rparr>"


text \<open>
  An edit of the rules that fails, be it an empty value, an unknown id, a rule that does
  not compile or a failed write, leaves the rules and the index in memory as they were, and
  the rules file too; an edit that succeeds publishes rules that all compiled.
\<close>

theorem failed_edit_changes_nothing:
  "(case add_rule rx js io uuid s rule of (s', r) \<Rightarrow>
      if is_ok r then engine_ok rx (fst s') \<and> re_rules (fst s') = re_rules (fst s) @ [projr r]
      else fst s' = fst s \<and> snd s' (rules_path (re_paths (fst s))) = snd s (rules_path (re_paths (fst s))))
 \<and> (case update_rule rx js io s rule of (s', r) \<Rightarrow>
      if is_ok r then engine_ok rx (fst s') \<and> rule \<in> set (re_rules (fst s'))
      else fst s' = fst s \<and> snd s' (rules_path (re_paths (fst s))) = snd s (rules_path (re_paths (fst s))))
 \<and> (case delete_rule rx js io s i of (s', r) \<Rightarrow>
      if is_ok r then engine_ok rx (fst s') \<and> i \<notin> r_id ` set (re_rules (fst s'))
      else fst s' = fst s \<and> snd s' (rules_path (re_paths (fst s))) = snd s (rules_path (re_paths (fst s))))"
proof -
  have c: "case commit rx js io s rules of (s', r) \<Rightarrow>
      if is_ok r then engine_ok rx (fst s') \<and> re_rules (fst s') = rules
      else fst s' = fst s \<and> snd s' (rules_path (re_paths (fst s))) = snd s (rules_path (re_paths (fst s)))" for rules
    by (rule commit_outcome)
  have pos: "rule_position k rs = Some p \<Longrightarrow> p < length rs" for k rs p
    by (induction rs arbitrary: p) (auto split: if_splits)
  show ?thesis
  proof (intro conjI)
    show "case add_rule rx js io uuid s rule of (s', r) \<Rightarrow>
      if is_ok r then engine_ok rx (fst s') \<and> re_rules (fst s') = re_rules (fst s) @ [projr r]
      else fst s' = fst s \<and> snd s' (rules_path (re_paths (fst s))) = snd s (rules_path (re_paths (fst s)))"
      unfolding add_rule_def Let_def
      using c [of "re_rules (fst s) @ [(if r_id rule = [] then rule\<lparr>r_id := ''rule_'' @ uuid\<rparr> else rule)\<lparr>r_priority := 1000\<rparr>]"]
      by (auto split: prod.splits sum.splits)
    show "case update_rule rx js io s rule of (s', r) \<Rightarrow>
      if is_ok r then engine_ok rx (fst s') \<and> rule \<in> set (re_rules (fst s'))
      else fst s' = fst s \<and> snd s' (rules_path (re_paths (fst s))) = snd s (rules_path (re_paths (fst s)))"
    proof (cases "rule_position (r_id rule) (re_rules (fst s))")
      case (Some p)
      with c [of "(re_rules (fst s))[p := rule]"] pos [OF Some] show ?thesis
        by (auto simp: update_rule_def intro: set_update_memI split: prod.splits if_splits)
    qed (simp add: update_rule_def)
    show "case delete_rule rx js io s i of (s', r) \<Rightarrow>
      if is_ok r then engine_ok rx (fst s') \<and> i \<notin> r_id ` set (re_rules (fst s'))
      else fst s' = fst s \<and> snd s' (rules_path (re_paths (fst s))) = snd s (rules_path (re_paths (fst s)))"
      using c [of "filter (\<lambda>r. r_id r \<noteq> i) (re_rules (fst s))"]
      by (auto simp: delete_rule_def split: prod.splits if_splits)
  qed
qed

end
