(* ===== verification/Conn_State.thy ===== *)
theory Conn_State
  imports Common
begin

text \<open>
  \<^verbatim>\<open>app/state.rs\<close>: the connection state machine and its store.  Every operation
  that writes the store emits a \<^verbatim>\<open>connection.stateChanged\<close> event; the events
  emitted so far are the field \<open>ss_bus\<close>, newest first.  The clock reading of
  \<^verbatim>\<open>now_millis()\<close> is the first argument of the operations that emit.
\<close>

datatype conn_state =
  Stopped | Initializing | Ready | Starting | Connecting | Connected | Reconnecting | Stopping | Error

fun state_str :: "conn_state \<Rightarrow> string" where
  "state_str Stopped = ''STOPPED''"
| "state_str Initializing = ''INITIALIZING''"
| "state_str Ready = ''READY''"
| "state_str Starting = ''STARTING''"
| "state_str Connecting = ''CONNECTING''"
| "state_str Connected = ''CONNECTED''"
| "state_str Reconnecting = ''RECONNECTING''"
| "state_str Stopping = ''STOPPING''"
| "state_str Error = ''ERROR''"

definition parse_state :: "string \<Rightarrow> conn_state" where
  "parse_state s =
     (if s = ''INITIALIZING'' then Initializing
      else if s = ''READY'' then Ready
      else if s = ''STARTING'' then Starting
      else if s = ''CONNECTING'' then Connecting
      else if s = ''CONNECTED'' then Connected
      else if s = ''RECONNECTING'' then Reconnecting
      else if s = ''STOPPING'' then Stopping
      else if s = ''ERROR'' then Error
      else Stopped)"

fun can_transition :: "conn_state \<Rightarrow> conn_state \<Rightarrow> bool" where
  "can_transition Stopped Starting = True"
| "can_transition Initializing Ready = True"
| "can_transition Initializing Error = True"
| "can_transition Ready Starting = True"
| "can_transition Starting Connecting = True"
| "can_transition Starting Error = True"
| "can_transition Starting Stopping = True"
| "can_transition Connecting Connected = True"
| "can_transition Connecting Reconnecting = True"
| "can_transition Connecting Error = True"
| "can_transition Connecting Stopping = True"
| "can_transition Connected Reconnecting = True"
| "can_transition Connected Stopping = True"
| "can_transition Connected Error = True"
| "can_transition Reconnecting Connected = True"
| "can_transition Reconnecting Error = True"
| "can_transition Reconnecting Stopping = True"
| "can_transition Stopping Starting = True"
| "can_transition Stopping Stopped = True"
| "can_transition Stopping Error = True"
| "can_transition Error Starting = True"
| "can_transition Error Stopped = True"
| "can_transition _ _ = False"

record conn_payload =
  cp_state :: string
  cp_node_id :: string
  cp_node_name :: string
  cp_mode :: string
  cp_latency_ms :: int
  cp_error_code :: string
  cp_error_message :: string
  cp_timestamp :: int

record state_store =
  ss_state :: conn_state
  ss_node_id :: string
  ss_node_name :: string
  ss_mode :: string
  ss_latency_ms :: int
  ss_error_code :: string
  ss_error_message :: string
  ss_bus :: "conn_payload list"

definition new_store :: state_store where
  "new_store = \<lparr>ss_state = Stopped, ss_node_id = [], ss_node_name = [], ss_mode = [],
     ss_latency_ms = 0, ss_error_code = [], ss_error_message = [], ss_bus = []\<rparr>"

definition snapshot_payload :: "int \<Rightarrow> state_store \<Rightarrow> conn_payload" where
  "snapshot_payload now g = \<lparr>cp_state = state_str (ss_state g), cp_node_id = ss_node_id g,
     cp_node_name = ss_node_name g, cp_mode = ss_mode g, cp_latency_ms = ss_latency_ms g,
     cp_error_code = ss_error_code g, cp_error_message = ss_error_message g, cp_timestamp = now\<rparr>"

definition emit_locked :: "int \<Rightarrow> state_store \<Rightarrow> state_store" where
  "emit_locked now g = g\<lparr>ss_bus := snapshot_payload now g # ss_bus g\<rparr>"

definition transition :: "int \<Rightarrow> conn_state \<Rightarrow> state_store \<Rightarrow> unit svc_result \<times> state_store" where
  "transition now to g =
     (let from = ss_state g
      in if from = to then (Inr (), g)
         else if \<not> can_transition from to
         then (Inl (InvalidState (state_str from) (state_str to)), g)
         else
           let g1 = g\<lparr>ss_state := to\<rparr>;
               g2 = (if to = Connected \<or> to = Ready
                     then g1\<lparr>ss_error_code := [], ss_error_message := []\<rparr> else g1)
           in (Inr (), emit_locked now g2))"

definition set_context ::
  "int \<Rightarrow> conn_state \<Rightarrow> string \<Rightarrow> string \<Rightarrow> string \<Rightarrow> state_store \<Rightarrow> unit svc_result \<times> state_store" where
  "set_context now to node_id node_name mode g =
     (let from = ss_state g
      in if from \<noteq> to \<and> \<not> can_transition from to
         then (Inl (InvalidState (state_str from) (state_str to)), g)
         else (Inr (), emit_locked now
                 (g\<lparr>ss_state := to, ss_node_id := node_id, ss_node_name := node_name, ss_mode := mode\<rparr>)))"

definition set_latency :: "int \<Rightarrow> int \<Rightarrow> state_store \<Rightarrow> state_store" where
  "set_latency now ms g = emit_locked now (g\<lparr>ss_latency_ms := ms\<rparr>)"

definition fail_state :: "int \<Rightarrow> conn_state \<Rightarrow> string \<Rightarrow> string \<Rightarrow> state_store \<Rightarrow> state_store" where
  "fail_state now to code message g =
     emit_locked now (g\<lparr>ss_state := to, ss_error_code := code, ss_error_message := message\<rparr>)"

section \<open>Single operations\<close>

lemma parse_state_str [simp]: "parse_state (state_str s) = s"
  by (cases s) (simp_all add: parse_state_def)

lemma emit_locked_simps [simp]:
  "ss_state (emit_locked now g) = ss_state g"
  "ss_node_id (emit_locked now g) = ss_node_id g"
  "ss_node_name (emit_locked now g) = ss_node_name g"
  "ss_mode (emit_locked now g) = ss_mode g"
  "ss_latency_ms (emit_locked now g) = ss_latency_ms g"
  "ss_error_code (emit_locked now g) = ss_error_code g"
  "ss_error_message (emit_locked now g) = ss_error_message g"
  "ss_bus (emit_locked now g) = snapshot_payload now g # ss_bus g"
  by (simp_all add: emit_locked_def)

lemma transition_ok_iff:
  "is_ok (fst (transition now to g)) \<longleftrightarrow> ss_state g = to \<or> can_transition (ss_state g) to"
  by (simp add: transition_def Let_def)

lemma transition_state:
  "ss_state (snd (transition now to g)) = (if is_ok (fst (transition now to g)) then to else ss_state g)"
  by (simp add: transition_def Let_def)

lemma transition_err: "fst (transition now to g) = Inl e \<Longrightarrow> snd (transition now to g) = g"
  by (auto simp: transition_def Let_def split: if_splits)

lemma set_context_ok_iff:
  "is_ok (fst (set_context now to i n m g)) \<longleftrightarrow> ss_state g = to \<or> can_transition (ss_state g) to"
  by (auto simp: set_context_def Let_def)

lemma set_context_err:
  "fst (set_context now to i n m g) = Inl e \<Longrightarrow> snd (set_context now to i n m g) = g"
  by (auto simp: set_context_def Let_def split: if_splits)

lemma transition_eq:
  "can_transition (ss_state g) to \<Longrightarrow> ss_state g \<noteq> to \<Longrightarrow>
   transition now to g = (Inr (), emit_locked now
     (if to = Connected \<or> to = Ready
      then g\<lparr>ss_state := to, ss_error_code := [], ss_error_message := []\<rparr> else g\<lparr>ss_state := to\<rparr>))"
  by (simp add: transition_def Let_def)

section \<open>Runs of the store\<close>

text \<open>
  What a caller can do to the store.  \<^verbatim>\<open>fail\<close> is called with the target \<open>Error\<close>
  everywhere in the service (\<^verbatim>\<open>abort_start\<close> and \<^verbatim>\<open>recover\<close>), so the relation has it
  with that target only.
\<close>

inductive store_step :: "state_store \<Rightarrow> state_store \<Rightarrow> bool" where
  do_transition: "store_step g (snd (transition now to g))"
| do_set_context: "store_step g (snd (set_context now to i n m g))"
| do_set_latency: "store_step g (set_latency now ms g)"
| do_fail: "store_step g (fail_state now Error code msg g)"

inductive store_reachable :: "state_store \<Rightarrow> bool" where
  store_init: "store_reachable new_store"
| store_more: "store_reachable g \<Longrightarrow> store_step g g' \<Longrightarrow> store_reachable g'"

inductive_cases store_stepE: "store_step g g'"

lemma store_step_edge:
  "store_step g g' \<Longrightarrow>
     ss_state g' = ss_state g \<or> can_transition (ss_state g) (ss_state g') \<or> ss_state g' = Error"
  by (erule store_stepE)
     (auto simp: transition_def set_context_def set_latency_def fail_state_def Let_def)

text \<open>The newest event shows the store as it is.\<close>

definition bus_in_sync :: "state_store \<Rightarrow> bool" where
  "bus_in_sync g \<longleftrightarrow>
     (case ss_bus g of [] \<Rightarrow> g = new_store | p # _ \<Rightarrow> p = snapshot_payload (cp_timestamp p) g)"

lemma bus_in_sync_emit [inv_intros]: "bus_in_sync (emit_locked now g)"
  by (simp add: bus_in_sync_def snapshot_payload_def)

lemma bus_in_sync_step: "store_step g g' \<Longrightarrow> bus_in_sync g \<Longrightarrow> bus_in_sync g'"
  by (erule store_stepE)
     (auto simp: transition_def set_context_def set_latency_def fail_state_def Let_def
           intro!: inv_intros)

lemma no_edge_to_initializing: "\<not> can_transition s Initializing"
  by (cases s) simp_all

lemma edge_to_ready: "can_transition s Ready \<Longrightarrow> s = Initializing"
  by (cases s) simp_all

definition live_state :: "conn_state \<Rightarrow> bool" where
  "live_state s \<longleftrightarrow> s \<noteq> Initializing \<and> s \<noteq> Ready"

lemma live_state_step:
  "store_step g g' \<Longrightarrow> live_state (ss_state g) \<Longrightarrow> live_state (ss_state g')"
  using store_step_edge [of g g'] no_edge_to_initializing edge_to_ready
  by (fastforce simp: live_state_def)

text \<open>
  C8. along any run of the store from its initial value, each operation moves the
  state along an edge of the transition table, leaves it, or fails into \<open>Error\<close>;
  the two states that no operation of the service enters stay unreached; and the newest
  \<^verbatim>\<open>connection.stateChanged\<close> event shows exactly the stored fields.
\<close>

theorem store_runs_are_legal:
  assumes "store_reachable g"
  shows "live_state (ss_state g) \<and> bus_in_sync g
     \<and> (\<forall>g'. store_step g g' \<longrightarrow>
          ss_state g' = ss_state g \<or> can_transition (ss_state g) (ss_state g') \<or> ss_state g' = Error)"
proof -
  from assms have "live_state (ss_state g) \<and> bus_in_sync g"
  proof (induction rule: store_reachable.induct)
    case store_init
    show ?case by (simp add: live_state_def bus_in_sync_def new_store_def)
  next
    case (store_more g g')
    then show ?case using live_state_step bus_in_sync_step by blast
  qed
  then show ?thesis using store_step_edge by blast
qed

theorem store_runs_are_legal_witness:
  "live_state (ss_state (snd (transition 7 Starting new_store)))"
  using store_runs_are_legal [OF store_more [OF store_init do_transition [of _ 7 Starting]]]
  by blast

text \<open>
  C26. no state is a dead end: from every state of the table there is a chain of legal
  transitions to \<open>Connected\<close>, and one to \<open>Stopped\<close>.
\<close>

theorem no_dead_end:
  "can_transition\<^sup>*\<^sup>* s Connected \<and> can_transition\<^sup>*\<^sup>* s Stopped"
proof -
  have e: "can_transition Starting Connecting" "can_transition Connecting Connected"
    "can_transition Connected Stopping" "can_transition Stopping Stopped"
    "can_transition Stopped Starting" "can_transition Stopping Starting" "can_transition Error Starting"
    "can_transition Ready Starting" "can_transition Initializing Ready"
    "can_transition Reconnecting Connected"
    by simp_all
  have c: "can_transition\<^sup>*\<^sup>* Connected Connected" "can_transition\<^sup>*\<^sup>* Connecting Connected"
    "can_transition\<^sup>*\<^sup>* Starting Connected"
    using e by (blast intro: converse_rtranclp_into_rtranclp)+
  have "can_transition\<^sup>*\<^sup>* Starting Connected \<Longrightarrow> can_transition\<^sup>*\<^sup>* s Connected"
    using e by (cases s) (blast intro: converse_rtranclp_into_rtranclp)+
  with c have *: "can_transition\<^sup>*\<^sup>* s Connected" by blast
  have "can_transition\<^sup>*\<^sup>* Connected Stopped"
    using e by (blast intro: converse_rtranclp_into_rtranclp)
  with * show ?thesis by (blast intro: rtranclp_trans)
qed

end
