(* ===== verification/Proxy_Route.thy ===== *)
theory Proxy_Route
  imports Config
begin

text \<open>
  \<^verbatim>\<open>route/manager.rs\<close> and \<^verbatim>\<open>route/bypass.rs\<close>: the system proxy in the registry,
  with the snapshot of the user's settings kept in memory and in a backup file.  The
  registry key is its three values, absent when they were never set.  Every call into the
  registry or the disk may fail: which ones do is an argument, \<open>route_env\<close>.
\<close>

section \<open>Bypass lists\<close>

definition PRIVATE_BYPASS :: string where
  "PRIVATE_BYPASS =
     ''localhost;127.*;10.*;172.16.*;172.17.*;172.18.*;172.19.*;172.20.*;172.21.*;172.22.*;172.23.*;172.24.*;172.25.*;172.26.*;172.27.*;172.28.*;172.29.*;172.30.*;172.31.*;192.168.*;<local>''"

definition default_bypass :: string where
  "default_bypass = PRIVATE_BYPASS"

definition bypass_with_server :: "string \<Rightarrow> string" where
  "bypass_with_server host = (if host = [] then default_bypass else PRIVATE_BYPASS @ '';'' @ host)"

section \<open>The registry\<close>

record saved_proxy =
  sp_proxy :: string
  sp_bypass :: string
  sp_direct :: bool

record registry =
  rg_enable :: "u32 option"
  rg_server :: "string option"
  rg_override :: "string option"

text \<open>
  The outcome of one \<^verbatim>\<open>apply_proxy\<close>: the number of calls that succeed before one fails,
  if one does (0: opening the key).
\<close>

type_synonym apply_fault = "nat option"

definition fails_at :: "apply_fault \<Rightarrow> nat \<Rightarrow> bool" where
  "fails_at f k \<longleftrightarrow> f = Some k"

definition query_proxy :: "bool \<Rightarrow> registry \<Rightarrow> saved_proxy" where
  \<comment> \<open>the flag says that the key cannot be opened for reading\<close>
  "query_proxy unreadable reg =
     (if unreadable then \<lparr>sp_proxy = [], sp_bypass = [], sp_direct = True\<rparr>
      else \<lparr>sp_proxy = (case rg_server reg of None \<Rightarrow> [] | Some s \<Rightarrow> s),
            sp_bypass = (case rg_override reg of None \<Rightarrow> [] | Some s \<Rightarrow> s),
            sp_direct = ((case rg_enable reg of None \<Rightarrow> 0 | Some e \<Rightarrow> e) \<noteq> 1)\<rparr>)"

definition apply_proxy :: "apply_fault \<Rightarrow> registry \<Rightarrow> (string \<times> string) option \<Rightarrow> registry \<times> (svc_error + unit)" where
  "apply_proxy f reg spec =
     (if fails_at f 0 then (reg, Inl (Route ''open Internet Settings key failed''))
      else case spec of
        Some (proxy, bypass) \<Rightarrow>
          if fails_at f 1 then (reg, Inl (Route ''set ProxyEnable failed''))
          else
            (let reg = reg\<lparr>rg_enable := Some 1\<rparr>
             in if fails_at f 2 then (reg, Inl (Route ''set ProxyServer failed''))
                else
                  (let reg = reg\<lparr>rg_server := Some proxy\<rparr>
                   in if fails_at f 3 then (reg, Inl (Route ''set ProxyOverride failed''))
                      else (reg\<lparr>rg_override := Some bypass\<rparr>, Inr ())))
      | None \<Rightarrow>
          if fails_at f 1 then (reg, Inl (Route ''clear ProxyEnable failed''))
          else (reg\<lparr>rg_enable := Some 0\<rparr>, Inr ()))"

section \<open>The manager\<close>

definition references_endpoint :: "string \<Rightarrow> string \<Rightarrow> bool" where
  "references_endpoint spec host_port \<longleftrightarrow>
     (\<exists>part \<in> set (map trim (split_on (CHR '';'') spec)).
        part = host_port \<or> part = ''http='' @ host_port \<or> part = ''https='' @ host_port
        \<or> part = ''socks='' @ host_port)"

record proxy_json =
  pj_ser :: "saved_proxy \<Rightarrow> string"
  pj_de :: "string \<Rightarrow> saved_proxy option"

record route_state =
  rt_saved :: "saved_proxy option"
  rt_backup_path :: fs_path
  rt_disk :: fs
  rt_reg :: registry

record route_env =
  re_apply1 :: apply_fault
  re_apply2 :: apply_fault
  re_unreadable :: bool
  re_backup_unreadable :: bool
  re_io :: write_io
  re_remove_fails :: bool

definition env_good :: route_env where
  "env_good = \<lparr>re_apply1 = None, re_apply2 = None, re_unreadable = False,
     re_backup_unreadable = False, re_io = io_good, re_remove_fails = False\<rparr>"

definition route_new :: "string \<Rightarrow> fs \<Rightarrow> registry \<Rightarrow> route_state" where
  "route_new data_root disk reg =
     \<lparr>rt_saved = None, rt_backup_path = (data_root, ''proxy_backup.json''), rt_disk = disk, rt_reg = reg\<rparr>"

definition is_active :: "route_state \<Rightarrow> bool" where
  "is_active s \<longleftrightarrow> rt_saved s \<noteq> None"

definition load_backup :: "proxy_json \<Rightarrow> route_env \<Rightarrow> route_state \<Rightarrow> saved_proxy option" where
  "load_backup js env s =
     (if re_backup_unreadable env then None
      else case rt_disk s (rt_backup_path s) of None \<Rightarrow> None | Some raw \<Rightarrow> pj_de js raw)"

definition store_backup :: "proxy_json \<Rightarrow> route_env \<Rightarrow> route_state \<Rightarrow> saved_proxy \<Rightarrow> route_state" where
  "store_backup js env s saved =
     s\<lparr>rt_disk := fst (atomic_write (re_io env) (rt_disk s) (rt_backup_path s) (pj_ser js saved))\<rparr>"

definition drop_backup :: "route_env \<Rightarrow> route_state \<Rightarrow> route_state" where
  "drop_backup env s =
     (if re_remove_fails env then s else s\<lparr>rt_disk := (rt_disk s)(rt_backup_path s := None)\<rparr>)"

definition prime_from_backup :: "proxy_json \<Rightarrow> route_env \<Rightarrow> route_state \<Rightarrow> route_state \<times> bool" where
  "prime_from_backup js env s =
     (case load_backup js env s of
        Some saved \<Rightarrow> (s\<lparr>rt_saved := Some saved\<rparr>, True)
      | None \<Rightarrow> (s, False))"

text \<open>
  The registry writes that put a snapshot back; the same closure in
  \<^verbatim>\<open>restore_after_crash\<close> and in \<^verbatim>\<open>clear_system_proxy\<close>.
\<close>

definition write_back :: "route_env \<Rightarrow> registry \<Rightarrow> saved_proxy \<Rightarrow> registry \<times> (svc_error + unit)" where
  "write_back env reg saved =
     (if sp_direct saved then
        (if sp_proxy saved \<noteq> [] \<or> sp_bypass saved \<noteq> [] then
           (case apply_proxy (re_apply1 env) reg (Some (sp_proxy saved, sp_bypass saved)) of
              (reg, Inl e) \<Rightarrow> (reg, Inl e)
            | (reg, Inr _) \<Rightarrow> apply_proxy (re_apply2 env) reg None)
         else apply_proxy (re_apply2 env) reg None)
      else apply_proxy (re_apply1 env) reg (Some (sp_proxy saved, sp_bypass saved)))"

definition local_endpoint :: "u16 \<Rightarrow> string" where
  "local_endpoint port = ''127.0.0.1:'' @ nat_str (unat port)"

definition restore_after_crash :: "proxy_json \<Rightarrow> route_env \<Rightarrow> route_state \<Rightarrow> u16 \<Rightarrow> route_state \<times> bool" where
  "restore_after_crash js env s port =
     (case load_backup js env s of
        Some saved \<Rightarrow>
          (case write_back env (rt_reg s) saved of
             (reg, _) \<Rightarrow> (drop_backup env (s\<lparr>rt_reg := reg\<rparr>), True))
      | None \<Rightarrow>
          (let current = query_proxy (re_unreadable env) (rt_reg s)
           in if \<not> sp_direct current \<and> references_endpoint (sp_proxy current) (local_endpoint port)
              then (s\<lparr>rt_reg := fst (apply_proxy (re_apply1 env) (rt_reg s) None)\<rparr>, True)
              else (s, False)))"

definition proxy_spec :: "string \<Rightarrow> string" where
  "proxy_spec host_port = ''http='' @ host_port @ '';https='' @ host_port"

definition ensure_proxy_applied :: "route_env \<Rightarrow> route_state \<Rightarrow> string \<Rightarrow> string \<Rightarrow> route_state" where
  "ensure_proxy_applied env s host_port bypass =
     (let expected = proxy_spec host_port; current = query_proxy (re_unreadable env) (rt_reg s)
      in if sp_direct current \<or> sp_proxy current \<noteq> expected
         then s\<lparr>rt_reg := fst (apply_proxy (re_apply1 env) (rt_reg s) (Some (expected, bypass)))\<rparr>
         else s)"

text \<open>The snapshot to remember: the live settings, unless they are our own.\<close>

definition baseline :: "bool \<Rightarrow> registry \<Rightarrow> string \<Rightarrow> saved_proxy" where
  "baseline unreadable reg host_port =
     (let previous = query_proxy unreadable reg
      in if \<not> sp_direct previous \<and> references_endpoint (sp_proxy previous) host_port
         then \<lparr>sp_proxy = [], sp_bypass = [], sp_direct = True\<rparr> else previous)"

definition set_system_proxy ::
  "proxy_json \<Rightarrow> route_env \<Rightarrow> route_state \<Rightarrow> string \<Rightarrow> string \<Rightarrow> route_state \<times> (svc_error + unit)" where
  "set_system_proxy js env s host_port bypass =
     (if rt_saved s \<noteq> None then (s, Inr ())
      else
        (let previous = baseline (re_unreadable env) (rt_reg s) host_port
         in case apply_proxy (re_apply1 env) (rt_reg s) (Some (proxy_spec host_port, bypass)) of
              (reg, Inl e) \<Rightarrow> (s\<lparr>rt_reg := reg\<rparr>, Inl e)
            | (reg, Inr _) \<Rightarrow>
                (store_backup js env (s\<lparr>rt_reg := reg, rt_saved := Some previous\<rparr>) previous, Inr ())))"

definition clear_system_proxy :: "route_env \<Rightarrow> route_state \<Rightarrow> route_state" where
  "clear_system_proxy env s =
     (case rt_saved s of
        None \<Rightarrow> s
      | Some saved \<Rightarrow>
          (let s = s\<lparr>rt_saved := None\<rparr>
           in case write_back env (rt_reg s) saved of
                (reg, Inr _) \<Rightarrow> drop_backup env (s\<lparr>rt_reg := reg\<rparr>)
              | (reg, Inl _) \<Rightarrow> s\<lparr>rt_reg := reg\<rparr>))"

section \<open>What the machine uses\<close>

text \<open>The proxy in force: server and bypass when enabled, none otherwise.\<close>

definition effective :: "registry \<Rightarrow> (string \<times> string) option" where
  "effective reg =
     (let q = query_proxy False reg in if sp_direct q then None else Some (sp_proxy q, sp_bypass q))"

definition snapshot_effect :: "saved_proxy \<Rightarrow> (string \<times> string) option" where
  "snapshot_effect sp = (if sp_direct sp then None else Some (sp_proxy sp, sp_bypass sp))"

definition dangling :: "string \<Rightarrow> registry \<Rightarrow> bool" where
  "dangling ep reg \<longleftrightarrow> (case effective reg of None \<Rightarrow> False | Some (p, _) \<Rightarrow> references_endpoint p ep)"

definition foreign :: "string \<Rightarrow> saved_proxy \<Rightarrow> bool" where
  "foreign ep sp \<longleftrightarrow> sp_direct sp \<or> \<not> references_endpoint (sp_proxy sp) ep"

lemma effective_on: "effective (reg\<lparr>rg_enable := Some 1, rg_server := Some p, rg_override := Some b\<rparr>) = Some (p, b)"
  by (simp add: effective_def query_proxy_def)

lemma effective_off: "effective (reg\<lparr>rg_enable := Some 0\<rparr>) = None"
  by (simp add: effective_def query_proxy_def)

lemma effective_query: "effective reg = snapshot_effect (query_proxy False reg)"
  by (simp add: effective_def snapshot_effect_def Let_def)

lemma apply_proxy_ok:
  "apply_proxy f reg (Some (p, b)) = (reg', Inr u) \<Longrightarrow> effective reg' = Some (p, b)"
  "apply_proxy f reg None = (reg', Inr u) \<Longrightarrow> effective reg' = None"
  by (auto simp: apply_proxy_def Let_def effective_on effective_off split: if_splits)

lemma write_back_ok:
  "write_back env reg saved = (reg', Inr u) \<Longrightarrow> effective reg' = snapshot_effect saved"
  by (auto simp: write_back_def snapshot_effect_def dest: apply_proxy_ok split: if_splits prod.splits sum.splits)

lemma write_back_good: "\<exists>reg'. write_back env_good reg saved = (reg', Inr ())"
  by (auto simp: write_back_def env_good_def apply_proxy_def fails_at_def Let_def)

lemma foreign_not_dangling:
  "effective reg = snapshot_effect sp \<Longrightarrow> foreign ep sp \<Longrightarrow> \<not> dangling ep reg"
  by (auto simp: dangling_def snapshot_effect_def foreign_def)

section \<open>Connecting and disconnecting\<close>

lemma backup_ext [simp]: "file_extension ''proxy_backup.json'' = Some ''json''"
  by (simp add: file_extension_def split_file_at_dot_def rsplit_once_def split_once_def)

lemma baseline_foreign: "foreign ep (baseline unreadable reg ep)"
  by (simp add: baseline_def Let_def foreign_def)

lemma baseline_effect:
  "snapshot_effect (baseline False reg ep) = (if dangling ep reg then None else effective reg)"
  by (auto simp: baseline_def Let_def snapshot_effect_def dangling_def effective_def)

lemma set_system_proxy_ok:
  assumes "rt_saved s = None" and "set_system_proxy js env s ep bypass = (s', Inr u)"
  shows "effective (rt_reg s') = Some (proxy_spec ep, bypass)"
    and "\<exists>sp. rt_saved s' = Some sp \<and> foreign ep sp
       \<and> (\<not> re_unreadable env \<longrightarrow> snapshot_effect sp = (if dangling ep (rt_reg s) then None else effective (rt_reg s)))
       \<and> rt_disk s' = fst (atomic_write (re_io env) (rt_disk s) (rt_backup_path s) (pj_ser js sp))
       \<and> rt_backup_path s' = rt_backup_path s"
proof -
  let ?sp = "baseline (re_unreadable env) (rt_reg s) ep"
  from assms obtain reg u' where reg: "apply_proxy (re_apply1 env) (rt_reg s) (Some (proxy_spec ep, bypass)) = (reg, Inr u')"
    and s': "s' = store_backup js env (s\<lparr>rt_reg := reg, rt_saved := Some ?sp\<rparr>) ?sp"
    by (auto simp: set_system_proxy_def Let_def split: prod.splits sum.splits)
  from apply_proxy_ok(1) [OF reg] s' show "effective (rt_reg s') = Some (proxy_spec ep, bypass)"
    by (simp add: store_backup_def)
  show "\<exists>sp. rt_saved s' = Some sp \<and> foreign ep sp
       \<and> (\<not> re_unreadable env \<longrightarrow> snapshot_effect sp = (if dangling ep (rt_reg s) then None else effective (rt_reg s)))
       \<and> rt_disk s' = fst (atomic_write (re_io env) (rt_disk s) (rt_backup_path s) (pj_ser js sp))
       \<and> rt_backup_path s' = rt_backup_path s"
    by (rule exI [of _ ?sp]) (simp add: s' store_backup_def baseline_foreign baseline_effect)
qed

lemma clear_system_proxy_good:
  assumes "rt_saved s = Some sp"
  shows "effective (rt_reg (clear_system_proxy env_good s)) = snapshot_effect sp"
    and "rt_saved (clear_system_proxy env_good s) = None"
    and "rt_disk (clear_system_proxy env_good s) (rt_backup_path s) = None"
proof -
  obtain reg' where w: "write_back env_good (rt_reg s) sp = (reg', Inr ())"
    using write_back_good by blast
  from write_back_ok [OF w] have "effective reg' = snapshot_effect sp" .
  with w assms show "effective (rt_reg (clear_system_proxy env_good s)) = snapshot_effect sp"
    "rt_saved (clear_system_proxy env_good s) = None"
    "rt_disk (clear_system_proxy env_good s) (rt_backup_path s) = None"
    by (auto simp: clear_system_proxy_def Let_def drop_backup_def env_good_def)
qed

text \<open>
  A session leaves the machine as it found it.  Connecting points the system at the
  local inbound; a second connect changes nothing; disconnecting brings back exactly the
  proxy that was in force before, or none when the one in force was a leftover of our own,
  and removes the backup.
\<close>

theorem session_restores_proxy:
  assumes "rt_saved s = None" "\<not> re_unreadable env"
    and "set_system_proxy js env s ep bypass = (s1, Inr ())"
  shows "effective (rt_reg s1) = Some (proxy_spec ep, bypass)
       \<and> set_system_proxy js env' s1 ep' bypass' = (s1, Inr ())
       \<and> effective (rt_reg (clear_system_proxy env_good s1))
           = (if dangling ep (rt_reg s) then None else effective (rt_reg s))
       \<and> \<not> dangling ep (rt_reg (clear_system_proxy env_good s1))
       \<and> rt_disk (clear_system_proxy env_good s1) (rt_backup_path s) = None"
proof -
  from set_system_proxy_ok(2) [OF assms(1,3)] assms(2)
  obtain sp where sp: "rt_saved s1 = Some sp" "foreign ep sp" "rt_backup_path s1 = rt_backup_path s"
    "snapshot_effect sp = (if dangling ep (rt_reg s) then None else effective (rt_reg s))" by blast
  note clear = clear_system_proxy_good [OF sp(1)]
  have "set_system_proxy js env' s1 ep' bypass' = (s1, Inr ())" by (simp add: set_system_proxy_def sp(1))
  with set_system_proxy_ok(1) [OF assms(1,3)] clear sp foreign_not_dangling [OF clear(1) sp(2)]
  show ?thesis by simp
qed

definition demo_registry :: registry where
  "demo_registry = \<lparr>rg_enable = Some 1, rg_server = Some ''corp:3128'', rg_override = Some ''*.corp''\<rparr>"

definition demo_proxy_json :: proxy_json where
  "demo_proxy_json =
     \<lparr>pj_ser = (\<lambda>sp. (if sp_direct sp then ''d'' else ''p'') @ nat_str (length (sp_proxy sp))),
      pj_de = (\<lambda>raw. None)\<rparr>"

lemma demo_not_dangling: "effective demo_registry = Some (''corp:3128'', ''*.corp'')"
  "\<not> references_endpoint ''corp:3128'' ''127.0.0.1:2080''"
  by (simp_all add: effective_def query_proxy_def demo_registry_def references_endpoint_def trim_id)

theorem session_restores_proxy_witness:
  "effective (rt_reg (clear_system_proxy env_good
     (fst (set_system_proxy demo_proxy_json env_good (route_new ''d'' Map.empty demo_registry) ''127.0.0.1:2080'' default_bypass))))
   = Some (''corp:3128'', ''*.corp'')"
proof -
  let ?s = "route_new ''d'' Map.empty demo_registry"
  have set: "set_system_proxy demo_proxy_json env_good ?s ''127.0.0.1:2080'' default_bypass
      = (fst (set_system_proxy demo_proxy_json env_good ?s ''127.0.0.1:2080'' default_bypass), Inr ())"
    by (simp add: set_system_proxy_def route_new_def apply_proxy_def fails_at_def env_good_def Let_def)
  have s: "rt_saved ?s = None" "rt_reg ?s = demo_registry" by (simp_all add: route_new_def)
  have "\<not> dangling ''127.0.0.1:2080'' demo_registry"
    using demo_not_dangling by (simp add: dangling_def)
  with session_restores_proxy [OF s(1) _ set] demo_not_dangling(1) s(2) show ?thesis
    by (simp add: env_good_def)
qed


definition exact_proxy_json :: "saved_proxy \<Rightarrow> proxy_json" where
  "exact_proxy_json sp = \<lparr>pj_ser = (\<lambda>_. ''x''), pj_de = (\<lambda>_. Some sp)\<rparr>"


section \<open>Any history\<close>

text \<open>
  The operations in any order and with any faults, crashes that forget the memory, and a
  user who edits the proxy settings behind the service's back.
\<close>

inductive route_step :: "proxy_json \<Rightarrow> string \<Rightarrow> u16 \<Rightarrow> route_state \<Rightarrow> route_state \<Rightarrow> bool" for js ep port where
  route_set: "route_step js ep port s (fst (set_system_proxy js env s ep bypass))"
| route_clear: "route_step js ep port s (clear_system_proxy env s)"
| route_prime: "route_step js ep port s (fst (prime_from_backup js env s))"
| route_restore: "route_step js ep port s (fst (restore_after_crash js env s port))"
| route_ensure: "route_step js ep port s (ensure_proxy_applied env s ep bypass)"
| route_crash: "route_step js ep port s (s\<lparr>rt_saved := None\<rparr>)"
| route_user: "route_step js ep port s (s\<lparr>rt_reg := reg\<rparr>)"

inductive_simps route_step_simps: "route_step js ep port s t"

definition snapshots_foreign :: "proxy_json \<Rightarrow> string \<Rightarrow> route_state \<Rightarrow> bool" where
  "snapshots_foreign js ep s \<longleftrightarrow>
     snd (rt_backup_path s) = ''proxy_backup.json''
   \<and> (\<forall>sp. rt_saved s = Some sp \<longrightarrow> foreign ep sp)
   \<and> (\<forall>raw sp. rt_disk s (rt_backup_path s) = Some raw \<longrightarrow> pj_de js raw = Some sp \<longrightarrow> foreign ep sp)"

lemma store_backup_foreign:
  assumes "snapshots_foreign js ep s" "foreign ep sp" "\<And>x. pj_de js (pj_ser js x) = Some x"
  shows "snapshots_foreign js ep (store_backup js env s sp)"
proof -
  have ext: "file_extension (snd (rt_backup_path s)) \<noteq> Some ''tmp''"
    using assms(1) by (simp add: snapshots_foreign_def)
  obtain d r where w: "atomic_write (re_io env) (rt_disk s) (rt_backup_path s) (pj_ser js sp) = (d, r)" by force
  have "d (rt_backup_path s) = Some (pj_ser js sp) \<or> d (rt_backup_path s) = rt_disk s (rt_backup_path s)"
    using w atomic_write_ok [OF ext] atomic_write_err [OF ext] by (cases r) auto
  with w assms show ?thesis by (auto simp: snapshots_foreign_def store_backup_def)
qed

lemma drop_backup_foreign: "snapshots_foreign js ep s \<Longrightarrow> snapshots_foreign js ep (drop_backup env s)"
  by (simp add: snapshots_foreign_def drop_backup_def)

lemma reg_foreign: "snapshots_foreign js ep s \<Longrightarrow> snapshots_foreign js ep (s\<lparr>rt_reg := reg\<rparr>)"
  by (simp add: snapshots_foreign_def)

lemma saved_foreign:
  "snapshots_foreign js ep s \<Longrightarrow> (\<And>x. sp = Some x \<Longrightarrow> foreign ep x) \<Longrightarrow> snapshots_foreign js ep (s\<lparr>rt_saved := sp\<rparr>)"
  by (simp add: snapshots_foreign_def)

lemma load_backup_foreign:
  "snapshots_foreign js ep s \<Longrightarrow> load_backup js env s = Some sp \<Longrightarrow> foreign ep sp"
  by (auto simp: snapshots_foreign_def load_backup_def split: if_splits option.splits)

lemma route_step_foreign:
  assumes law: "\<And>x. pj_de js (pj_ser js x) = Some x"
  shows "route_step js ep port s t \<Longrightarrow> snapshots_foreign js ep s \<Longrightarrow> snapshots_foreign js ep t"
proof (induction rule: route_step.induct)
  case (route_set s env bypass)
  have "snapshots_foreign js ep (s\<lparr>rt_reg := reg, rt_saved := Some (baseline b r ep)\<rparr>)" for reg b r
    using route_set by (intro saved_foreign reg_foreign) (auto simp: baseline_foreign)
  with route_set show ?case
    by (auto simp: set_system_proxy_def Let_def intro: store_backup_foreign baseline_foreign law reg_foreign
        split: prod.split sum.split)
next
  case (route_clear s env)
  have none: "snapshots_foreign js ep (s\<lparr>rt_saved := None, rt_reg := reg\<rparr>)" for reg
    using route_clear by (intro saved_foreign reg_foreign) auto
  then show ?case
    using route_clear by (auto simp: clear_system_proxy_def Let_def intro: drop_backup_foreign
        split: option.split prod.split sum.split)
next
  case (route_prime s env)
  then show ?case
    by (auto simp: prime_from_backup_def intro: saved_foreign load_backup_foreign split: option.split)
next
  case (route_restore s env)
  then show ?case
    by (auto simp: restore_after_crash_def Let_def intro: drop_backup_foreign reg_foreign
        split: option.split prod.split)
next
  case (route_ensure s env bypass)
  then show ?case by (auto simp: ensure_proxy_applied_def Let_def intro: reg_foreign)
next
  case (route_crash s)
  then show ?case by (intro saved_foreign) auto
next
  case (route_user s reg)
  then show ?case by (rule reg_foreign)
qed

lemma restore_no_dangle:
  assumes "snapshots_foreign js (local_endpoint port) s"
  shows "\<not> dangling (local_endpoint port) (rt_reg (fst (restore_after_crash js env_good s port)))"
proof (cases "load_backup js env_good s")
  case (Some sp)
  obtain reg' where w: "write_back env_good (rt_reg s) sp = (reg', Inr ())" using write_back_good by blast
  from foreign_not_dangling [OF write_back_ok [OF w] load_backup_foreign [OF assms Some]] Some w
  show ?thesis by (simp add: restore_after_crash_def drop_backup_def env_good_def)
next
  case None
  then show ?thesis
    by (auto simp: restore_after_crash_def Let_def env_good_def dangling_def effective_def
        apply_proxy_def fails_at_def query_proxy_def split: if_splits)
qed


text \<open>A faithful encoding of snapshots: the kind, the length of the proxy in unary, the strings.\<close>

definition unary_proxy_json :: proxy_json where
  "unary_proxy_json =
     \<lparr>pj_ser = (\<lambda>sp. (if sp_direct sp then CHR ''d'' else CHR ''p'')
         # replicate (length (sp_proxy sp)) (CHR ''a'') @ CHR ''b'' # sp_proxy sp @ sp_bypass sp),
      pj_de = (\<lambda>raw. case raw of
         [] \<Rightarrow> None
       | c # r \<Rightarrow>
           (let n = length (takeWhile (\<lambda>x. x = CHR ''a'') r); body = drop (n + 1) r
            in Some \<lparr>sp_proxy = take n body, sp_bypass = drop n body, sp_direct = (c = CHR ''d'')\<rparr>))\<rparr>"

lemma unary_proxy_json_law: "pj_de unary_proxy_json (pj_ser unary_proxy_json sp) = Some sp"
proof -
  have "takeWhile (\<lambda>x. x = CHR ''a'') (replicate n (CHR ''a'') @ CHR ''b'' # ys) = replicate n (CHR ''a'')" for n ys
    by (induction n) simp_all
  then show ?thesis by (cases sp) (simp add: unary_proxy_json_def Let_def)
qed


section \<open>Where settings are lost\<close>

definition apply_refused :: route_env where
  "apply_refused = env_good\<lparr>re_apply1 := Some 0\<rparr>"

text \<open>
  Recovery throws the backup away even when it could not restore: with a registry that
  refuses the write, recovery reports success, deletes the user's settings and leaves the
  proxy as it was, pointing at the dead port.
\<close>

theorem failed_recovery_drops_backup:
  assumes "rt_disk s (rt_backup_path s) = Some raw" "pj_de js raw = Some sp" "\<not> sp_direct sp"
  shows "case restore_after_crash js apply_refused s port of (s2, restored) \<Rightarrow>
           restored \<and> rt_reg s2 = rt_reg s \<and> rt_disk s2 (rt_backup_path s) = None"
  using assms
  by (simp add: restore_after_crash_def load_backup_def apply_refused_def env_good_def write_back_def
      apply_proxy_def fails_at_def drop_backup_def)

theorem failed_recovery_drops_backup_witness:
  "rt_disk (fst (restore_after_crash (exact_proxy_json (query_proxy False demo_registry)) apply_refused
     (route_new ''d'' [(''d'', ''proxy_backup.json'') \<mapsto> ''x''] demo_registry) 2080)) (''d'', ''proxy_backup.json'') = None"
proof -
  let ?s = "route_new ''d'' [(''d'', ''proxy_backup.json'') \<mapsto> ''x''] demo_registry"
  have "rt_disk ?s (rt_backup_path ?s) = Some ''x''" "rt_backup_path ?s = (''d'', ''proxy_backup.json'')"
    by (simp_all add: route_new_def)
  moreover have "pj_de (exact_proxy_json (query_proxy False demo_registry)) ''x'' = Some (query_proxy False demo_registry)"
    by (simp add: exact_proxy_json_def)
  moreover have "\<not> sp_direct (query_proxy False demo_registry)"
    by (simp add: query_proxy_def demo_registry_def)
  ultimately show ?thesis
    using failed_recovery_drops_backup [of ?s "''x''" "exact_proxy_json (query_proxy False demo_registry)"
        "query_proxy False demo_registry" 2080]
    by (auto split: prod.splits)
qed

end
