(* ===== verification/Json.thy ===== *)
theory Json
  imports Rust_Num "HOL-Library.Char_ord" "HOL-Library.List_Lexorder"
begin

text \<open>
  JSON values as the service handles them, \<^verbatim>\<open>serde_json::Value\<close>: a number is an
  integer or, for the others, the text it was written with; an object is a \<^verbatim>\<open>BTreeMap\<close>,
  a list of pairs in strictly increasing order of their keys.  Strings compare byte by byte.
\<close>

section \<open>Values\<close>

datatype json =
    JNull
  | JBool bool
  | JInt int
  | JFloat string
  | JStr string
  | JArr "json list"
  | JObj "(string \<times> json) list"

definition js_str :: "json \<Rightarrow> string option" where
  \<comment> \<open>\<^verbatim>\<open>Value::as_str\<close>\<close>
  "js_str v = (case v of JStr s \<Rightarrow> Some s | _ \<Rightarrow> None)"

definition js_get :: "json \<Rightarrow> string \<Rightarrow> json option" where
  \<comment> \<open>\<^verbatim>\<open>Value::get\<close> with a key: nothing on a value that is no object\<close>
  "js_get v k = (case v of JObj ps \<Rightarrow> map_of ps k | _ \<Rightarrow> None)"

definition js_at :: "json \<Rightarrow> string \<Rightarrow> json" where
  \<comment> \<open>\<^verbatim>\<open>value[key]\<close>: null when there is none\<close>
  "js_at v k = (case js_get v k of None \<Rightarrow> JNull | Some x \<Rightarrow> x)"

primrec obj_put :: "string \<Rightarrow> json \<Rightarrow> (string \<times> json) list \<Rightarrow> (string \<times> json) list" where
  "obj_put k v [] = [(k, v)]"
| "obj_put k v (p # ps) =
     (if k < fst p then (k, v) # p # ps
      else if k = fst p then (k, v) # ps
      else p # obj_put k v ps)"

definition js_insert :: "string \<Rightarrow> json \<Rightarrow> json \<Rightarrow> json" where
  "js_insert k v j = (case j of JObj ps \<Rightarrow> JObj (obj_put k v ps) | other \<Rightarrow> other)"

text \<open>An object literal: the pairs inserted one after the other.\<close>

definition js_object :: "(string \<times> json) list \<Rightarrow> json" where
  "js_object ps = JObj (foldl (\<lambda>m (k, v). obj_put k v m) [] ps)"

text \<open>The compact text of a value, \<^verbatim>\<open>Value::to_string\<close>.\<close>

definition js_escape_char :: "char \<Rightarrow> string" where
  "js_escape_char c =
     (let n = (of_char c :: nat)
      in if n = 34 then [CHR 0x5C, CHR 0x22]
         else if n = 92 then [CHR 0x5C, CHR 0x5C]
         else if n = 8 then [CHR 0x5C, CHR ''b'']
         else if n = 9 then [CHR 0x5C, CHR ''t'']
         else if n = 10 then [CHR 0x5C, CHR ''n'']
         else if n = 12 then [CHR 0x5C, CHR ''f'']
         else if n = 13 then [CHR 0x5C, CHR ''r'']
         else if n < 32 then CHR 0x5C # ''u'' @ pad_left (CHR ''0'') 4 (nat_str_radix 16 n)
         else [c])"

definition js_quote :: "string \<Rightarrow> string" where
  "js_quote s = CHR 0x22 # concat (map js_escape_char s) @ [CHR 0x22]"

definition int_str :: "int \<Rightarrow> string" where
  "int_str i = (if i < 0 then CHR ''-'' # nat_str (nat (- i)) else nat_str (nat i))"

fun js_text :: "json \<Rightarrow> string" and js_items :: "json list \<Rightarrow> string"
  and js_members :: "(string \<times> json) list \<Rightarrow> string" where
  "js_text JNull = ''null''"
| "js_text (JBool b) = (if b then ''true'' else ''false'')"
| "js_text (JInt i) = int_str i"
| "js_text (JFloat t) = t"
| "js_text (JStr s) = js_quote s"
| "js_text (JArr vs) = CHR ''['' # js_items vs @ '']''"
| "js_text (JObj ps) = CHR 0x7B # js_members ps @ [CHR 0x7D]"
| "js_items [] = []"
| "js_items (v # vs) = js_text v @ (if vs = [] then [] else CHR '','' # js_items vs)"
| "js_members [] = []"
| "js_members ((k, v) # ps) =
     js_quote k @ CHR '':'' # js_text v @ (if ps = [] then [] else CHR '','' # js_members ps)"

section \<open>Laws\<close>

lemma obj_put_same [simp]: "sorted (map fst ps) \<Longrightarrow> map_of (obj_put k v ps) k = Some v"
  by (induction ps) auto

lemma obj_put_map_of: "sorted (map fst ps) \<Longrightarrow> map_of (obj_put k v ps) = (map_of ps)(k \<mapsto> v)"
proof (induction ps)
  case (Cons p ps)
  show ?case
  proof (cases "k < fst p")
    case True
    then show ?thesis by (cases p) (auto simp: fun_eq_iff)
  next
    case False
    with Cons show ?thesis by (cases p) (auto simp: fun_eq_iff)
  qed
qed simp

lemma obj_put_keys: "set (map fst (obj_put k v ps)) = insert k (set (map fst ps))"
  by (induction ps) auto

lemma obj_put_sorted: "sorted (map fst ps) \<Longrightarrow> sorted (map fst (obj_put k v ps))"
  using obj_put_keys by (induction ps) (fastforce simp: less_imp_le)+

lemma foldl_obj_put:
  "sorted (map fst m) \<Longrightarrow>
     sorted (map fst (foldl (\<lambda>m (k, v). obj_put k v m) m ps))
   \<and> map_of (foldl (\<lambda>m (k, v). obj_put k v m) m ps) = map_of m ++ map_of (rev ps)"
proof (induction ps arbitrary: m)
  case (Cons p ps)
  obtain k v where p: "p = (k, v)" by force
  from Cons.IH [OF obj_put_sorted [OF Cons.prems], of k v] obj_put_map_of [OF Cons.prems, of k v]
  show ?case by (simp add: p map_add_def fun_eq_iff split: option.split)
qed simp

lemma js_get_object: "js_get (js_object ps) k = map_of (rev ps) k"
  using foldl_obj_put [of "[]" ps] by (simp add: js_get_def js_object_def)

definition is_object :: "json \<Rightarrow> bool" where
  "is_object j \<longleftrightarrow> (case j of JObj ps \<Rightarrow> sorted (map fst ps) | _ \<Rightarrow> False)"

lemma is_object_literal [simp]: "is_object (js_object ps)"
  using foldl_obj_put [of "[]" ps] by (simp add: is_object_def js_object_def)

lemma is_object_insert [simp]: "is_object j \<Longrightarrow> is_object (js_insert k v j)"
  by (cases j) (simp_all add: is_object_def js_insert_def obj_put_sorted)

lemma js_get_insert [simp]:
  "is_object j \<Longrightarrow> js_get (js_insert k v j) k' = (if k' = k then Some v else js_get j k')"
  by (cases j) (simp_all add: is_object_def js_insert_def js_get_def obj_put_map_of)

lemma js_at_object: "js_at (js_object ps) k = (case map_of (rev ps) k of None \<Rightarrow> JNull | Some x \<Rightarrow> x)"
  by (simp add: js_at_def js_get_object)

lemma js_insert_object: "js_insert k v (js_object ps) = js_object (ps @ [(k, v)])"
  by (simp add: js_insert_def js_object_def)

end
