(* ===== verification/Node_Model.thy ===== *)
theory Node_Model
  imports Json Common
begin

text \<open>
  \<^verbatim>\<open>nodes/model.rs\<close>: the node of the control plane with its free-form JSON sections, and
  the validation that every stored node has passed.
\<close>

definition VLESS :: string where "VLESS = ''vless''"
definition VMESS :: string where "VMESS = ''vmess''"
definition TROJAN :: string where "TROJAN = ''trojan''"
definition SHADOWSOCKS :: string where "SHADOWSOCKS = ''shadowsocks''"
definition SOCKS :: string where "SOCKS = ''socks''"
definition WIREGUARD :: string where "WIREGUARD = ''wireguard''"

lemmas protocol_defs [std_eval] = VLESS_def VMESS_def TROJAN_def SHADOWSOCKS_def SOCKS_def WIREGUARD_def

definition SUPPORTED :: "string list" where
  "SUPPORTED = [VLESS, VMESS, TROJAN, SHADOWSOCKS, SOCKS, WIREGUARD]"

record endpoint =
  ep_host :: string
  ep_port :: u16

record tls_config =
  tl_enabled :: bool
  tl_server_name :: string
  tl_insecure :: bool
  tl_alpn :: "string list"

definition tls_default :: tls_config where
  "tls_default = \<lparr>tl_enabled = False, tl_server_name = [], tl_insecure = False, tl_alpn = []\<rparr>"

record node =
  nd_id :: string
  nd_name :: string
  nd_protocol :: string
  nd_endpoint :: endpoint
  nd_authentication :: json
  nd_transport :: json
  nd_tls :: tls_config
  nd_metadata :: json
  nd_subscription_id :: string
  nd_enabled :: bool
  nd_created_at :: int

definition node_validate :: "node \<Rightarrow> string + unit" where
  "node_validate n =
     (if trim (nd_name n) = [] then Inl ''node name is empty''
      else if nd_protocol n \<notin> set SUPPORTED then Inl (''unsupported protocol: '' @ nd_protocol n)
      else if trim (ep_host (nd_endpoint n)) = [] then Inl ''endpoint.host is empty''
      else if ep_port (nd_endpoint n) = 0 then Inl ''endpoint.port is zero''
      else Inr ())"

definition node_valid :: "node \<Rightarrow> bool" where
  "node_valid n \<longleftrightarrow> node_validate n = Inr ()"

lemma node_valid_iff:
  "node_valid n \<longleftrightarrow> trim (nd_name n) \<noteq> [] \<and> nd_protocol n \<in> set SUPPORTED
     \<and> trim (ep_host (nd_endpoint n)) \<noteq> [] \<and> ep_port (nd_endpoint n) \<noteq> 0"
  by (simp add: node_valid_def node_validate_def)

text \<open>Validation reads nothing that the managers assign afterwards.\<close>

lemma node_validate_update [simp]:
  "node_validate (n\<lparr>nd_id := i\<rparr>) = node_validate n"
  "node_validate (n\<lparr>nd_created_at := c\<rparr>) = node_validate n"
  "node_validate (n\<lparr>nd_subscription_id := s\<rparr>) = node_validate n"
  "node_validate (n\<lparr>nd_enabled := b\<rparr>) = node_validate n"
  by (simp_all add: node_validate_def)

end
