(* ===== verification/Hash_Map.thy ===== *)
theory Hash_Map
  imports Prelude
begin

text \<open>
  \<^verbatim>\<open>HashMap\<close>s whose iteration the code observes: the list of their entries in iteration
  order, one per key.  Rust leaves the order open: here an inserted entry goes to the end, and
  where it stands is not visible to lookups.
\<close>

definition map_remove :: "'k \<Rightarrow> ('k \<times> 'v) list \<Rightarrow> ('k \<times> 'v) list" where
  "map_remove k m = filter (\<lambda>(k', _). k' \<noteq> k) m"

definition map_insert :: "'k \<Rightarrow> 'v \<Rightarrow> ('k \<times> 'v) list \<Rightarrow> ('k \<times> 'v) list" where
  "map_insert k v m = map_remove k m @ [(k, v)]"

lemma distinct_filter_fst: "distinct (map fst m) \<Longrightarrow> distinct (map fst (filter P m))"
  by (induction m) auto

lemma map_remove_keys: "fst ` set (map_remove k m) = fst ` set m - {k}"
  by (auto simp: map_remove_def image_iff)

lemma distinct_map_remove: "distinct (map fst m) \<Longrightarrow> distinct (map fst (map_remove k m))"
  by (simp add: map_remove_def distinct_filter_fst)

lemma map_of_map_remove: "map_of (map_remove k m) = (map_of m)(k := None)"
  by (induction m) (auto simp: map_remove_def fun_eq_iff)

lemma map_of_map_insert: "map_of (map_insert k v m) = (map_of m)(k \<mapsto> v)"
  by (auto simp: map_insert_def map_of_append map_of_map_remove map_add_def fun_eq_iff split: option.split)

lemma distinct_map_insert: "distinct (map fst m) \<Longrightarrow> distinct (map fst (map_insert k v m))"
  using map_remove_keys [of k m] by (auto simp: map_insert_def distinct_map_remove)

lemma map_remove_absent: "k \<notin> fst ` set m \<Longrightarrow> map_remove k m = m"
  unfolding map_remove_def by (rule filter_True) force

lemma length_map_remove:
  "distinct (map fst m) \<Longrightarrow> k \<in> fst ` set m \<Longrightarrow> Suc (length (map_remove k m)) = length m"
proof (induction m)
  case (Cons x m)
  show ?case
  proof (cases "fst x = k")
    case True
    with Cons.prems have "map_remove k m = m" by (intro map_remove_absent) auto
    with True show ?thesis by (auto simp: map_remove_def split: prod.splits)
  next
    case False
    with Cons show ?thesis by (auto simp: map_remove_def split: prod.splits)
  qed
qed simp

lemma length_map_remove_le: "length (map_remove k m) \<le> length m"
  by (simp add: map_remove_def)

end
