(* ===== verification/Node_Health.thy ===== *)
theory Node_Health
  imports Complex_Main Rust_Std Hash_Map
begin

text \<open>
  \<^verbatim>\<open>nodes/health.rs\<close>: the statistics of a node, its score and the choice of the best node
  with hysteresis.  Doubles are taken as the rational numbers they stand for, with exact
  arithmetic; all scores of the table are finite, so the filter on finite scores keeps them.
\<close>

section \<open>Statistics\<close>

definition SPEED_REFERENCE_BPS :: u64 where "SPEED_REFERENCE_BPS = 100 * 1024 * 1024"
definition LATENCY_FLOOR_MS :: rat where "LATENCY_FLOOR_MS = 300"

record node_stats =
  hs_latency_ms :: int
  hs_packet_loss :: rat
  hs_download_speed :: u64
  hs_upload_speed :: u64
  hs_availability :: rat
  hs_score :: rat
  hs_last_test :: int
  hs_success_count :: u64
  hs_failure_count :: u64

definition node_stats_default :: node_stats where
  "node_stats_default = \<lparr>hs_latency_ms = 0, hs_packet_loss = 0, hs_download_speed = 0,
     hs_upload_speed = 0, hs_availability = 0, hs_score = 0, hs_last_test = 0,
     hs_success_count = 0, hs_failure_count = 0\<rparr>"

definition clamp_unit :: "rat \<Rightarrow> rat" where
  "clamp_unit x = (if x < 0 then 0 else if 1 < x then 1 else x)"

definition u64_rat :: "u64 \<Rightarrow> rat" where
  "u64_rat w = of_nat (unat w)"

definition compute_score :: "node_stats \<Rightarrow> node_stats" where
  "compute_score s =
     (let latency_score = clamp_unit ((LATENCY_FLOOR_MS - of_int (hs_latency_ms s)) / LATENCY_FLOOR_MS) * 100;
          loss_score = (1 - clamp_unit (hs_packet_loss s)) * 100;
          availability_score = clamp_unit (hs_availability s) * 100;
          throughput_score = min (u64_rat (hs_download_speed s) / u64_rat SPEED_REFERENCE_BPS) 1 * 100;
          total = hs_success_count s + hs_failure_count s;
          failure_score = (if total = 0 then 100
                           else (1 - u64_rat (hs_failure_count s) / u64_rat total) * 100)
      in s\<lparr>hs_score := latency_score * (30 / 100) + loss_score * (25 / 100)
            + availability_score * (20 / 100) + throughput_score * (15 / 100) + failure_score * (10 / 100)\<rparr>)"

definition round_half_away :: "rat \<Rightarrow> int" where
  \<comment> \<open>\<^verbatim>\<open>f64::round\<close>\<close>
  "round_half_away x = (if 0 \<le> x then \<lfloor>x + 1 / 2\<rfloor> else - \<lfloor>- x + 1 / 2\<rfloor>)"

definition record_probe :: "bool \<Rightarrow> int option \<Rightarrow> int \<Rightarrow> node_stats \<Rightarrow> node_stats" where
  "record_probe ok latency_ms now s =
     (let s = (if ok then
                 (let s = s\<lparr>hs_success_count := hs_success_count s + 1\<rparr>
                  in case latency_ms of
                       None \<Rightarrow> s
                     | Some ms \<Rightarrow>
                         s\<lparr>hs_latency_ms :=
                            (if hs_latency_ms s = 0 then ms
                             else round_half_away (of_int (hs_latency_ms s) * (7 / 10) + of_int ms * (3 / 10)))\<rparr>)
               else s\<lparr>hs_failure_count := hs_failure_count s + 1\<rparr>);
          total = hs_success_count s + hs_failure_count s;
          s = s\<lparr>hs_packet_loss := u64_rat (hs_failure_count s) / u64_rat (max total 1)\<rparr>;
          s = s\<lparr>hs_availability := u64_rat (hs_success_count s) / u64_rat total\<rparr>;
          s = s\<lparr>hs_last_test := now\<rparr>
      in compute_score s)"

section \<open>The table\<close>

type_synonym stats_table = "(string \<times> node_stats) list"

definition stats_get :: "stats_table \<Rightarrow> string \<Rightarrow> node_stats option" where
  "stats_get t i = map_of t i"

definition stats_upsert :: "string \<Rightarrow> node_stats \<Rightarrow> stats_table \<Rightarrow> stats_table" where
  "stats_upsert i s t = map_insert i s t"

definition stats_mutate :: "string \<Rightarrow> (node_stats \<Rightarrow> node_stats) \<Rightarrow> stats_table \<Rightarrow> stats_table \<times> node_stats" where
  "stats_mutate i f t =
     (let entry = f (case map_of t i of None \<Rightarrow> node_stats_default | Some s \<Rightarrow> s)
      in (map_insert i entry t, entry))"

definition stats_clear :: "string \<Rightarrow> stats_table \<Rightarrow> stats_table" where
  "stats_clear i t = map_remove i t"

section \<open>The choice\<close>

definition rank :: "(string \<times> rat) list \<Rightarrow> (string \<times> rat) list" where
  \<comment> \<open>the stable sort by descending score\<close>
  "rank scores = sort_key (\<lambda>p. - snd p) scores"

definition select_best :: "(string \<times> rat) list \<Rightarrow> string option \<Rightarrow> rat \<Rightarrow> string option" where
  "select_best scores current_id threshold =
     (case rank scores of
        [] \<Rightarrow> None
      | best # _ \<Rightarrow>
          (case current_id of
             Some cur \<Rightarrow>
               if fst best = cur then Some (fst best)
               else
                 (let current_score = (case find (\<lambda>p. fst p = cur) scores of None \<Rightarrow> 0 | Some p \<Rightarrow> snd p)
                  in if snd best - current_score < threshold then Some cur else Some (fst best))
           | None \<Rightarrow> Some (fst best)))"

section \<open>Scores are bounded\<close>

lemma clamp_unit_bounds: "0 \<le> clamp_unit x \<and> clamp_unit x \<le> 1"
  by (simp add: clamp_unit_def)

lemma weighted_bounds:
  fixes a b c d e :: rat
  assumes "0 \<le> a" "a \<le> 1" "0 \<le> b" "b \<le> 1" "0 \<le> c" "c \<le> 1" "0 \<le> d" "d \<le> 1" "0 \<le> e" "e \<le> 1"
  shows "0 \<le> a * 100 * (30 / 100) + (1 - b) * 100 * (25 / 100) + c * 100 * (20 / 100) + d * 100 * (15 / 100) + e * 100 * (10 / 100)"
    and "a * 100 * (30 / 100) + (1 - b) * 100 * (25 / 100) + c * 100 * (20 / 100) + d * 100 * (15 / 100) + e * 100 * (10 / 100) \<le> 100"
proof -
  have "a * 100 * (30 / 100) = 30 * a" "(1 - b) * 100 * (25 / 100) = 25 - 25 * b"
    "c * 100 * (20 / 100) = 20 * c" "d * 100 * (15 / 100) = 15 * d" "e * 100 * (10 / 100) = 10 * e"
    by (simp_all add: algebra_simps)
  then show "0 \<le> a * 100 * (30 / 100) + (1 - b) * 100 * (25 / 100) + c * 100 * (20 / 100) + d * 100 * (15 / 100) + e * 100 * (10 / 100)"
    "a * 100 * (30 / 100) + (1 - b) * 100 * (25 / 100) + c * 100 * (20 / 100) + d * 100 * (15 / 100) + e * 100 * (10 / 100) \<le> 100"
    using assms by linarith+
qed

lemma compute_score_fields [simp]:
  "hs_latency_ms (compute_score s) = hs_latency_ms s" "hs_packet_loss (compute_score s) = hs_packet_loss s"
  "hs_availability (compute_score s) = hs_availability s"
  "hs_success_count (compute_score s) = hs_success_count s" "hs_failure_count (compute_score s) = hs_failure_count s"
  "hs_download_speed (compute_score s) = hs_download_speed s" "hs_last_test (compute_score s) = hs_last_test s"
  by (simp_all add: compute_score_def Let_def)

lemma unat_total:
  "unat (a :: u64) + unat b < 2 ^ 64 \<Longrightarrow> unat (a + b) = unat a + unat b"
  by (simp add: unat_word_ariths)

lemma u64_rat_nonneg: "0 \<le> u64_rat w"
  by (simp only: u64_rat_def of_nat_0_le_iff)

lemma hs_score_update: "hs_score (s\<lparr>hs_score := x\<rparr>) = x"
  by simp

lemma compute_score_bounds:
  assumes "unat (hs_success_count s) + unat (hs_failure_count s) < 2 ^ 64"
  shows "0 \<le> hs_score (compute_score s) \<and> hs_score (compute_score s) \<le> 100"
proof -
  let ?t = "hs_success_count s + hs_failure_count s"
  define e where "e = (if ?t = 0 then 1 else 1 - u64_rat (hs_failure_count s) / u64_rat ?t)"
  have e: "0 \<le> e" "e \<le> 1"
  proof -
    have "u64_rat (hs_failure_count s) / u64_rat ?t \<le> 1" if "?t \<noteq> 0"
    proof -
      have "unat (hs_failure_count s) \<le> unat ?t" using unat_total [OF assms] by simp
      moreover have "0 < unat ?t" using that unat_gt_0 by blast
      ultimately have "unat (hs_failure_count s) \<le> unat ?t" "0 < unat ?t" by simp_all
      then show ?thesis by (simp only: u64_rat_def divide_le_eq_1_pos of_nat_0_less_iff of_nat_le_iff)
    qed
    then show "0 \<le> e" "e \<le> 1" by (auto simp: e_def u64_rat_nonneg)
  qed
  define d where "d = min (u64_rat (hs_download_speed s) / u64_rat SPEED_REFERENCE_BPS) 1"
  have d: "0 \<le> d" "d \<le> 1" by (simp_all add: d_def u64_rat_nonneg)
  have "(if ?t = 0 then 100 else (1 - u64_rat (hs_failure_count s) / u64_rat ?t) * 100) = e * 100"
    by (simp add: e_def)
  then have "hs_score (compute_score s) =
     clamp_unit ((LATENCY_FLOOR_MS - of_int (hs_latency_ms s)) / LATENCY_FLOOR_MS) * 100 * (30 / 100)
     + (1 - clamp_unit (hs_packet_loss s)) * 100 * (25 / 100) + clamp_unit (hs_availability s) * 100 * (20 / 100)
     + d * 100 * (15 / 100) + e * 100 * (10 / 100)"
    unfolding compute_score_def Let_def d_def by (simp only: hs_score_update)
  with weighted_bounds [OF conjunct1 [OF clamp_unit_bounds] conjunct2 [OF clamp_unit_bounds]
      conjunct1 [OF clamp_unit_bounds] conjunct2 [OF clamp_unit_bounds]
      conjunct1 [OF clamp_unit_bounds] conjunct2 [OF clamp_unit_bounds] d e]
  show ?thesis by metis
qed

lemma smoothing_between:
  assumes "0 < m" "m \<le> a" "a \<le> M" "m \<le> b" "b \<le> M"
  shows "m \<le> round_half_away (of_int a * (7 / 10) + of_int b * (3 / 10))
       \<and> round_half_away (of_int a * (7 / 10) + of_int b * (3 / 10)) \<le> M"
proof -
  define x :: rat where "x = of_int a * (7 / 10) + of_int b * (3 / 10)"
  have r: "(of_int m :: rat) \<le> of_int a" "(of_int a :: rat) \<le> of_int M"
    "(of_int m :: rat) \<le> of_int b" "(of_int b :: rat) \<le> of_int M" "(0 :: rat) < of_int m"
    using assms by simp_all
  have x: "of_int m \<le> x" "x \<le> of_int M" using r unfolding x_def by linarith+
  have "m \<le> \<lfloor>x + 1 / 2\<rfloor>" using x by (simp add: le_floor_iff)
  moreover have "\<lfloor>x + 1 / 2\<rfloor> \<le> M" using x by (simp add: floor_le_iff)
  moreover have "0 \<le> x" using x r by linarith
  ultimately show ?thesis by (simp add: round_half_away_def x_def)
qed

section \<open>Histories of probes\<close>

text \<open>
  A history of probes of one node, each a latency or a failure with its time, oldest first;
  a latency is at least one millisecond.
\<close>

definition run_probes :: "(int option \<times> int) list \<Rightarrow> node_stats" where
  "run_probes ps = foldl (\<lambda>s (r, now). record_probe (r \<noteq> None) r now s) node_stats_default ps"

definition readings :: "(int option \<times> int) list \<Rightarrow> int list" where
  "readings ps = List.map_filter fst ps"

lemma readings_snoc: "readings (ps @ [(r, t)]) = readings ps @ (case r of None \<Rightarrow> [] | Some ms \<Rightarrow> [ms])"
  by (simp add: readings_def List.map_filter_def split: option.split)

lemma set_readings: "x \<in> set (readings ps) \<longleftrightarrow> (\<exists>t. (Some x, t) \<in> set ps)"
  by (force simp: readings_def List.map_filter_def)

lemma run_probes_snoc: "run_probes (ps @ [(r, t)]) = record_probe (r \<noteq> None) r t (run_probes ps)"
  by (simp add: run_probes_def)

definition probes_inv :: "(int option \<times> int) list \<Rightarrow> node_stats \<Rightarrow> bool" where
  "probes_inv ps s \<longleftrightarrow>
     unat (hs_success_count s) = length (readings ps)
   \<and> unat (hs_failure_count s) = length ps - length (readings ps)
   \<and> (if readings ps = [] then hs_latency_ms s = 0
      else Min (set (readings ps)) \<le> hs_latency_ms s \<and> hs_latency_ms s \<le> Max (set (readings ps)))"

lemma length_readings: "length (readings ps) \<le> length ps"
  unfolding readings_def List.map_filter_def by (simp add: le_trans [OF length_filter_le])

lemma unat_suc: "Suc (unat (w :: u64)) < 2 ^ 64 \<Longrightarrow> unat (w + 1) = Suc (unat w)"
  using unat_total [of w 1] by simp


lemma probes_inv_run: "length ps < 2 ^ 64 \<Longrightarrow> (\<And>ms t. (Some ms, t) \<in> set ps \<Longrightarrow> 1 \<le> ms) \<Longrightarrow> probes_inv ps (run_probes ps)"
proof (induction ps rule: rev_induct)
  case Nil
  show ?case by (simp add: probes_inv_def run_probes_def node_stats_default_def readings_def List.map_filter_def)
next
  case (snoc p ps)
  obtain r t where p: "p = (r, t)" by force
  let ?s = "run_probes ps"
  have IH: "probes_inv ps ?s" by (rule snoc.IH) (use snoc.prems in auto)
  have len: "Suc (length ps) < 2 ^ 64" using snoc.prems(1) by simp
  show ?case
  proof (cases r)
    case None
    have "Suc (unat (hs_failure_count ?s)) < 2 ^ 64" using IH len by (simp add: probes_inv_def)
    from unat_suc [OF this] IH None show ?thesis using length_readings [of ps]
      by (simp add: p run_probes_snoc readings_snoc probes_inv_def record_probe_def Let_def Suc_diff_le)
  next
    case (Some ms)
    have "Suc (unat (hs_success_count ?s)) < 2 ^ 64"
      using IH len length_readings [of ps] by (simp add: probes_inv_def)
    note count = unat_suc [OF this]
    have ms: "1 \<le> ms" using snoc.prems(2) [of ms t] Some p by simp
    have pos: "0 < Min (set (readings ps))" if "readings ps \<noteq> []"
      using snoc.prems(2) that by (fastforce simp: set_readings)
    have lat: "let l = hs_latency_ms (record_probe True (Some ms) t ?s)
        in Min (insert ms (set (readings ps))) \<le> l \<and> l \<le> Max (insert ms (set (readings ps)))"
    proof (cases "readings ps = []")
      case True
      with IH show ?thesis by (simp add: probes_inv_def record_probe_def Let_def)
    next
      case False
      define m M where "m = Min (insert ms (set (readings ps)))" and "M = Max (insert ms (set (readings ps)))"
      have mM: "m = min ms (Min (set (readings ps)))" "M = max ms (Max (set (readings ps)))"
        using False by (simp_all add: m_def M_def)
      have l: "Min (set (readings ps)) \<le> hs_latency_ms ?s" "hs_latency_ms ?s \<le> Max (set (readings ps))"
        using IH False by (simp_all add: probes_inv_def)
      have "0 < m" "m \<le> hs_latency_ms ?s" "hs_latency_ms ?s \<le> M" "m \<le> ms" "ms \<le> M"
        using mM l ms pos [OF False] by (auto simp: min_def max_def)
      from smoothing_between [OF this] pos [OF False] l show ?thesis
        by (simp add: record_probe_def Let_def m_def M_def)
    qed
    with IH Some count length_readings [of ps] show ?thesis
      by (auto simp: p run_probes_snoc readings_snoc probes_inv_def Let_def Suc_diff_le)
        (simp_all add: record_probe_def Let_def)
  qed
qed


text \<open>
  After any history of probes the statistics are exact and bounded.  Loss and
  availability are the shares of failed and successful probes, the smoothed latency lies
  between the smallest and the largest reading, and the score is between 0 and 100.
\<close>

theorem probe_history_exact:
  assumes "ps \<noteq> []" "length ps < 2 ^ 64" "\<forall>(r, t) \<in> set ps. case r of None \<Rightarrow> True | Some ms \<Rightarrow> 1 \<le> ms"
  shows "let s = run_probes ps; n = of_nat (length ps); k = of_nat (length (readings ps)) in
           hs_packet_loss s = (n - k) / n \<and> hs_availability s = k / n
         \<and> 0 \<le> hs_score s \<and> hs_score s \<le> 100
         \<and> (readings ps \<noteq> [] \<longrightarrow>
              Min (set (readings ps)) \<le> hs_latency_ms s \<and> hs_latency_ms s \<le> Max (set (readings ps)))"
proof -
  let ?s = "run_probes ps"
  have inv: "probes_inv ps ?s" using assms(2,3) by (intro probes_inv_run) fastforce+
  obtain qs r t where ps: "ps = qs @ [(r, t)]" using assms(1) by (metis rev_exhaust surj_pair)
  obtain b where b: "?s = compute_score b"
    and loss: "hs_packet_loss b = u64_rat (hs_failure_count b) / u64_rat (max (hs_success_count b + hs_failure_count b) 1)"
    and avail: "hs_availability b = u64_rat (hs_success_count b) / u64_rat (hs_success_count b + hs_failure_count b)"
    by (simp add: ps run_probes_snoc record_probe_def Let_def)
  have counts: "unat (hs_success_count b) = length (readings ps)"
    "unat (hs_failure_count b) = length ps - length (readings ps)"
    using inv b by (simp_all add: probes_inv_def)
  have total: "unat (hs_success_count b + hs_failure_count b) = length ps"
    using unat_total [of "hs_success_count b" "hs_failure_count b"] counts assms(2) length_readings [of ps] by simp
  have "1 \<le> hs_success_count b + hs_failure_count b"
    using total assms(1) by (simp add: word_le_nat_alt Suc_le_eq)
  then have "u64_rat (max (hs_success_count b + hs_failure_count b) 1) = of_nat (length ps)"
    unfolding u64_rat_def by (simp only: max_absorb1 total)
  moreover have "u64_rat (hs_success_count b + hs_failure_count b) = of_nat (length ps)"
    unfolding u64_rat_def by (simp only: total)
  moreover have "u64_rat (hs_failure_count b) = of_nat (length ps) - of_nat (length (readings ps))"
    unfolding u64_rat_def counts using length_readings [of ps] by (rule of_nat_diff)
  moreover have "u64_rat (hs_success_count b) = of_nat (length (readings ps))"
    unfolding u64_rat_def counts ..
  moreover have "0 \<le> hs_score ?s \<and> hs_score ?s \<le> 100"
    unfolding b by (rule compute_score_bounds) (use counts length_readings [of ps] assms(2) in simp)
  ultimately show ?thesis using inv loss avail by (auto simp: b Let_def probes_inv_def)
qed

theorem probe_history_exact_witness:
  "hs_packet_loss (run_probes [(Some 30, 1), (None, 2)]) = 1 / 2"
  using probe_history_exact [of "[(Some 30, 1), (None, 2)]"]
  by (simp add: readings_def List.map_filter_def Let_def)

section \<open>The choice is stable\<close>

lemma sort_key_hd: "sort_key f xs = y # ys \<Longrightarrow> y \<in> set xs \<and> (\<forall>x \<in> set xs. f y \<le> f x)"
proof -
  assume h: "sort_key f xs = y # ys"
  have "sorted (map f (y # ys))" unfolding h [symmetric] by simp
  moreover have "set (y # ys) = set xs" unfolding h [symmetric] by simp
  ultimately show ?thesis by force
qed

lemma rank_hd: "rank scores = p # ps \<Longrightarrow> p \<in> set scores \<and> (\<forall>q \<in> set scores. snd q \<le> snd p)"
  using sort_key_hd [of "\<lambda>p. - snd p" scores p ps] by (simp add: rank_def)

lemma rank_Nil: "rank scores = [] \<longleftrightarrow> scores = []"
  by (metis length_0_conv length_sort rank_def)

text \<open>
  Selection has hysteresis.  Without candidates there is no answer; otherwise the answer
  is the current node or a candidate of the highest score, and it is another node than the
  current one only when it beats the current node's score, zero if it has none, by at least
  the threshold.
\<close>

theorem select_best_hysteresis:
  "(select_best scores current threshold = None \<longleftrightarrow> scores = [])
   \<and> (case select_best scores current threshold of
        None \<Rightarrow> True
      | Some i \<Rightarrow>
          current = Some i
          \<or> (\<exists>s. (i, s) \<in> set scores \<and> s = Max (snd ` set scores)
               \<and> (case current of None \<Rightarrow> True
                  | Some cur \<Rightarrow>
                      threshold \<le> s - (case find (\<lambda>p. fst p = cur) scores of None \<Rightarrow> 0 | Some p \<Rightarrow> snd p))))"
proof (cases "rank scores")
  case Nil
  then have "scores = []" by (simp add: rank_Nil)
  then show ?thesis by (simp add: select_best_def rank_def)
next
  case (Cons p ps)
  from rank_hd [OF Cons] have p: "p \<in> set scores" "\<And>q. q \<in> set scores \<Longrightarrow> snd q \<le> snd p" by auto
  then have "Max (snd ` set scores) = snd p" by (intro Max_eqI) auto
  moreover have "scores \<noteq> []" using p(1) by auto
  moreover have "(fst p, snd p) \<in> set scores" using p(1) by simp
  ultimately show ?thesis
    by (auto simp: select_best_def Cons Let_def not_less split: option.splits if_splits)
qed

text \<open>
  A node that was never reached can outrank a working one: three failed probes leave a
  score of 30, because the latency of a node without a reading counts as zero milliseconds,
  while a slow node that answers two probes of five scores 22.
\<close>

theorem dead_node_outranks_flaky:
  "hs_score (run_probes [(None, 1), (None, 2), (None, 3)]) = 30
   \<and> hs_score (run_probes [(Some 300, 1), (None, 2), (None, 3), (Some 300, 4), (None, 5)]) = 22
   \<and> select_best [(''flaky'', 22), (''dead'', 30)] None 10 = Some ''dead''"
proof (intro conjI)
  note eval = record_probe_def compute_score_def Let_def clamp_unit_def u64_rat_def
    round_half_away_def LATENCY_FLOOR_MS_def node_stats_default_def max_def word_le_nat_alt
  define st where "st l k f m sc n = \<lparr>hs_latency_ms = l, hs_packet_loss = f / (k + f), hs_download_speed = 0,
    hs_upload_speed = 0, hs_availability = k / (k + f), hs_score = sc, hs_last_test = m,
    hs_success_count = of_nat n, hs_failure_count = of_nat (nat m - n)\<rparr>"
    for l m :: int and k f sc :: rat and n :: nat
  have "record_probe False None 1 node_stats_default = st 0 0 1 1 30 0"
    "record_probe False None 2 (st 0 0 1 1 30 0) = st 0 0 2 2 30 0"
    "record_probe False None 3 (st 0 0 2 2 30 0) = st 0 0 3 3 30 0"
    by (simp_all add: eval st_def)
  then show "hs_score (run_probes [(None, 1), (None, 2), (None, 3)]) = 30"
    by (simp add: run_probes_def) (simp add: st_def)
  have "\<lfloor>601 / 2 :: rat\<rfloor> = 300" by (simp add: floor_unique)
  then have "record_probe True (Some 300) 1 node_stats_default = st 300 1 0 1 55 1"
    "record_probe False None 2 (st 300 1 0 1 55 1) = st 300 1 1 2 (55 / 2) 1"
    "record_probe False None 3 (st 300 1 1 2 (55 / 2) 1) = st 300 1 2 3 (55 / 3) 1"
    "record_probe True (Some 300) 4 (st 300 1 2 3 (55 / 3) 1) = st 300 2 2 4 (55 / 2) 2"
    "record_probe False None 5 (st 300 2 2 4 (55 / 2) 2) = st 300 2 3 5 22 2"
    by (simp_all add: eval st_def)
  then show "hs_score (run_probes [(Some 300, 1), (None, 2), (None, 3), (Some 300, 4), (None, 5)]) = 22"
    by (simp add: run_probes_def) (simp add: st_def)
  show "select_best [(''flaky'', 22), (''dead'', 30)] None 10 = Some ''dead''"
    by (simp add: select_best_def rank_def)
qed

end
