(* ===== verification/Node_Manager.thy ===== *)
theory Node_Manager
  imports Node_Model Node_Health Config
begin

text \<open>
  \<^verbatim>\<open>nodes/manager.rs\<close>: the nodes by id, the selected one, their statistics and the probes.
  The answers of the network to a probe, fresh identifiers and clock readings are arguments.
\<close>

section \<open>State\<close>

datatype node_event = NodeLatencyChanged string node_stats | NodeHealthChanged string node_stats

record node_manager =
  nm_nodes :: "(string \<times> node) list"
  nm_selected :: "string option"
  nm_stats :: stats_table
  nm_in_flight :: "string set"
  nm_paths :: paths
  nm_events :: "node_event list"

type_synonym nodes_state = "node_manager \<times> fs"

definition nodes_load :: "(string \<Rightarrow> string + node list) \<Rightarrow> paths \<Rightarrow> fs \<Rightarrow> node_manager" where
  "nodes_load de ps disk =
     \<lparr>nm_nodes = foldl (\<lambda>m n. map_insert (nd_id n) n m) [] (read_json_or de [] disk (nodes_path ps)),
      nm_selected = None, nm_stats = [], nm_in_flight = {}, nm_paths = ps, nm_events = []\<rparr>"

definition nodes_list :: "node_manager \<Rightarrow> node list" where
  "nodes_list m = sort_key nd_name (map snd (nm_nodes m))"

definition nodes_get :: "node_manager \<Rightarrow> string \<Rightarrow> svc_error + node" where
  "nodes_get m i = (case map_of (nm_nodes m) i of None \<Rightarrow> Inl (NodeNotFound i) | Some n \<Rightarrow> Inr n)"

definition nodes_persist :: "(node list \<Rightarrow> string) \<Rightarrow> write_io \<Rightarrow> nodes_state \<Rightarrow> nodes_state \<times> (svc_error + unit)" where
  "nodes_persist ser io s =
     (case s of (m, disk) \<Rightarrow>
        (case atomic_write io disk (nodes_path (nm_paths m)) (ser (nodes_list m)) of
           (disk, r) \<Rightarrow> ((m, disk), r)))"

section \<open>Editing\<close>

definition nodes_add ::
  "(node list \<Rightarrow> string) \<Rightarrow> write_io \<Rightarrow> string \<Rightarrow> int \<Rightarrow> nodes_state \<Rightarrow> node \<Rightarrow> nodes_state \<times> (svc_error + node)" where
  "nodes_add ser io uuid now s n =
     (case node_validate n of
        Inl e \<Rightarrow> (s, Inl (ConfigInvalid e))
      | Inr _ \<Rightarrow>
          (let n = (if nd_id n = [] then n\<lparr>nd_id := ''node_'' @ uuid\<rparr> else n);
               n = (if nd_created_at n = 0 then n\<lparr>nd_created_at := now\<rparr> else n);
               m = (fst s)\<lparr>nm_nodes := map_insert (nd_id n) n (nm_nodes (fst s))\<rparr>
           in case nodes_persist ser io (m, snd s) of
                (s, Inl e) \<Rightarrow> (s, Inl e)
              | (s, Inr _) \<Rightarrow> (s, Inr n)))"

definition nodes_update ::
  "(node list \<Rightarrow> string) \<Rightarrow> write_io \<Rightarrow> nodes_state \<Rightarrow> node \<Rightarrow> nodes_state \<times> (svc_error + node)" where
  "nodes_update ser io s n =
     (case node_validate n of
        Inl e \<Rightarrow> (s, Inl (ConfigInvalid e))
      | Inr _ \<Rightarrow>
          if map_of (nm_nodes (fst s)) (nd_id n) = None then (s, Inl (NodeNotFound (nd_id n)))
          else
            (let m = (fst s)\<lparr>nm_nodes := map_insert (nd_id n) n (nm_nodes (fst s))\<rparr>
             in case nodes_persist ser io (m, snd s) of
                  (s, Inl e) \<Rightarrow> (s, Inl e)
                | (s, Inr _) \<Rightarrow> (s, Inr n)))"

definition nodes_delete ::
  "(node list \<Rightarrow> string) \<Rightarrow> write_io \<Rightarrow> nodes_state \<Rightarrow> string \<Rightarrow> nodes_state \<times> (svc_error + unit)" where
  "nodes_delete ser io s i =
     (let m = fst s
      in if map_of (nm_nodes m) i = None then (s, Inl (NodeNotFound i))
         else
           (let m = m\<lparr>nm_nodes := map_remove i (nm_nodes m)\<rparr>;
                m = m\<lparr>nm_stats := stats_clear i (nm_stats m)\<rparr>;
                m = (if nm_selected m = Some i then m\<lparr>nm_selected := None\<rparr> else m)
            in nodes_persist ser io (m, snd s)))"

definition nodes_select :: "node_manager \<Rightarrow> string \<Rightarrow> node_manager \<times> (svc_error + unit)" where
  "nodes_select m i =
     (if map_of (nm_nodes m) i = None then (m, Inl (NodeNotFound i))
      else (m\<lparr>nm_selected := Some i\<rparr>, Inr ()))"

fun insert_incoming ::
  "string \<Rightarrow> (string \<times> node) list \<Rightarrow> string list \<Rightarrow> node list \<Rightarrow> (string \<times> node) list \<times> (svc_error + string list)" where
  "insert_incoming sub g ids [] = (g, Inr ids)"
| "insert_incoming sub g ids (n # ns) =
     (let n = n\<lparr>nd_subscription_id := sub\<rparr>
      in case node_validate n of
           Inl e \<Rightarrow> (g, Inl (ConfigInvalid e))
         | Inr _ \<Rightarrow> insert_incoming sub (map_insert (nd_id n) n g) (ids @ [nd_id n]) ns)"

definition replace_subscription_nodes ::
  "(node list \<Rightarrow> string) \<Rightarrow> write_io \<Rightarrow> nodes_state \<Rightarrow> string \<Rightarrow> node list \<Rightarrow> nodes_state \<times> (svc_error + string list)" where
  "replace_subscription_nodes ser io s sub incoming =
     (let m = fst s; g = filter (\<lambda>(_, n). nd_subscription_id n \<noteq> sub) (nm_nodes m)
      in case insert_incoming sub g [] incoming of
           (g, Inl e) \<Rightarrow> ((m\<lparr>nm_nodes := g\<rparr>, snd s), Inl e)
         | (g, Inr ids) \<Rightarrow>
             (case nodes_persist ser io (m\<lparr>nm_nodes := g\<rparr>, snd s) of
                (s, Inl e) \<Rightarrow> (s, Inl e)
              | (s, Inr _) \<Rightarrow> (s, Inr ids)))"

section \<open>Probing\<close>

text \<open>A TCP connection attempt: made after so many nanoseconds, refused, or timed out.\<close>

datatype connect_outcome = Connected_after nat | Connect_error string | Connect_timeout

definition tcp_probe :: "connect_outcome \<Rightarrow> svc_error + int" where
  "tcp_probe out =
     (case out of
        Connected_after ns \<Rightarrow> Inr (max (round_half_away (of_nat ns / 1000000)) 1)
      | Connect_error e \<Rightarrow> Inl (Other e)
      | Connect_timeout \<Rightarrow> Inl Timeout)"

definition test_node_inner ::
  "connect_outcome \<Rightarrow> int \<Rightarrow> node_manager \<Rightarrow> string \<Rightarrow> node_manager \<times> (svc_error + node_stats)" where
  "test_node_inner out now m i =
     (case nodes_get m i of
        Inl e \<Rightarrow> (m, Inl e)
      | Inr n \<Rightarrow>
          (let probe = tcp_probe out;
               ok = is_ok probe; latency = (case probe of Inl _ \<Rightarrow> None | Inr ms \<Rightarrow> Some ms)
           in case stats_mutate i (record_probe ok latency now) (nm_stats m) of
                (t, stats) \<Rightarrow>
                  (m\<lparr>nm_stats := t,
                     nm_events := NodeHealthChanged i stats # NodeLatencyChanged i stats # nm_events m\<rparr>,
                   Inr stats)))"

definition test_node ::
  "connect_outcome \<Rightarrow> int \<Rightarrow> node_manager \<Rightarrow> string \<Rightarrow> node_manager \<times> (svc_error + node_stats)" where
  "test_node out now m i =
     (if i \<in> nm_in_flight m then (m, Inl (AlreadyRunning (''test '' @ i)))
      else
        (case test_node_inner out now (m\<lparr>nm_in_flight := insert i (nm_in_flight m)\<rparr>) i of
           (m, r) \<Rightarrow> (m\<lparr>nm_in_flight := nm_in_flight m - {i}\<rparr>, r)))"

definition score_table :: "node_manager \<Rightarrow> node list \<Rightarrow> (string \<times> rat) list" where
  "score_table m ns =
     List.map_filter (\<lambda>n. map_option (\<lambda>s. (nd_id n, hs_score s)) (stats_get (nm_stats m) (nd_id n))) ns"

definition smart_select ::
  "(string \<Rightarrow> connect_outcome) \<Rightarrow> int \<Rightarrow> node_manager \<Rightarrow> rat \<Rightarrow> node_manager \<times> (svc_error + string option)" where
  "smart_select net now m threshold =
     (let scores = score_table m (filter nd_enabled (nodes_list m))
      in if scores = [] then (m, Inr None)
         else
           (let m = foldl (\<lambda>m p. fst (test_node (net (fst p)) now m (fst p))) m (take 5 (rank scores));
                fresh = score_table m (nodes_list m)
            in (m, Inr (select_best fresh (nm_selected m) threshold))))"

definition batch_test ::
  "(string \<Rightarrow> connect_outcome) \<Rightarrow> int \<Rightarrow> node_manager \<Rightarrow> node_manager \<times> (string \<times> node_stats) list" where
  \<comment> \<open>the tasks of the batch one after the other\<close>
  "batch_test net now m =
     foldl (\<lambda>(m, out) i.
              (case test_node (net i) now m i of
                 (m, Inl _) \<Rightarrow> (m, out)
               | (m, Inr s) \<Rightarrow> (m, map_insert i s out)))
       (m, []) (map nd_id (filter nd_enabled (nodes_list m)))"

section \<open>Well-formed node stores\<close>

text \<open>One entry per id, under the id of its node.\<close>

definition nodes_ok :: "(string \<times> node) list \<Rightarrow> bool" where
  "nodes_ok g \<longleftrightarrow> distinct (map fst g) \<and> (\<forall>(k, n) \<in> set g. k = nd_id n)"

lemma nodes_ok_insert [inv_intros]: "nodes_ok g \<Longrightarrow> k = nd_id n \<Longrightarrow> nodes_ok (map_insert k n g)"
  by (auto simp: nodes_ok_def distinct_map_insert) (auto simp: map_insert_def map_remove_def)

lemma nodes_ok_remove [inv_intros]: "nodes_ok g \<Longrightarrow> nodes_ok (map_remove i g)"
  by (auto simp: nodes_ok_def distinct_map_remove) (auto simp: map_remove_def)

lemma nodes_ok_filter [inv_intros]: "nodes_ok g \<Longrightarrow> nodes_ok (filter P g)"
  by (auto simp: nodes_ok_def distinct_filter_fst)

lemma nodes_ok_Nil [inv_intros]: "nodes_ok []"
  by (simp add: nodes_ok_def)

lemma nodes_ok_foldl: "nodes_ok g \<Longrightarrow> nodes_ok (foldl (\<lambda>m n. map_insert (nd_id n) n m) g ns)"
  by (induction ns arbitrary: g) (auto intro: inv_intros)

lemma nodes_ok_incoming: "nodes_ok g \<Longrightarrow> nodes_ok (fst (insert_incoming sub g ids ns))"
  by (induction sub g ids ns rule: insert_incoming.induct)
    (auto simp: Let_def nodes_ok_insert split: sum.split)

lemma map_of_foldl_insert:
  "map_of (foldl (\<lambda>m n. map_insert (nd_id n) n m) g ns) = map_of g ++ map_of (rev (map (\<lambda>n. (nd_id n, n)) ns))"
  by (induction ns arbitrary: g) (simp_all add: map_of_map_insert map_add_def fun_eq_iff split: option.split)

lemma keys_of_values: "nodes_ok g \<Longrightarrow> map (\<lambda>n. (nd_id n, n)) (map snd g) = g"
  by (induction g) (auto simp: nodes_ok_def)

lemma distinct_map_sort_key: "distinct (map f (sort_key g xs)) \<longleftrightarrow> distinct (map f xs)"
  by (simp add: distinct_map)

lemma map_of_same_set:
  "distinct (map fst xs) \<Longrightarrow> distinct (map fst ys) \<Longrightarrow> set xs = set ys \<Longrightarrow> map_of xs = map_of ys"
  by (metis map_of_inject_set)

text \<open>Loading what was listed gives back the store, whatever the order of the list.\<close>

lemma load_list:
  assumes "nodes_ok (nm_nodes m)"
  shows "map_of (foldl (\<lambda>g n. map_insert (nd_id n) n g) [] (nodes_list m)) = map_of (nm_nodes m)"
proof -
  let ?ps = "map (\<lambda>n. (nd_id n, n)) (nodes_list m)"
  have d: "distinct (map fst (nm_nodes m))" using assms by (simp add: nodes_ok_def)
  have ids: "map nd_id (map snd (nm_nodes m)) = map fst (nm_nodes m)"
    using assms by (auto simp: nodes_ok_def)
  have "distinct (map nd_id (nodes_list m))"
    using d [folded ids] unfolding nodes_list_def distinct_map_sort_key .
  then have dist: "distinct (map fst (rev ?ps))" by (simp add: comp_def rev_map [symmetric])
  have "set (rev ?ps) = set (nm_nodes m)"
  proof -
    have "set (rev ?ps) = set (map (\<lambda>n. (nd_id n, n)) (map snd (nm_nodes m)))"
      by (simp only: nodes_list_def set_rev set_map set_sort)
    then show ?thesis by (simp only: keys_of_values [OF assms])
  qed
  with dist d have "map_of (rev ?ps) = map_of (nm_nodes m)" by (intro map_of_same_set) auto
  then show ?thesis by (simp add: map_of_foldl_insert)
qed

lemma persist_load:
  assumes "nodes_persist ser io s = (s', Inr u)" "nodes_ok (nm_nodes (fst s))"
    and "de (ser (nodes_list (fst s))) = Inr (nodes_list (fst s))" "\<not> prefix utf8_bom (ser (nodes_list (fst s)))"
  shows "fst s' = fst s"
    and "map_of (nm_nodes (nodes_load de (nm_paths (fst s)) (snd s'))) = map_of (nm_nodes (fst s))"
proof -
  obtain m disk where s: "s = (m, disk)" by force
  obtain disk' where w: "atomic_write io disk (nodes_path (nm_paths m)) (ser (nodes_list m)) = (disk', Inr u)"
    and s': "s' = (m, disk')"
    using assms(1) by (auto simp: nodes_persist_def s split: prod.splits)
  have "disk' (nodes_path (nm_paths m)) = Some (ser (nodes_list m))"
    using w by (rule atomic_write_ok [rotated]) (simp add: nodes_path_def)
  then have "read_json_or de [] disk' (nodes_path (nm_paths m)) = nodes_list m"
    using assms(3,4) by (simp add: s read_json_or_def read_json_def)
  with s s' load_list [of m] assms(2) show "fst s' = fst s"
    "map_of (nm_nodes (nodes_load de (nm_paths (fst s)) (snd s'))) = map_of (nm_nodes (fst s))"
    by (simp_all add: nodes_load_def)
qed


text \<open>The edits of the store, with whether they report success.\<close>

datatype node_edit = Add string int node | Update node | Delete string | Refresh string "node list"

fun apply_edit :: "(node list \<Rightarrow> string) \<Rightarrow> write_io \<Rightarrow> nodes_state \<Rightarrow> node_edit \<Rightarrow> nodes_state \<times> bool" where
  "apply_edit ser io s (Add uuid now n) = (case nodes_add ser io uuid now s n of (s', r) \<Rightarrow> (s', is_ok r))"
| "apply_edit ser io s (Update n) = (case nodes_update ser io s n of (s', r) \<Rightarrow> (s', is_ok r))"
| "apply_edit ser io s (Delete i) = (case nodes_delete ser io s i of (s', r) \<Rightarrow> (s', is_ok r))"
| "apply_edit ser io s (Refresh sub ns) = (case replace_subscription_nodes ser io s sub ns of (s', r) \<Rightarrow> (s', is_ok r))"

definition persisted :: "(node list \<Rightarrow> string) \<Rightarrow> write_io \<Rightarrow> nodes_state \<Rightarrow> nodes_state \<times> bool" where
  "persisted ser io s = (case nodes_persist ser io s of (s', r) \<Rightarrow> (s', is_ok r))"

text \<open>An edit changes the memory, and then is refused or stores the result.\<close>

lemma edit_effect:
  "\<exists>m. (nodes_ok (nm_nodes (fst s)) \<longrightarrow> nodes_ok (nm_nodes m)) \<and> nm_paths m = nm_paths (fst s)
     \<and> apply_edit ser io s e \<in> {((m, snd s), False), persisted ser io (m, snd s)}"
proof (cases e)
  case (Add uuid now n)
  define n' where "n' = (let n = if nd_id n = [] then n\<lparr>nd_id := ''node_'' @ uuid\<rparr> else n
    in if nd_created_at n = 0 then n\<lparr>nd_created_at := now\<rparr> else n)"
  define m where "m = (if node_valid n then (fst s)\<lparr>nm_nodes := map_insert (nd_id n') n' (nm_nodes (fst s))\<rparr> else fst s)"
  have "apply_edit ser io s e \<in> {((m, snd s), False), persisted ser io (m, snd s)}"
    by (auto simp: Add nodes_add_def persisted_def m_def n'_def node_valid_def Let_def split: sum.split prod.split)
  then show ?thesis by (intro exI [of _ m]) (simp add: m_def nodes_ok_insert)
next
  case (Update n)
  define m where "m = (if node_valid n \<and> map_of (nm_nodes (fst s)) (nd_id n) \<noteq> None
    then (fst s)\<lparr>nm_nodes := map_insert (nd_id n) n (nm_nodes (fst s))\<rparr> else fst s)"
  have "apply_edit ser io s e \<in> {((m, snd s), False), persisted ser io (m, snd s)}"
    by (auto simp: Update nodes_update_def persisted_def m_def node_valid_def Let_def split: sum.split prod.split)
  then show ?thesis by (intro exI [of _ m]) (simp add: m_def nodes_ok_insert)
next
  case (Delete i)
  define m where "m = (if map_of (nm_nodes (fst s)) i \<noteq> None
    then (let m = (fst s)\<lparr>nm_nodes := map_remove i (nm_nodes (fst s)), nm_stats := stats_clear i (nm_stats (fst s))\<rparr>
          in if nm_selected m = Some i then m\<lparr>nm_selected := None\<rparr> else m)
    else fst s)"
  have "apply_edit ser io s e \<in> {((m, snd s), False), persisted ser io (m, snd s)}"
    by (auto simp: Delete nodes_delete_def persisted_def m_def Let_def split: prod.split)
  then show ?thesis by (intro exI [of _ m]) (simp add: m_def nodes_ok_remove Let_def)
next
  case (Refresh sub ns)
  define g where "g = fst (insert_incoming sub (filter (\<lambda>(_, n). nd_subscription_id n \<noteq> sub) (nm_nodes (fst s))) [] ns)"
  have "nodes_ok (nm_nodes (fst s)) \<longrightarrow> nodes_ok g"
    unfolding g_def by (intro impI nodes_ok_incoming nodes_ok_filter)
  moreover have "apply_edit ser io s e \<in> {(((fst s)\<lparr>nm_nodes := g\<rparr>, snd s), False), persisted ser io ((fst s)\<lparr>nm_nodes := g\<rparr>, snd s)}"
    by (auto simp: Refresh replace_subscription_nodes_def persisted_def g_def Let_def split: sum.split prod.split)
  ultimately show ?thesis by (intro exI [of _ "(fst s)\<lparr>nm_nodes := g\<rparr>"]) simp
qed

lemma persisted_memory: "fst (fst (persisted ser io s)) = fst s"
  by (simp add: persisted_def nodes_persist_def split: prod.split)

text \<open>
  C27. Edits of the nodes are durable.  From a store with one entry per id, an addition, an
  update, a deletion or a subscription refresh leaves such a store, and when it reports success a
  restart loads exactly the nodes that are in memory, given that the JSON library reads what
  it wrote.
\<close>

theorem node_edits_survive_restart:
  assumes "nodes_ok (nm_nodes (fst s))" "apply_edit ser io s e = (s', ok)"
    and "de (ser (nodes_list (fst s'))) = Inr (nodes_list (fst s'))"
    and "\<not> prefix utf8_bom (ser (nodes_list (fst s')))"
  shows "nodes_ok (nm_nodes (fst s'))
       \<and> (ok \<longrightarrow> map_of (nm_nodes (nodes_load de (nm_paths (fst s)) (snd s'))) = map_of (nm_nodes (fst s')))"
proof -
  from edit_effect [of s ser io e] assms(1,2) obtain m where
    m: "nodes_ok (nm_nodes m)" "nm_paths m = nm_paths (fst s)"
      "(s', ok) \<in> {((m, snd s), False), persisted ser io (m, snd s)}" by metis
  show ?thesis
  proof (cases ok)
    case False
    have "fst s' = m" using m(3) persisted_memory [of ser io "(m, snd s)"] by (metis fst_conv insertE singletonD)
    with m False show ?thesis by simp
  next
    case True
    with m(3) have p: "persisted ser io (m, snd s) = (s', True)" by simp
    then obtain u where "nodes_persist ser io (m, snd s) = (s', Inr u)"
      by (auto simp: persisted_def is_ok_iff split: prod.splits)
    moreover have "fst s' = m" using p persisted_memory [of ser io "(m, snd s)"] by simp
    ultimately show ?thesis using persist_load [of ser io "(m, snd s)" s' u de] m assms(3,4) True by simp
  qed
qed

definition plain_node :: "string \<Rightarrow> string \<Rightarrow> node" where
  "plain_node i sub = \<lparr>nd_id = i, nd_name = i, nd_protocol = SOCKS,
     nd_endpoint = \<lparr>ep_host = ''h'', ep_port = 1080\<rparr>, nd_authentication = JNull, nd_transport = JNull,
     nd_tls = tls_default, nd_metadata = JNull, nd_subscription_id = sub, nd_enabled = True, nd_created_at = 1\<rparr>"

lemma plain_node_valid:
  "node_validate (plain_node ''a'' sub) = Inr ()" "node_validate (plain_node ''b'' sub) = Inr ()"
  by (simp_all add: node_validate_def plain_node_def SUPPORTED_def trim_id)

definition empty_nodes :: node_manager where
  "empty_nodes = \<lparr>nm_nodes = [], nm_selected = None, nm_stats = [], nm_in_flight = {},
     nm_paths = paths_with_root ''d'', nm_events = []\<rparr>"

theorem node_edits_survive_restart_witness:
  "map_of (nm_nodes (nodes_load (\<lambda>_. Inr [plain_node ''a'' []]) (paths_with_root ''d'')
      (snd (fst (apply_edit (\<lambda>_. ''[]'') io_good (empty_nodes, Map.empty) (Add ''u'' 5 (plain_node ''a'' [])))))))
   = [''a'' \<mapsto> plain_node ''a'' []]"
proof -
  let ?r = "apply_edit (\<lambda>_. ''[]'') io_good (empty_nodes, Map.empty) (Add ''u'' 5 (plain_node ''a'' []))"
  have id: "nd_id (plain_node ''a'' []) = ''a''" "nd_created_at (plain_node ''a'' []) = 1"
    by (simp_all add: plain_node_def)
  have r: "snd ?r" "nm_nodes (fst (fst ?r)) = [(''a'', plain_node ''a'' [])]"
    by (simp_all add: nodes_add_def plain_node_valid id nodes_persist_def atomic_write_def io_good_def
        empty_nodes_def map_insert_def map_remove_def Let_def)
  obtain s' ok where e: "?r = (s', ok)" by (rule prod.exhaust)
  with r have "ok" "nm_nodes (fst s') = [(''a'', plain_node ''a'' [])]" by simp_all
  moreover from this have "nodes_list (fst s') = [plain_node ''a'' []]" by (simp add: nodes_list_def)
  moreover have "\<not> prefix utf8_bom ''[]''" by (simp add: utf8_bom_def)
  moreover have "nodes_ok (nm_nodes (fst (empty_nodes, Map.empty)))" by (simp add: empty_nodes_def nodes_ok_def)
  ultimately show ?thesis
    using node_edits_survive_restart [OF _ e, of "\<lambda>_. Inr [plain_node ''a'' []]"] e
    by (simp add: empty_nodes_def)
qed

section \<open>Refreshing a subscription\<close>

lemma insert_incoming_ids:
  "map_of g i = None \<Longrightarrow> i \<notin> nd_id ` set ns \<Longrightarrow> map_of (fst (insert_incoming sub g ids ns)) i = None"
  by (induction sub g ids ns rule: insert_incoming.induct)
    (auto simp: Let_def map_of_map_insert split: sum.splits)

lemma insert_incoming_invalid:
  "n \<in> set ns \<Longrightarrow> \<not> node_valid n \<Longrightarrow> \<not> is_ok (snd (insert_incoming sub g ids ns))"
  by (induction sub g ids ns rule: insert_incoming.induct)
    (auto simp: Let_def node_valid_def split: sum.splits)

text \<open>
  A refresh that brings an invalid node is refused, but not undone: in memory the nodes
  the subscription had are gone unless they are among the new ones, while the file still has
  them; and whether it is refused or not, a selected node that went away stays selected.
\<close>

theorem refused_refresh_drops_nodes:
  assumes "bad \<in> set ns" "\<not> node_valid bad"
    and "map_of (nm_nodes m) i = Some n" "nd_subscription_id n = sub" "nodes_ok (nm_nodes m)"
    and "i \<notin> nd_id ` set ns" "nm_selected m = Some i"
  shows "case replace_subscription_nodes ser io (m, disk) sub ns of ((m', disk'), r) \<Rightarrow>
           \<not> is_ok r \<and> nodes_get m' i = Inl (NodeNotFound i) \<and> disk' = disk \<and> nm_selected m' = Some i"
proof -
  let ?g = "filter (\<lambda>(_, n). nd_subscription_id n \<noteq> sub) (nm_nodes m)"
  have d: "distinct (map fst (nm_nodes m))" using assms(5) by (simp add: nodes_ok_def)
  have "map_of ?g i = None"
  proof (rule ccontr)
    assume "map_of ?g i \<noteq> None"
    then obtain x where "(i, x) \<in> set ?g" by (auto dest: map_of_SomeD)
    with d have "map_of (nm_nodes m) i = Some x" "nd_subscription_id x \<noteq> sub" by auto
    with assms(3,4) show False by simp
  qed
  note gone = insert_incoming_ids [OF this assms(6), of sub "[]"]
  have "\<not> is_ok (snd (insert_incoming sub ?g [] ns))" using assms(1,2) by (rule insert_incoming_invalid)
  with gone assms(7) show ?thesis
    by (auto simp: replace_subscription_nodes_def Let_def nodes_get_def not_is_ok_iff split: prod.split sum.split)
qed

theorem refused_refresh_drops_nodes_witness:
  "nodes_get (fst (fst (replace_subscription_nodes (\<lambda>_. []) io_good
       (empty_nodes\<lparr>nm_nodes := [(''a'', plain_node ''a'' ''s'')], nm_selected := Some ''a''\<rparr>, Map.empty) ''s''
       [(plain_node ''b'' [])\<lparr>nd_protocol := ''http''\<rparr>]))) ''a'' = Inl (NodeNotFound ''a'')"
proof -
  let ?bad = "(plain_node ''b'' [])\<lparr>nd_protocol := ''http''\<rparr>"
  have "\<not> node_valid ?bad" by (simp add: node_valid_iff SUPPORTED_def protocol_defs)
  moreover have "nd_id ?bad = ''b''" "nd_subscription_id (plain_node ''a'' ''s'') = ''s''" "nd_id (plain_node ''a'' ''s'') = ''a''"
    by (simp_all add: plain_node_def)
  ultimately show ?thesis
    using refused_refresh_drops_nodes [where bad = ?bad and ns = "[?bad]" and i = "''a''" and n = "plain_node ''a'' ''s''"
        and sub = "''s''" and ser = "\<lambda>_. []" and io = io_good and disk = Map.empty
        and m = "empty_nodes\<lparr>nm_nodes := [(''a'', plain_node ''a'' ''s'')], nm_selected := Some ''a''\<rparr>"]
    by (auto simp: nodes_ok_def split: prod.splits)
qed

end
