(* ===== verification/Core_Builder.thy ===== *)
theory Core_Builder
  imports Node_Model Config
begin

text \<open>
  \<^verbatim>\<open>proxy/config_builder.rs\<close> and \<^verbatim>\<open>proxy/xray_builder.rs\<close>: the translation of a node into
  the configuration of the two proxy cores.  The functions of the same name in the two files
  carry the prefixes \<open>sb\<close> (sing-box) and \<open>xr\<close> (Xray).
\<close>

section \<open>Shared parts\<close>

definition trim_matches_char :: "char \<Rightarrow> string \<Rightarrow> string" where
  "trim_matches_char c s = rev (dropWhile (\<lambda>x. x = c) (rev (dropWhile (\<lambda>x. x = c) s)))"

definition trim_end_matches :: "string \<Rightarrow> string \<Rightarrow> string" where
  "trim_end_matches p s = rev (trim_with [rev p] (rev s))"

definition auth_str :: "node \<Rightarrow> string \<Rightarrow> string" where
  "auth_str n key =
     (case js_get (nd_authentication n) key of
        None \<Rightarrow> []
      | Some v \<Rightarrow> (case v of JStr s \<Rightarrow> s | other \<Rightarrow> trim_matches_char (CHR 0x22) (js_text other)))"

definition parse_i64 :: "string \<Rightarrow> int option" where
  "parse_i64 s =
     (case s of
        c # ds \<Rightarrow>
          if c = CHR ''-'' then
            (if ds = [] \<or> (\<exists>d \<in> set ds. to_digit 10 d = None) \<or> 2 ^ 63 < digits_val 10 ds then None
             else Some (- int (digits_val 10 ds)))
          else map_option int (parse_uint (2 ^ 63 - 1) s)
      | [] \<Rightarrow> None)"

definition server_name_of :: "node \<Rightarrow> string" where
  "server_name_of n =
     (if tl_server_name (nd_tls n) = [] then ep_host (nd_endpoint n) else tl_server_name (nd_tls n))"

definition port_json :: "u16 \<Rightarrow> json" where
  "port_json p = JInt (uint p)"

section \<open>sing-box\<close>

definition tls_block :: "node \<Rightarrow> json" where
  "tls_block n =
     (if \<not> tl_enabled (nd_tls n) then js_object [(''enabled'', JBool False)]
      else
        (let tls = js_object [(''enabled'', JBool True), (''server_name'', JStr (server_name_of n)),
                     (''insecure'', JBool (tl_insecure (nd_tls n)))]
         in if tl_alpn (nd_tls n) \<noteq> []
            then js_insert ''alpn'' (JArr (map JStr (tl_alpn (nd_tls n)))) tls else tls))"

definition transport_block :: "node \<Rightarrow> json option" where
  "transport_block n =
     (case nd_transport n of
        JObj t \<Rightarrow> if t = [] then None else Some (nd_transport n)
      | _ \<Rightarrow> None)"

definition with_transport :: "node \<Rightarrow> json \<Rightarrow> json" where
  "with_transport n out =
     (case transport_block n of Some tr \<Rightarrow> js_insert ''transport'' tr out | None \<Rightarrow> out)"

definition sb_node_outbound :: "node \<Rightarrow> svc_error + json" where
  "sb_node_outbound n =
     (let out = js_object [(''tag'', JStr ''node''), (''server'', JStr (ep_host (nd_endpoint n))),
                  (''server_port'', port_json (ep_port (nd_endpoint n)))];
          protocol = nd_protocol n
      in if protocol = SHADOWSOCKS then
           (let out = js_insert ''type'' (JStr ''shadowsocks'') out;
                out = js_insert ''method'' (JStr (auth_str n ''method'')) out;
                out = js_insert ''password'' (JStr (auth_str n ''password'')) out
            in Inr (case transport_block n of
                 Some tr \<Rightarrow> js_insert ''tls'' (tls_block n) (js_insert ''transport'' tr out)
               | None \<Rightarrow> out))
         else if protocol = VMESS then
           (let out = js_insert ''type'' (JStr ''vmess'') out;
                out = js_insert ''uuid'' (JStr (auth_str n ''uuid'')) out;
                security = auth_str n ''security'';
                security = (if security = [] then ''auto'' else security);
                out = js_insert ''security'' (JStr security) out;
                aid = (case parse_i64 (auth_str n ''alter_id'') of None \<Rightarrow> 0 | Some a \<Rightarrow> a);
                out = js_insert ''alter_id'' (JInt aid) out
            in Inr (js_insert ''tls'' (tls_block n) (with_transport n out)))
         else if protocol = VLESS then
           (let out = js_insert ''type'' (JStr ''vless'') out;
                out = js_insert ''uuid'' (JStr (auth_str n ''uuid'')) out;
                flow = auth_str n ''flow'';
                out = (if flow \<noteq> [] then js_insert ''flow'' (JStr flow) out else out)
            in Inr (js_insert ''tls'' (tls_block n) (with_transport n out)))
         else if protocol = TROJAN then
           (let out = js_insert ''type'' (JStr ''trojan'') out;
                out = js_insert ''password'' (JStr (auth_str n ''password'')) out
            in Inr (js_insert ''tls'' (tls_block n) (with_transport n out)))
         else if protocol = SOCKS then
           (let out = js_insert ''type'' (JStr ''socks'') out;
                out = js_insert ''version'' (JStr ''5'') out;
                user = auth_str n ''username'';
                out = (if user \<noteq> [] then
                         js_insert ''password'' (JStr (auth_str n ''password'')) (js_insert ''username'' (JStr user) out)
                       else out)
            in Inr (js_insert ''tls'' (tls_block n) out))
         else Inl (ConfigInvalid (''no core builder for protocol '' @ protocol)))"

fun sb_dns_servers :: "nat \<Rightarrow> dns_server list \<Rightarrow> json list" where
  "sb_dns_servers i [] = []"
| "sb_dns_servers i (s # rest) =
     (let tag = (if ds_tag s = ''proxy'' then ''dns-remote'' else ''dns-direct'');
          address = (if ds_kind s = ''udp'' then Some (trim_end_matches '':53'' (ds_url s))
                     else if ds_kind s = ''doh'' then Some (ds_url s) else None)
      in case address of
           None \<Rightarrow> sb_dns_servers (Suc i) rest
         | Some address \<Rightarrow>
             (let tag = (if i = 0 then tag else tag @ ''-'' @ nat_str i);
                  entry = js_object [(''tag'', JStr tag), (''address'', JStr address)];
                  entry = (if ds_tag s = ''proxy'' then js_insert ''detour'' (JStr ''node'') entry else entry)
              in entry # sb_dns_servers (Suc i) rest))"

definition final_tag :: "json list \<Rightarrow> string" where
  "final_tag servers =
     (case (case find (\<lambda>s. js_str (js_at s ''tag'') = Some ''dns-direct'') servers of
              Some s \<Rightarrow> Some s
            | None \<Rightarrow> (case servers of [] \<Rightarrow> None | s # _ \<Rightarrow> Some s)) of
        None \<Rightarrow> ''dns-direct''
      | Some s \<Rightarrow> (case js_str (js_at s ''tag'') of None \<Rightarrow> ''dns-direct'' | Some t \<Rightarrow> t))"

definition sb_dns_block :: "dns_config \<Rightarrow> json" where
  "sb_dns_block dns =
     (let servers = sb_dns_servers 0 (dc_servers dns);
          servers = (if servers = []
                     then [js_object [(''tag'', JStr ''dns-direct''), (''address'', JStr ''223.5.5.5'')]]
                     else servers)
      in js_object [(''servers'', JArr servers), (''final'', JStr (final_tag servers)),
           (''strategy'', JStr ''prefer_ipv4''), (''independent_cache'', JBool True)])"

definition build_singbox_config :: "node \<Rightarrow> u16 \<Rightarrow> dns_config \<Rightarrow> svc_error + json" where
  "build_singbox_config n mixed_port dns =
     (case sb_node_outbound n of
        Inl e \<Rightarrow> Inl e
      | Inr outbound \<Rightarrow>
          Inr (js_object
            [(''log'', js_object [(''level'', JStr ''warn''), (''timestamp'', JBool True)]),
             (''dns'', sb_dns_block dns),
             (''inbounds'', JArr [js_object
                [(''type'', JStr ''mixed''), (''tag'', JStr ''mixed-in''), (''listen'', JStr ''127.0.0.1''),
                 (''listen_port'', port_json mixed_port), (''sniff'', JBool True),
                 (''sniff_override_destination'', JBool True)]]),
             (''outbounds'', JArr [outbound,
                js_object [(''type'', JStr ''direct''), (''tag'', JStr ''direct'')],
                js_object [(''type'', JStr ''block''), (''tag'', JStr ''block'')]]),
             (''route'', js_object
                [(''rules'', JArr [js_object [(''ip_is_private'', JBool True), (''outbound'', JStr ''direct'')]]),
                 (''final'', JStr ''node''), (''auto_detect_interface'', JBool True)])]))"

section \<open>Xray\<close>

definition transport_kind :: "node \<Rightarrow> string option" where
  "transport_kind n =
     (case Option.bind (js_get (nd_transport n) ''type'') js_str of
        None \<Rightarrow> None | Some t \<Rightarrow> if t = [] then None else Some t)"

definition pick_str :: "json \<Rightarrow> string \<Rightarrow> string option" where
  "pick_str v key = Option.bind (js_get v key) js_str"

definition xr_network :: "string option \<Rightarrow> svc_error + string" where
  "xr_network kind =
     (case kind of
        None \<Rightarrow> Inr ''tcp''
      | Some k \<Rightarrow>
          if k = ''tcp'' \<or> k = ''ws'' \<or> k = ''grpc'' \<or> k = ''xhttp'' then Inr k
          else Inl (ConfigInvalid (''xray builder: unsupported transport '' @ k)))"

definition xr_security :: "node \<Rightarrow> json \<Rightarrow> json" where
  \<comment> \<open>the TLS or Reality part of \<^verbatim>\<open>stream_settings\<close>\<close>
  "xr_security n s =
     (case js_get (nd_authentication n) ''reality'' of
        Some r \<Rightarrow>
          js_insert ''realitySettings''
            (js_object
              [(''serverName'', JStr (server_name_of n)),
               (''fingerprint'', JStr (case pick_str r ''fingerprint'' of None \<Rightarrow> ''chrome'' | Some f \<Rightarrow> f)),
               (''publicKey'', JStr (case pick_str r ''public_key'' of None \<Rightarrow> [] | Some k \<Rightarrow> k)),
               (''shortId'', JStr (case pick_str r ''short_id'' of None \<Rightarrow> [] | Some i \<Rightarrow> i)),
               (''spiderX'', JStr [])])
            (js_insert ''security'' (JStr ''reality'') s)
      | None \<Rightarrow>
          if tl_enabled (nd_tls n) then
            (let tls = js_object [(''serverName'', JStr (server_name_of n)),
                         (''allowInsecure'', JBool (tl_insecure (nd_tls n))), (''fingerprint'', JStr ''chrome'')];
                 tls = (if tl_alpn (nd_tls n) \<noteq> []
                        then js_insert ''alpn'' (JArr (map JStr (tl_alpn (nd_tls n)))) tls else tls)
             in js_insert ''tlsSettings'' tls (js_insert ''security'' (JStr ''tls'') s))
          else js_insert ''security'' (JStr ''none'') s)"

definition put_nonempty :: "string \<Rightarrow> json \<Rightarrow> json \<Rightarrow> json" where
  \<comment> \<open>copy a transport string when it is there and not empty\<close>
  "put_nonempty key transport obj =
     (case pick_str transport key of
        None \<Rightarrow> obj | Some p \<Rightarrow> if p \<noteq> [] then js_insert key (JStr p) obj else obj)"

definition xr_transport :: "node \<Rightarrow> string \<Rightarrow> json \<Rightarrow> json" where
  \<comment> \<open>the transport part of \<^verbatim>\<open>stream_settings\<close>\<close>
  "xr_transport n network s =
     (let t = nd_transport n
      in if network = ''ws'' then
           (let path = (case js_str (js_at t ''path'') of None \<Rightarrow> ''/'' | Some p \<Rightarrow> p);
                host = (case js_str (js_at (js_at t ''headers'') ''Host'') of None \<Rightarrow> [] | Some h \<Rightarrow> h)
            in js_insert ''wsSettings''
                 (js_object [(''path'', JStr path),
                    (''headers'', if host = [] then js_object [] else js_object [(''Host'', JStr host)])]) s)
         else if network = ''grpc'' then
           js_insert ''grpcSettings''
             (js_object [(''serviceName'', JStr (case js_str (js_at t ''service_name'') of None \<Rightarrow> [] | Some x \<Rightarrow> x)),
                (''multiMode'', JBool False)]) s
         else if network = ''xhttp'' then
           js_insert ''xhttpSettings''
             (put_nonempty ''mode'' t (put_nonempty ''host'' t (put_nonempty ''path'' t (js_object [])))) s
         else s)"

definition stream_settings :: "node \<Rightarrow> svc_error + json" where
  "stream_settings n =
     (case xr_network (transport_kind n) of
        Inl e \<Rightarrow> Inl e
      | Inr network \<Rightarrow>
          Inr (xr_transport n network (xr_security n (js_object [(''network'', JStr network)]))))"

definition xr_protocol_part :: "node \<Rightarrow> json \<Rightarrow> svc_error + json" where
  \<comment> \<open>the match on the protocol in \<^verbatim>\<open>node_outbound\<close>\<close>
  "xr_protocol_part n out =
     (let host = JStr (ep_host (nd_endpoint n)); port = port_json (ep_port (nd_endpoint n));
          protocol = nd_protocol n
      in if protocol = VLESS then
           (let out = js_insert ''protocol'' (JStr ''vless'') out;
                user = js_object [(''id'', JStr (auth_str n ''uuid'')), (''encryption'', JStr ''none'')];
                flow = auth_str n ''flow'';
                user = (if flow \<noteq> [] then js_insert ''flow'' (JStr flow) user else user)
            in Inr (js_insert ''settings''
                 (js_object [(''vnext'', JArr [js_object
                    [(''address'', host), (''port'', port), (''users'', JArr [user])]])]) out))
         else if protocol = TROJAN then
           Inr (js_insert ''settings''
             (js_object [(''servers'', JArr [js_object
                [(''address'', host), (''port'', port), (''password'', JStr (auth_str n ''password''))]])])
             (js_insert ''protocol'' (JStr ''trojan'') out))
         else if protocol = SHADOWSOCKS then
           Inr (js_insert ''settings''
             (js_object [(''servers'', JArr [js_object
                [(''address'', host), (''port'', port), (''method'', JStr (auth_str n ''method'')),
                 (''password'', JStr (auth_str n ''password''))]])])
             (js_insert ''protocol'' (JStr ''shadowsocks'') out))
         else Inl (ConfigInvalid (''xray builder: no mapping for protocol '' @ protocol)))"

definition xr_node_outbound :: "node \<Rightarrow> svc_error + json" where
  "xr_node_outbound n =
     (case stream_settings n of
        Inl e \<Rightarrow> Inl e
      | Inr stream \<Rightarrow>
          (case xr_protocol_part n (js_object [(''tag'', JStr ''node'')]) of
             Inl e \<Rightarrow> Inl e
           | Inr out \<Rightarrow> Inr (js_insert ''streamSettings'' stream out)))"

fun xr_dns_servers :: "dns_server list \<Rightarrow> json list" where
  "xr_dns_servers [] = []"
| "xr_dns_servers (s # rest) =
     (if ds_kind s = ''udp'' then [js_object [(''address'', JStr (trim_end_matches '':53'' (ds_url s)))]]
      else if ds_kind s = ''doh'' then [js_object [(''address'', JStr (ds_url s))]]
      else []) @ xr_dns_servers rest"

definition xr_dns_block :: "dns_config \<Rightarrow> json" where
  "xr_dns_block dns =
     (let servers = xr_dns_servers (dc_servers dns);
          servers = (if servers = [] then [js_object [(''address'', JStr ''223.5.5.5'')]] else servers)
      in js_object [(''servers'', JArr servers), (''queryStrategy'', JStr ''UseIPv4'')])"

definition STATS_PORT :: u16 where "STATS_PORT = 15490"

definition build_xray_config :: "node \<Rightarrow> u16 \<Rightarrow> u16 \<Rightarrow> dns_config \<Rightarrow> svc_error + json" where
  "build_xray_config n mixed_port socks_port dns =
     (let sniff = js_object [(''enabled'', JBool True),
                    (''destOverride'', JArr (map JStr [''http'', ''tls'', ''quic'']))]
      in case xr_node_outbound n of
           Inl e \<Rightarrow> Inl e
         | Inr node_ob \<Rightarrow>
             (let node_ob = js_insert ''stats'' (js_object [(''enabled'', JBool True)]) node_ob
              in Inr (js_object
                [(''log'', js_object [(''loglevel'', JStr ''warning'')]),
                 (''stats'', js_object []),
                 (''api'', js_object [(''tag'', JStr ''api''), (''services'', JArr [JStr ''StatsService''])]),
                 (''policy'', js_object [(''levels'', js_object [(''0'', js_object
                    [(''statsInboundUplink'', JBool True), (''statsInboundDownlink'', JBool True),
                     (''statsOutboundUplink'', JBool True), (''statsOutboundDownlink'', JBool True)])])]),
                 (''dns'', xr_dns_block dns),
                 (''inbounds'', JArr
                    [js_object [(''tag'', JStr ''http-in''), (''listen'', JStr ''127.0.0.1''),
                       (''port'', port_json mixed_port), (''protocol'', JStr ''http''),
                       (''settings'', js_object []), (''sniffing'', sniff)],
                     js_object [(''tag'', JStr ''socks-in''), (''listen'', JStr ''127.0.0.1''),
                       (''port'', port_json socks_port), (''protocol'', JStr ''socks''),
                       (''settings'', js_object [(''udp'', JBool True), (''auth'', JStr ''noauth'')]),
                       (''sniffing'', sniff)],
                     js_object [(''tag'', JStr ''api-in''), (''listen'', JStr ''127.0.0.1''),
                       (''port'', port_json STATS_PORT), (''protocol'', JStr ''dokodemo-door''),
                       (''settings'', js_object [(''address'', JStr ''127.0.0.1'')])]]),
                 (''outbounds'', JArr [node_ob,
                    js_object [(''protocol'', JStr ''freedom''), (''tag'', JStr ''direct'')],
                    js_object [(''protocol'', JStr ''blackhole''), (''tag'', JStr ''block'')]]),
                 (''routing'', js_object
                    [(''domainStrategy'', JStr ''AsIs''),
                     (''rules'', JArr
                        [js_object [(''type'', JStr ''field''), (''inboundTag'', JArr [JStr ''api-in'']),
                           (''outboundTag'', JStr ''api'')],
                         js_object [(''type'', JStr ''field''),
                           (''ip'', JArr (map JStr
                              [''10.0.0.0/8'', ''172.16.0.0/12'', ''192.168.0.0/16'', ''127.0.0.0/8'',
                               ''169.254.0.0/16'', ''fc00::/7'', ''fe80::/10''])),
                           (''outboundTag'', JStr ''direct'')]])])])))"

section \<open>Which nodes can be built\<close>

lemma sb_outbound_ok_iff:
  "is_ok (sb_node_outbound n) \<longleftrightarrow> nd_protocol n \<in> {SHADOWSOCKS, VMESS, VLESS, TROJAN, SOCKS}"
  by (simp add: sb_node_outbound_def Let_def)

lemma singbox_ok_iff:
  "is_ok (build_singbox_config n p dns) \<longleftrightarrow> nd_protocol n \<in> {SHADOWSOCKS, VMESS, VLESS, TROJAN, SOCKS}"
  unfolding sb_outbound_ok_iff [symmetric]
  by (auto simp: build_singbox_config_def is_ok_iff split: sum.split)

lemma xr_network_ok_iff:
  "is_ok (xr_network k) \<longleftrightarrow> k \<in> {None, Some ''tcp'', Some ''ws'', Some ''grpc'', Some ''xhttp''}"
  by (cases k) (simp_all add: xr_network_def)

lemma xr_protocol_ok_iff: "is_ok (xr_protocol_part n out) \<longleftrightarrow> nd_protocol n \<in> {VLESS, TROJAN, SHADOWSOCKS}"
  by (simp add: xr_protocol_part_def Let_def)

lemma xr_outbound_ok_iff:
  "is_ok (xr_node_outbound n) \<longleftrightarrow> is_ok (xr_network (transport_kind n)) \<and> is_ok (xr_protocol_part n (js_object [(''tag'', JStr ''node'')]))"
  by (auto simp: xr_node_outbound_def stream_settings_def is_ok_iff split: sum.splits)

lemma xray_ok_iff:
  "is_ok (build_xray_config n p q dns) \<longleftrightarrow>
     nd_protocol n \<in> {VLESS, TROJAN, SHADOWSOCKS}
   \<and> transport_kind n \<in> {None, Some ''tcp'', Some ''ws'', Some ''grpc'', Some ''xhttp''}"
proof -
  have "is_ok (build_xray_config n p q dns) \<longleftrightarrow> is_ok (xr_node_outbound n)"
    by (auto simp: build_xray_config_def Let_def is_ok_iff split: sum.split)
  then show ?thesis by (simp only: xr_outbound_ok_iff xr_network_ok_iff xr_protocol_ok_iff conj_commute)
qed

section \<open>The sing-box configuration\<close>

definition tag_of :: "json \<Rightarrow> string" where
  "tag_of s = (case js_str (js_at s ''tag'') of None \<Rightarrow> [] | Some t \<Rightarrow> t)"

lemma nat_str_inj: "nat_str a = nat_str b \<Longrightarrow> a = b"
  by (metis max.cobounded1 max.cobounded2 option.inject parse_uint_nat_str)

lemma entry_tag:
  "js_at (js_object [(''tag'', t), (''address'', a)]) ''tag'' = t"
  "js_at (js_insert ''detour'' d (js_object [(''tag'', t), (''address'', a)])) ''tag'' = t"
  by (simp_all add: js_insert_object js_at_object)

lemma tag_of_entry: "js_at e ''tag'' = JStr t \<Longrightarrow> js_str (js_at e ''tag'') = Some t \<and> tag_of e = t"
  by (simp add: tag_of_def js_str_def)

definition index_suffix :: "nat \<Rightarrow> string" where
  "index_suffix i = (if i = 0 then [] else CHR ''-'' # nat_str i)"

lemma index_suffix_inj: "index_suffix i = index_suffix j \<longleftrightarrow> i = j"
  by (auto simp: index_suffix_def dest: nat_str_inj split: if_splits)

lemma sb_dns_Cons:
  "sb_dns_servers i (x # ss) = sb_dns_servers (Suc i) ss
   \<or> (\<exists>e. sb_dns_servers i (x # ss) = e # sb_dns_servers (Suc i) ss
        \<and> js_str (js_at e ''tag'') = Some (tag_of e) \<and> drop 10 (tag_of e) = index_suffix i)"
proof -
  define tag where "tag = (if ds_tag x = ''proxy'' then ''dns-remote'' else ''dns-direct'') @ index_suffix i"
  define entry where "entry a = (let e = js_object [(''tag'', JStr tag), (''address'', JStr a)]
    in if ds_tag x = ''proxy'' then js_insert ''detour'' (JStr ''node'') e else e)" for a
  have "js_at (entry a) ''tag'' = JStr tag" for a by (simp add: entry_def entry_tag Let_def)
  note this [THEN tag_of_entry]
  moreover have "drop 10 tag = index_suffix i" by (simp add: tag_def)
  moreover have "sb_dns_servers i (x # ss) = sb_dns_servers (Suc i) ss
    \<or> (\<exists>a. sb_dns_servers i (x # ss) = entry a # sb_dns_servers (Suc i) ss)"
    by (cases "ds_kind x = ''udp''"; cases "ds_kind x = ''doh''")
      (simp_all add: entry_def tag_def index_suffix_def Let_def, blast+)
  ultimately show ?thesis by metis
qed

lemma sb_dns_tags:
  "s \<in> set (sb_dns_servers i ss) \<Longrightarrow>
     js_str (js_at s ''tag'') = Some (tag_of s) \<and> (\<exists>j \<ge> i. drop 10 (tag_of s) = index_suffix j)"
proof (induction ss arbitrary: i)
  case (Cons x ss)
  from sb_dns_Cons [of i x ss] Cons.prems
  consider "s \<in> set (sb_dns_servers (Suc i) ss)"
    | "js_str (js_at s ''tag'') = Some (tag_of s)" "drop 10 (tag_of s) = index_suffix i"
    by (elim disjE exE conjE) (simp_all del: sb_dns_servers.simps, blast)
  then show ?case
  proof cases
    case 1
    from Cons.IH [OF this] show ?thesis using Suc_leD by blast
  qed blast
qed simp

lemma sb_dns_tags_distinct: "distinct (map tag_of (sb_dns_servers i ss))"
proof (induction ss arbitrary: i)
  case (Cons x ss)
  have fresh: "tag_of e \<notin> tag_of ` set (sb_dns_servers (Suc i) ss)"
    if "drop 10 (tag_of e) = index_suffix i" for e
  proof
    assume "tag_of e \<in> tag_of ` set (sb_dns_servers (Suc i) ss)"
    then obtain s where s: "s \<in> set (sb_dns_servers (Suc i) ss)" "tag_of e = tag_of s" by blast
    with sb_dns_tags [OF s(1)] that show False by (auto simp: index_suffix_inj)
  qed
  from sb_dns_Cons [of i x ss] Cons.IH [of "Suc i"] fresh show ?case
    by (elim disjE exE conjE) (simp_all del: sb_dns_servers.simps)
qed simp

lemma final_tag_mem:
  assumes "ss \<noteq> []" "\<And>s. s \<in> set ss \<Longrightarrow> js_str (js_at s ''tag'') = Some (tag_of s)"
  shows "final_tag ss \<in> tag_of ` set ss"
proof (cases "find (\<lambda>s. js_str (js_at s ''tag'') = Some ''dns-direct'') ss")
  case None
  with assms show ?thesis by (cases ss) (auto simp: final_tag_def)
next
  case (Some s)
  then have "s \<in> set ss" by (auto simp: find_Some_iff)
  with assms(2) [OF this] Some show ?thesis by (simp add: final_tag_def)
qed

lemma with_transport_get [simp]:
  "is_object out \<Longrightarrow> k \<noteq> ''transport'' \<Longrightarrow> js_get (with_transport n out) k = js_get out k"
  "is_object out \<Longrightarrow> is_object (with_transport n out)"
  by (simp_all add: with_transport_def split: option.split)

lemma sb_outbound_fields:
  assumes "sb_node_outbound n = Inr ob"
  shows "js_get ob ''tag'' = Some (JStr ''node'')"
    and "js_get ob ''server'' = Some (JStr (ep_host (nd_endpoint n)))"
    and "js_get ob ''server_port'' = Some (port_json (ep_port (nd_endpoint n)))"
    and "js_get ob ''type'' = Some (JStr (nd_protocol n))"
    and "nd_protocol n \<noteq> SHADOWSOCKS \<Longrightarrow> js_get ob ''tls'' = Some (tls_block n)"
  using assms
  by (auto simp: sb_node_outbound_def Let_def js_get_object protocol_defs
      split: if_splits option.splits)

text \<open>
  C33. The sing-box configuration is the one the service relies on.  It is produced exactly
  for the five protocols with a mapping.  Its only inbound listens on the loopback address at
  the configured port; its default outbound is tagged as the node, of the node's protocol and
  address, and carries the node's TLS settings unless the protocol is Shadowsocks; traffic
  ends there by default; the DNS servers have distinct tags, and the final one names one of
  them.
\<close>

theorem singbox_config_shape:
  "case build_singbox_config n p dns of
     Inl e \<Rightarrow> nd_protocol n \<notin> {SHADOWSOCKS, VMESS, VLESS, TROJAN, SOCKS}
   | Inr cfg \<Rightarrow>
       nd_protocol n \<in> {SHADOWSOCKS, VMESS, VLESS, TROJAN, SOCKS}
     \<and> (\<exists>inb. js_get cfg ''inbounds'' = Some (JArr [inb]) \<and> js_get inb ''listen'' = Some (JStr ''127.0.0.1'')
          \<and> js_get inb ''listen_port'' = Some (JInt (uint p)))
     \<and> (\<exists>ob others. js_get cfg ''outbounds'' = Some (JArr (ob # others))
          \<and> js_get ob ''tag'' = Some (JStr ''node'') \<and> js_get ob ''type'' = Some (JStr (nd_protocol n))
          \<and> js_get ob ''server'' = Some (JStr (ep_host (nd_endpoint n)))
          \<and> js_get ob ''server_port'' = Some (JInt (uint (ep_port (nd_endpoint n))))
          \<and> (nd_protocol n = SHADOWSOCKS \<or> js_get ob ''tls'' = Some (tls_block n)))
     \<and> js_get (js_at cfg ''route'') ''final'' = Some (JStr ''node'')
     \<and> (\<exists>servers t. js_get (js_at cfg ''dns'') ''servers'' = Some (JArr servers)
          \<and> js_get (js_at cfg ''dns'') ''final'' = Some (JStr t)
          \<and> distinct (map tag_of servers) \<and> t \<in> tag_of ` set servers)"
proof (cases "build_singbox_config n p dns")
  case (Inl e)
  with singbox_ok_iff [of n p dns] show ?thesis by simp
next
  case (Inr cfg)
  with singbox_ok_iff [of n p dns]
  have proto: "nd_protocol n \<in> {SHADOWSOCKS, VMESS, VLESS, TROJAN, SOCKS}" by simp
  from Inr obtain ob where ob: "sb_node_outbound n = Inr ob"
    by (auto simp: build_singbox_config_def split: sum.splits)
  define servers where "servers = (let ss = sb_dns_servers 0 (dc_servers dns)
    in if ss = [] then [js_object [(''tag'', JStr ''dns-direct''), (''address'', JStr ''223.5.5.5'')]] else ss)"
  have cfg: "js_get cfg ''inbounds'' = Some (JArr [js_object
        [(''type'', JStr ''mixed''), (''tag'', JStr ''mixed-in''), (''listen'', JStr ''127.0.0.1''),
         (''listen_port'', port_json p), (''sniff'', JBool True), (''sniff_override_destination'', JBool True)]])"
    "\<exists>others. js_get cfg ''outbounds'' = Some (JArr (ob # others))"
    "js_get (js_at cfg ''route'') ''final'' = Some (JStr ''node'')"
    "js_get (js_at cfg ''dns'') ''servers'' = Some (JArr servers)"
    "js_get (js_at cfg ''dns'') ''final'' = Some (JStr (final_tag servers))"
    using Inr ob by (auto simp: build_singbox_config_def js_get_object js_at_object sb_dns_block_def
        servers_def Let_def)
  have "distinct (map tag_of servers)"
    using sb_dns_tags_distinct by (simp add: servers_def Let_def)
  moreover have "final_tag servers \<in> tag_of ` set servers"
    using sb_dns_tags [of _ 0 "dc_servers dns"] tag_of_entry [OF entry_tag(1)]
    by (intro final_tag_mem) (auto simp: servers_def Let_def split: if_splits)
  ultimately show ?thesis using Inr proto cfg sb_outbound_fields [OF ob]
    by (auto simp: js_get_object port_json_def)
qed

section \<open>The Xray configuration\<close>

definition security_of :: "node \<Rightarrow> string" where
  "security_of n =
     (if js_get (nd_authentication n) ''reality'' \<noteq> None then ''reality''
      else if tl_enabled (nd_tls n) then ''tls'' else ''none'')"

lemma xr_security_fields:
  assumes "is_object s"
  shows "js_get (xr_security n s) ''security'' = Some (JStr (security_of n))"
    and "js_get (xr_security n s) ''network'' = js_get s ''network''"
    and "is_object (xr_security n s)"
  using assms by (simp_all add: xr_security_def security_of_def Let_def split: option.split)

lemma xr_transport_fields:
  assumes "is_object s"
  shows "js_get (xr_transport n net s) ''security'' = js_get s ''security''"
    and "js_get (xr_transport n net s) ''network'' = js_get s ''network''"
  using assms by (simp_all add: xr_transport_def Let_def)

lemma stream_settings_fields:
  assumes "stream_settings n = Inr s"
  shows "js_get s ''security'' = Some (JStr (security_of n))"
    and "js_get s ''network'' = Some (JStr (case transport_kind n of None \<Rightarrow> ''tcp'' | Some k \<Rightarrow> k))"
proof -
  from assms obtain net where net: "xr_network (transport_kind n) = Inr net"
    and s: "s = xr_transport n net (xr_security n (js_object [(''network'', JStr net)]))"
    by (auto simp: stream_settings_def split: sum.splits)
  from net have "net = (case transport_kind n of None \<Rightarrow> ''tcp'' | Some k \<Rightarrow> k)"
    by (auto simp: xr_network_def split: option.splits if_splits)
  with s show "js_get s ''security'' = Some (JStr (security_of n))"
    "js_get s ''network'' = Some (JStr (case transport_kind n of None \<Rightarrow> ''tcp'' | Some k \<Rightarrow> k))"
    by (simp_all add: xr_transport_fields xr_security_fields js_get_object)
qed

lemma xr_outbound_fields:
  assumes "xr_node_outbound n = Inr ob"
  shows "js_get ob ''tag'' = Some (JStr ''node'')"
    and "js_get ob ''protocol'' = Some (JStr (nd_protocol n))"
    and "\<exists>s. js_get ob ''streamSettings'' = Some s \<and> js_get s ''security'' = Some (JStr (security_of n))
           \<and> js_get s ''network'' = Some (JStr (case transport_kind n of None \<Rightarrow> ''tcp'' | Some k \<Rightarrow> k))"
    and "is_object ob"
proof -
  from assms obtain s out where s: "stream_settings n = Inr s"
    and out: "xr_protocol_part n (js_object [(''tag'', JStr ''node'')]) = Inr out"
    and ob: "ob = js_insert ''streamSettings'' s out"
    by (auto simp: xr_node_outbound_def split: sum.splits)
  have "is_object out \<and> js_get out ''tag'' = Some (JStr ''node'') \<and> js_get out ''protocol'' = Some (JStr (nd_protocol n))"
    using out by (auto simp: xr_protocol_part_def Let_def js_get_object protocol_defs split: if_splits)
  with ob stream_settings_fields [OF s]
  show "js_get ob ''tag'' = Some (JStr ''node'')" "js_get ob ''protocol'' = Some (JStr (nd_protocol n))"
    "\<exists>s. js_get ob ''streamSettings'' = Some s \<and> js_get s ''security'' = Some (JStr (security_of n))
           \<and> js_get s ''network'' = Some (JStr (case transport_kind n of None \<Rightarrow> ''tcp'' | Some k \<Rightarrow> k))"
    "is_object ob"
    by auto
qed

text \<open>
  C34. The Xray configuration is the one the service relies on.  It is produced exactly for
  the three protocols and five transports with a mapping.  All three inbounds listen on the
  loopback address, at the configured ports and the statistics port; the first outbound is
  the node's, with statistics on, over its own transport, and its security is never less than
  the node asks for: Reality when it has Reality keys, TLS when TLS is enabled.
\<close>

theorem xray_config_shape:
  "case build_xray_config n p q dns of
     Inl e \<Rightarrow> \<not> (nd_protocol n \<in> {VLESS, TROJAN, SHADOWSOCKS}
              \<and> transport_kind n \<in> {None, Some ''tcp'', Some ''ws'', Some ''grpc'', Some ''xhttp''})
   | Inr cfg \<Rightarrow>
       nd_protocol n \<in> {VLESS, TROJAN, SHADOWSOCKS}
     \<and> transport_kind n \<in> {None, Some ''tcp'', Some ''ws'', Some ''grpc'', Some ''xhttp''}
     \<and> (\<exists>inbs. js_get cfg ''inbounds'' = Some (JArr inbs)
          \<and> map (\<lambda>b. js_get b ''listen'') inbs = replicate 3 (Some (JStr ''127.0.0.1''))
          \<and> map (\<lambda>b. js_get b ''port'') inbs = map (\<lambda>x. Some (JInt (uint x))) [p, q, STATS_PORT])
     \<and> (\<exists>ob others s. js_get cfg ''outbounds'' = Some (JArr (ob # others))
          \<and> js_get ob ''tag'' = Some (JStr ''node'') \<and> js_get ob ''protocol'' = Some (JStr (nd_protocol n))
          \<and> js_get (js_at ob ''stats'') ''enabled'' = Some (JBool True)
          \<and> js_get ob ''streamSettings'' = Some s \<and> js_get s ''security'' = Some (JStr (security_of n))
          \<and> js_get s ''network'' = Some (JStr (case transport_kind n of None \<Rightarrow> ''tcp'' | Some k \<Rightarrow> k)))"
proof (cases "build_xray_config n p q dns")
  case (Inl e)
  with xray_ok_iff [of n p q dns] show ?thesis by simp
next
  case (Inr cfg)
  with xray_ok_iff [of n p q dns]
  have ok: "nd_protocol n \<in> {VLESS, TROJAN, SHADOWSOCKS}"
    "transport_kind n \<in> {None, Some ''tcp'', Some ''ws'', Some ''grpc'', Some ''xhttp''}" by simp_all
  from Inr obtain ob where ob: "xr_node_outbound n = Inr ob"
    by (auto simp: build_xray_config_def Let_def split: sum.splits)
  define ob' where "ob' = js_insert ''stats'' (js_object [(''enabled'', JBool True)]) ob"
  note ob_fields = xr_outbound_fields [OF ob]
  have "\<exists>inbs. js_get cfg ''inbounds'' = Some (JArr inbs)
          \<and> map (\<lambda>b. js_get b ''listen'') inbs = replicate 3 (Some (JStr ''127.0.0.1''))
          \<and> map (\<lambda>b. js_get b ''port'') inbs = map (\<lambda>x. Some (JInt (uint x))) [p, q, STATS_PORT]"
    using Inr ob by (auto simp: build_xray_config_def js_get_object Let_def port_json_def numeral_3_eq_3)
  moreover have "\<exists>others. js_get cfg ''outbounds'' = Some (JArr (ob' # others))"
    using Inr ob by (auto simp: build_xray_config_def js_get_object Let_def ob'_def)
  moreover have "js_get ob' ''tag'' = Some (JStr ''node'')" "js_get ob' ''protocol'' = Some (JStr (nd_protocol n))"
    "js_get (js_at ob' ''stats'') ''enabled'' = Some (JBool True)"
    "js_get ob' ''streamSettings'' = js_get ob ''streamSettings''"
    using ob_fields by (simp_all add: ob'_def js_at_def js_get_object)
  ultimately show ?thesis using Inr ok ob_fields(3) by auto
qed

end
