(* ===== verification/Core_Adapter.thy ===== *)
theory Core_Adapter
  imports Core_Builder
begin

text \<open>
  \<^verbatim>\<open>proxy/manager.rs\<close> with the interface of \<^verbatim>\<open>proxy/adapter.rs\<close>: the proxy core as a child
  process.  What the operating system answers to the calls of one operation is an argument;
  the child is a record of what was started, kept from the spawn to the kill.
\<close>

section \<open>Which core\<close>

datatype core_kind = SingBox | Xray

definition for_node :: "string \<Rightarrow> node \<Rightarrow> core_kind" where
  "for_node app_kind n =
     (if eq_ignore_ascii_case app_kind ''xray'' then Xray
      else
        (let needs_xray = (case Option.bind (js_get (nd_transport n) ''type'') js_str of
                             None \<Rightarrow> False | Some t \<Rightarrow> eq_ignore_ascii_case t ''xhttp'')
         in if needs_xray then Xray else SingBox))"

definition core_binary :: "core_kind \<Rightarrow> string" where
  "core_binary k = (case k of SingBox \<Rightarrow> ''bin/sing-box.exe'' | Xray \<Rightarrow> ''bin/xray.exe'')"

section \<open>Paths\<close>

text \<open>
  Paths as Windows reads them: a drive letter with a separator, or two separators, makes a
  path absolute; joining an absolute path or one with a drive replaces the base, and one
  that starts at the root keeps only the drive of the base.
\<close>

definition is_sep :: "char \<Rightarrow> bool" where
  "is_sep c \<longleftrightarrow> c = CHR ''/'' \<or> c = CHR 0x5C"

definition has_drive :: "string \<Rightarrow> bool" where
  "has_drive p \<longleftrightarrow>
     (case p of
        c # d # _ \<Rightarrow> d = CHR '':'' \<and> (let l = (of_char (ascii_lower_char c) :: nat) in 97 \<le> l \<and> l \<le> 122)
      | _ \<Rightarrow> False)"

definition starts_with_sep :: "string \<Rightarrow> bool" where
  "starts_with_sep p \<longleftrightarrow> (case p of c # _ \<Rightarrow> is_sep c | [] \<Rightarrow> False)"

definition path_is_absolute :: "string \<Rightarrow> bool" where
  "path_is_absolute p \<longleftrightarrow>
     (if has_drive p then starts_with_sep (drop 2 p)
      else starts_with_sep p \<and> starts_with_sep (tl p))"

definition win_join :: "string \<Rightarrow> string \<Rightarrow> string" where
  "win_join a b =
     (if has_drive b \<or> path_is_absolute b then b
      else if starts_with_sep b then (if has_drive a then take 2 a else []) @ b
      else if a = [] \<or> is_sep (last a) then a @ b
      else a @ CHR 0x5C # b)"

fun path_components :: "string \<Rightarrow> string list" where
  "path_components [] = [[]]"
| "path_components (c # s) =
     (if is_sep c then [] # path_components s
      else case path_components s of [] \<Rightarrow> [[c]] | w # ws \<Rightarrow> (c # w) # ws)"

definition path_file_name :: "string \<Rightarrow> string option" where
  "path_file_name p =
     (let p = (if has_drive p then drop 2 p else p);
          cs = filter (\<lambda>c. c \<noteq> [] \<and> c \<noteq> ''.'') (path_components p)
      in if cs = [] \<or> last cs = ''..'' then None else Some (last cs))"

definition resolve_paths :: "string \<Rightarrow> core_config \<Rightarrow> core_kind \<Rightarrow> string \<times> string \<times> fs_path" where
  "resolve_paths data_root core kind =
     (let configured = cc_executable core;
          configured_names_xray = (case path_file_name configured of
             None \<Rightarrow> False | Some n \<Rightarrow> prefix ''xray'' (to_ascii_lowercase n));
          exe = (case kind of
             Xray \<Rightarrow>
               if configured_names_xray \<and> path_is_absolute configured then configured
               else if configured_names_xray then win_join data_root configured
               else win_join data_root (core_binary kind)
           | SingBox \<Rightarrow>
               if path_is_absolute configured then configured else win_join data_root configured);
          work_dir = (if path_is_absolute (cc_work_dir core) then cc_work_dir core
                      else win_join data_root (cc_work_dir core))
      in (exe, work_dir, (work_dir, ''config.json'')))"

section \<open>State\<close>

definition CORE_STOPPED :: u8 where "CORE_STOPPED = 0"
definition CORE_STARTING :: u8 where "CORE_STARTING = 1"
definition CORE_RUNNING :: u8 where "CORE_RUNNING = 2"
definition CORE_ERROR :: u8 where "CORE_ERROR = 3"

lemmas core_status_defs = CORE_STOPPED_def CORE_STARTING_def CORE_RUNNING_def CORE_ERROR_def

datatype core_status = StatusStopped | StatusStarting | StatusRunning | StatusError

datatype core_health = Healthy | LocalDead | UplinkDead

definition is_healthy :: "core_health \<Rightarrow> bool" where
  "is_healthy h \<longleftrightarrow> h = Healthy"

datatype core_event = CoreErrorEvent string | CoreStartedEvent | CoreStoppedEvent

record core_process =
  pr_exe :: string
  pr_dir :: string
  pr_config_path :: fs_path
  pr_config :: json
  pr_pid :: "u32 option"

record core_adapter =
  ca_status :: u8
  ca_pid :: u32
  ca_child :: "core_process option"
  ca_events :: "core_event list"

definition core_new :: core_adapter where
  "core_new = \<lparr>ca_status = CORE_STOPPED, ca_pid = 0, ca_child = None, ca_events = []\<rparr>"

section \<open>Operations\<close>

text \<open>
  What the system answers during one start: whether the executable is there, how the
  configuration file is written, the spawned process, the attempts to connect to the inbound
  before the deadline, and the exit status found afterwards, if the child has exited.
\<close>

record start_io =
  si_exe_exists :: bool
  si_write :: write_io
  si_spawn :: "string + u32 option"
  si_attempts :: "bool list"
  si_exited :: "string option"

definition start_good :: start_io where
  "start_good = \<lparr>si_exe_exists = True, si_write = io_good, si_spawn = Inr (Some 4242),
     si_attempts = [False, True], si_exited = None\<rparr>"

primrec wait_for_port :: "bool list \<Rightarrow> bool" where
  "wait_for_port [] = False"
| "wait_for_port (a # rest) = (if a then True else wait_for_port rest)"

definition core_emit :: "core_event \<Rightarrow> core_adapter \<Rightarrow> core_adapter" where
  "core_emit e c = c\<lparr>ca_events := e # ca_events c\<rparr>"

definition port_text :: "u16 \<Rightarrow> string" where
  "port_text p = ''127.0.0.1:'' @ nat_str (unat p)"

definition generate_config :: "core_kind \<Rightarrow> core_config \<Rightarrow> node \<Rightarrow> dns_config \<Rightarrow> svc_error + json" where
  "generate_config kind core n dns =
     (case kind of
        SingBox \<Rightarrow> build_singbox_config n (cc_mixed_port core) dns
      | Xray \<Rightarrow> build_xray_config n (cc_mixed_port core) (cc_socks_port core) dns)"

definition core_start ::
  "(json \<Rightarrow> string) \<Rightarrow> string \<Rightarrow> core_config \<Rightarrow> start_io \<Rightarrow> core_adapter \<times> fs \<Rightarrow> node \<Rightarrow> dns_config
     \<Rightarrow> (core_adapter \<times> fs) \<times> (svc_error + unit)" where
  "core_start ser data_root core io s n dns =
     (case s of (c, disk) \<Rightarrow>
        if ca_child c \<noteq> None then (s, Inl (AlreadyRunning ''proxy core''))
        else
          (let kind = for_node (cc_kind core) n
           in case resolve_paths data_root core kind of
                (exe, work_dir, config_path) \<Rightarrow>
                  if \<not> si_exe_exists io then
                    (s, Inl (Core (''core executable not found: '' @ exe @ '' '' @ [CHR 0xE2, CHR 0x80, CHR 0x94] @ '' place a ''
                          @ (case kind of SingBox \<Rightarrow> ''sing-box'' | Xray \<Rightarrow> ''xray-core'')
                          @ '' binary there or update config/core.executable'')))
                  else
                    (case generate_config kind core n dns of
                       Inl e \<Rightarrow> (s, Inl e)
                     | Inr generated \<Rightarrow>
                         (case atomic_write (si_write io) disk config_path (ser generated) of
                            (disk, Inl e) \<Rightarrow> ((c, disk), Inl e)
                          | (disk, Inr _) \<Rightarrow>
                              (let c = c\<lparr>ca_status := CORE_STARTING\<rparr>
                               in case si_spawn io of
                                    Inl e \<Rightarrow>
                                      ((c\<lparr>ca_status := CORE_ERROR\<rparr>, disk),
                                       Inl (Core (''failed to spawn '' @ exe @ '': '' @ e)))
                                  | Inr pid \<Rightarrow>
                                      (let child = \<lparr>pr_exe = exe, pr_dir = work_dir, pr_config_path = config_path,
                                             pr_config = generated, pr_pid = pid\<rparr>;
                                           c = c\<lparr>ca_pid := (case pid of None \<Rightarrow> 0 | Some i \<Rightarrow> i)\<rparr>;
                                           ready = wait_for_port (si_attempts io)
                                       in case si_exited io of
                                            Some status \<Rightarrow>
                                              (let msg = ''core exited on startup ('' @ status @ ''); ''
                                                     @ port_text (cc_mixed_port core) @ '' is held by another process''
                                               in ((core_emit (CoreErrorEvent msg) (c\<lparr>ca_status := CORE_ERROR\<rparr>), disk),
                                                   Inl (Core msg)))
                                          | None \<Rightarrow>
                                              if \<not> ready then
                                                ((core_emit (CoreErrorEvent (''core did not open inbound ''
                                                     @ port_text (cc_mixed_port core) @ '' within ''
                                                     @ nat_str (unat (cc_start_timeout_secs core)) @ ''s''))
                                                    (c\<lparr>ca_status := CORE_ERROR\<rparr>), disk),
                                                 Inl (Core ''inbound port never opened''))
                                              else
                                                ((core_emit CoreStartedEvent
                                                    (c\<lparr>ca_child := Some child, ca_status := CORE_RUNNING\<rparr>), disk),
                                                 Inr ())))))))"

definition core_stop :: "core_adapter \<Rightarrow> core_adapter" where
  "core_stop c = core_emit CoreStoppedEvent (c\<lparr>ca_child := None, ca_status := CORE_STOPPED, ca_pid := 0\<rparr>)"

definition core_restart ::
  "(json \<Rightarrow> string) \<Rightarrow> string \<Rightarrow> core_config \<Rightarrow> start_io \<Rightarrow> core_adapter \<times> fs \<Rightarrow> node \<Rightarrow> dns_config
     \<Rightarrow> (core_adapter \<times> fs) \<times> (svc_error + unit)" where
  "core_restart ser data_root core io s n dns = core_start ser data_root core io (core_stop (fst s), snd s) n dns"

definition core_status_of :: "core_adapter \<Rightarrow> core_status" where
  "core_status_of c =
     (if ca_status c = CORE_STARTING then StatusStarting
      else if ca_status c = CORE_RUNNING then StatusRunning
      else if ca_status c = CORE_ERROR then StatusError
      else StatusStopped)"

definition core_pid :: "core_adapter \<Rightarrow> u32 option" where
  "core_pid c = (if ca_pid c = 0 then None else Some (ca_pid c))"

text \<open>
  The answers of one health check: whether the inbound accepts a connection in time, and the
  status of the request through the tunnel, if one came back.
\<close>

record health_io =
  hi_local :: bool
  hi_tunnel :: "nat option"

definition tunnel_probe :: "health_io \<Rightarrow> bool" where
  "tunnel_probe io \<longleftrightarrow> (case hi_tunnel io of None \<Rightarrow> False | Some code \<Rightarrow> code = 200 \<or> code = 204)"

definition health_check :: "health_io \<Rightarrow> core_adapter \<Rightarrow> core_health" where
  "health_check io c =
     (if ca_status c \<noteq> CORE_RUNNING then LocalDead
      else if \<not> hi_local io then LocalDead
      else if tunnel_probe io then Healthy else UplinkDead)"

section \<open>Which nodes a core can be started for\<close>

definition transport_type :: "node \<Rightarrow> string option" where
  "transport_type n = Option.bind (js_get (nd_transport n) ''type'') js_str"

definition wants_xhttp :: "node \<Rightarrow> bool" where
  "wants_xhttp n \<longleftrightarrow> (case transport_type n of None \<Rightarrow> False | Some t \<Rightarrow> eq_ignore_ascii_case t ''xhttp'')"

lemma for_node_auto:
  "\<not> eq_ignore_ascii_case app_kind ''xray'' \<Longrightarrow> for_node app_kind n = (if wants_xhttp n then Xray else SingBox)"
  by (simp add: for_node_def wants_xhttp_def transport_type_def Let_def)

lemma generate_ok_iff:
  "is_ok (generate_config SingBox core n dns) \<longleftrightarrow> nd_protocol n \<in> {SHADOWSOCKS, VMESS, VLESS, TROJAN, SOCKS}"
  "is_ok (generate_config Xray core n dns) \<longleftrightarrow>
     nd_protocol n \<in> {VLESS, TROJAN, SHADOWSOCKS}
   \<and> transport_kind n \<in> {None, Some ''tcp'', Some ''ws'', Some ''grpc'', Some ''xhttp''}"
  unfolding generate_config_def by (simp_all add: singbox_ok_iff xray_ok_iff)

lemma xhttp_kind:
  assumes "wants_xhttp n"
  shows "transport_kind n \<in> {None, Some ''tcp'', Some ''ws'', Some ''grpc'', Some ''xhttp''}
     \<longleftrightarrow> transport_type n = Some ''xhttp''"
proof -
  from assms obtain t where t: "transport_type n = Some t" "to_ascii_lowercase t = to_ascii_lowercase ''xhttp''"
    by (auto simp: wants_xhttp_def eq_ignore_ascii_case_def split: option.splits)
  have "transport_kind n = Some t"
    using t by (auto simp: transport_kind_def transport_type_def [symmetric] to_ascii_lowercase_def)
  moreover have "to_ascii_lowercase ''tcp'' \<noteq> to_ascii_lowercase ''xhttp''"
    "to_ascii_lowercase ''ws'' \<noteq> to_ascii_lowercase ''xhttp''"
    "to_ascii_lowercase ''grpc'' \<noteq> to_ascii_lowercase ''xhttp''" by code_simp+
  ultimately show ?thesis using t by auto
qed

text \<open>
  With the core chosen automatically, a node can be started exactly when it asks for
  no XHTTP and has one of the five protocols of sing-box, or asks for it in lower case and has
  one of the three protocols of the Xray builder.  So WireGuard nodes and an upper-case XHTTP
  pass validation and the choice of a core, and fail at every start.
\<close>

theorem core_choice_buildable:
  assumes "\<not> eq_ignore_ascii_case (cc_kind core) ''xray''"
  shows "is_ok (generate_config (for_node (cc_kind core) n) core n dns) \<longleftrightarrow>
     (if wants_xhttp n
      then transport_type n = Some ''xhttp'' \<and> nd_protocol n \<in> {VLESS, TROJAN, SHADOWSOCKS}
      else nd_protocol n \<in> {SHADOWSOCKS, VMESS, VLESS, TROJAN, SOCKS})"
proof (cases "wants_xhttp n")
  case True
  with xhttp_kind [OF True] for_node_auto [OF assms, of n] generate_ok_iff(2) [of core n dns]
  show ?thesis by auto
next
  case False
  with for_node_auto [OF assms, of n] generate_ok_iff(1) [of core n dns]
  show ?thesis by simp
qed

definition demo_node :: node where
  "demo_node = \<lparr>nd_id = ''n1'', nd_name = ''HK'', nd_protocol = ''trojan'',
     nd_endpoint = \<lparr>ep_host = ''h.example.com'', ep_port = 443\<rparr>,
     nd_authentication = js_object [(''password'', JStr ''pw'')],
     nd_transport = js_object [], nd_tls = tls_default\<lparr>tl_enabled := True\<rparr>, nd_metadata = JNull,
     nd_subscription_id = [], nd_enabled = True, nd_created_at = 0\<rparr>"

theorem core_choice_buildable_witness:
  "\<not> is_ok (generate_config (for_node ''sing-box'' (demo_node\<lparr>nd_transport := js_object [(''type'', JStr ''XHTTP'')]\<rparr>))
     core_config_default (demo_node\<lparr>nd_transport := js_object [(''type'', JStr ''XHTTP'')]\<rparr>) dns_config_default)"
proof -
  let ?n = "demo_node\<lparr>nd_transport := js_object [(''type'', JStr ''XHTTP'')]\<rparr>"
  have eval: "\<not> eq_ignore_ascii_case ''sing-box'' ''xray''" "eq_ignore_ascii_case ''XHTTP'' ''xhttp''" by code_simp+
  have "transport_type ?n = Some ''XHTTP''" by (simp add: transport_type_def js_get_object js_str_def)
  with eval core_choice_buildable [of core_config_default ?n dns_config_default] show ?thesis
    by (simp add: core_config_default_def wants_xhttp_def)
qed

section \<open>Starting\<close>

text \<open>The start, with its failures in order.\<close>

definition start_succeeds ::
  "(json \<Rightarrow> string) \<Rightarrow> string \<Rightarrow> core_config \<Rightarrow> start_io \<Rightarrow> core_adapter \<times> fs \<Rightarrow> node \<Rightarrow> dns_config \<Rightarrow> bool" where
  "start_succeeds ser data_root core io s n dns \<longleftrightarrow>
     ca_child (fst s) = None \<and> si_exe_exists io
   \<and> (case generate_config (for_node (cc_kind core) n) core n dns of
        Inl _ \<Rightarrow> False
      | Inr cfg \<Rightarrow> is_ok (snd (atomic_write (si_write io) (snd s)
           (snd (snd (resolve_paths data_root core (for_node (cc_kind core) n)))) (ser cfg))))
   \<and> is_ok (si_spawn io) \<and> si_exited io = None \<and> True \<in> set (si_attempts io)"

lemma wait_for_port_iff: "wait_for_port attempts \<longleftrightarrow> True \<in> set attempts"
  by (induction attempts) auto

lemma core_emit_simps [simp]:
  "ca_status (core_emit e c) = ca_status c" "ca_pid (core_emit e c) = ca_pid c"
  "ca_child (core_emit e c) = ca_child c" "ca_events (core_emit e c) = e # ca_events c"
  by (simp_all add: core_emit_def)

lemma core_stop_simps [simp]:
  "ca_status (core_stop c) = CORE_STOPPED" "ca_pid (core_stop c) = 0" "ca_child (core_stop c) = None"
  by (simp_all add: core_stop_def)

lemma config_ext [simp]: "file_extension ''config.json'' = Some ''json''"
  by (simp add: file_extension_def split_file_at_dot_def rsplit_once_def split_once_def)

lemma resolve_config_path:
  "resolve_paths data_root core kind = (exe, dir, p) \<Longrightarrow> p = (dir, ''config.json'')"
  by (auto simp: resolve_paths_def Let_def)

lemma core_start_ok:
  assumes "start_succeeds ser data_root core io (c, disk) n dns"
  obtains c' disk' p where "core_start ser data_root core io (c, disk) n dns = ((c', disk'), Inr ())"
    and "ca_child c' = Some p" "ca_status c' = CORE_RUNNING"
    and "generate_config (for_node (cc_kind core) n) core n dns = Inr (pr_config p)"
    and "disk' (pr_config_path p) = Some (ser (pr_config p))"
    and "ca_pid c' = (case pr_pid p of None \<Rightarrow> 0 | Some i \<Rightarrow> i)"
proof -
  obtain exe dir cp where paths: "resolve_paths data_root core (for_node (cc_kind core) n) = (exe, dir, cp)"
    by (metis prod_cases3)
  from assms obtain cfg pid where
    a: "ca_child c = None" "si_exe_exists io" "generate_config (for_node (cc_kind core) n) core n dns = Inr cfg"
      "is_ok (snd (atomic_write (si_write io) disk cp (ser cfg)))" "si_spawn io = Inr pid"
      "si_exited io = None" "wait_for_port (si_attempts io)"
    by (auto simp: start_succeeds_def paths wait_for_port_iff is_ok_iff split: sum.splits)
  obtain disk' where w: "atomic_write (si_write io) disk cp (ser cfg) = (disk', Inr ())"
    using a(4) by (cases "atomic_write (si_write io) disk cp (ser cfg)") (auto simp: is_ok_iff)
  have "disk' cp = Some (ser cfg)"
    using atomic_write_ok [OF _ w] resolve_config_path [OF paths] by simp
  moreover define child where "child = \<lparr>pr_exe = exe, pr_dir = dir, pr_config_path = cp, pr_config = cfg, pr_pid = pid\<rparr>"
  moreover define c' where "c' = core_emit CoreStartedEvent (c\<lparr>ca_pid := (case pid of None \<Rightarrow> 0 | Some i \<Rightarrow> i),
        ca_child := Some child, ca_status := CORE_RUNNING\<rparr>)"
  moreover have "core_start ser data_root core io (c, disk) n dns = ((c', disk'), Inr ())"
    using a w paths by (simp add: core_start_def child_def c'_def Let_def)
  ultimately show thesis using a(3) that [of c' disk' child] by simp
qed

lemma core_start_fails:
  assumes "\<not> start_succeeds ser data_root core io (c, disk) n dns"
  obtains c' disk' e where "core_start ser data_root core io (c, disk) n dns = ((c', disk'), Inl e)"
    and "ca_child c' = ca_child c" "ca_status c' \<in> {ca_status c, CORE_ERROR}"
    and "ca_child c \<noteq> None \<Longrightarrow> c' = c"
proof -
  obtain exe dir cp where paths: "resolve_paths data_root core (for_node (cc_kind core) n) = (exe, dir, cp)"
    by (metis prod_cases3)
  have "\<exists>c' disk' e. core_start ser data_root core io (c, disk) n dns = ((c', disk'), Inl e)
     \<and> ca_child c' = ca_child c \<and> ca_status c' \<in> {ca_status c, CORE_ERROR} \<and> (ca_child c \<noteq> None \<longrightarrow> c' = c)"
    using assms
    by (auto simp: start_succeeds_def core_start_def paths Let_def wait_for_port_iff
        split: sum.splits option.splits prod.splits)
  with that show thesis by blast
qed

text \<open>
  C10. A start succeeds exactly when no core is running, the executable is there, the
  configuration can be generated and written, the process spawns and survives, and the
  inbound answers before the deadline.  Then the core is running and the file it was started
  with holds the configuration generated for this very node; otherwise no child is gained or
  lost, and a core that was running is untouched.
\<close>

theorem core_start_exact:
  "case core_start ser data_root core io (c, disk) n dns of ((c', disk'), r) \<Rightarrow>
     (is_ok r \<longleftrightarrow> start_succeeds ser data_root core io (c, disk) n dns)
   \<and> (if is_ok r
      then (\<exists>p. ca_child c' = Some p \<and> core_status_of c' = StatusRunning
              \<and> generate_config (for_node (cc_kind core) n) core n dns = Inr (pr_config p)
              \<and> disk' (pr_config_path p) = Some (ser (pr_config p)))
      else ca_child c' = ca_child c \<and> (ca_child c = None \<or> (c' = c \<and> disk' = disk)))"
proof (cases "start_succeeds ser data_root core io (c, disk) n dns")
  case True
  then obtain c' disk' p where
    *: "core_start ser data_root core io (c, disk) n dns = ((c', disk'), Inr ())"
      "ca_child c' = Some p" "ca_status c' = CORE_RUNNING"
      "generate_config (for_node (cc_kind core) n) core n dns = Inr (pr_config p)"
      "disk' (pr_config_path p) = Some (ser (pr_config p))"
    by (rule core_start_ok)
  then show ?thesis using True by (simp add: core_status_of_def core_status_defs)
next
  case False
  then obtain c' disk' e where
    *: "core_start ser data_root core io (c, disk) n dns = ((c', disk'), Inl e)"
      "ca_child c' = ca_child c" "ca_child c \<noteq> None \<Longrightarrow> c' = c"
    by (rule core_start_fails) blast
  moreover have "disk' = disk" if "ca_child c \<noteq> None"
    using *(1) that by (simp add: core_start_def)
  ultimately show ?thesis using False by auto
qed

section \<open>The adapter interface\<close>

text \<open>
  What the orchestration relies on of a core, whatever its kind: a start that succeeds leaves
  it running, one that fails does not change whether it runs, and a stop ends it.
\<close>

locale proxy_core =
  fixes start :: "'io \<Rightarrow> 's \<Rightarrow> 'n \<Rightarrow> 's \<times> (svc_error + unit)"
    and stop :: "'s \<Rightarrow> 's"
    and running :: "'s \<Rightarrow> bool"
  assumes start_ok: "start io s n = (t, Inr u) \<Longrightarrow> running t"
    and start_err: "start io s n = (t, Inl e) \<Longrightarrow> running t \<longleftrightarrow> running s"
    and stop_stops: "\<not> running (stop s)"
begin

lemma start_running: "running (fst (start io s n)) \<longleftrightarrow> is_ok (snd (start io s n)) \<or> running s"
  using start_ok [of io s n] start_err [of io s n]
  by (cases "start io s n"; cases "snd (start io s n)") auto

lemma restart_running: "running (fst (start io (stop s) n)) \<longleftrightarrow> is_ok (snd (start io (stop s) n))"
  by (simp add: start_running stop_stops)

end

definition adapter_start ::
  "(json \<Rightarrow> string) \<times> string \<times> core_config \<times> start_io \<Rightarrow> core_adapter \<times> fs \<Rightarrow> node \<times> dns_config
     \<Rightarrow> (core_adapter \<times> fs) \<times> (svc_error + unit)" where
  "adapter_start io s n = (case io of (ser, data_root, core, si) \<Rightarrow> core_start ser data_root core si s (fst n) (snd n))"

definition adapter_stop :: "core_adapter \<times> fs \<Rightarrow> core_adapter \<times> fs" where
  "adapter_stop s = (core_stop (fst s), snd s)"

definition adapter_running :: "core_adapter \<times> fs \<Rightarrow> bool" where
  "adapter_running s \<longleftrightarrow> ca_child (fst s) \<noteq> None"

interpretation adapter: proxy_core adapter_start adapter_stop adapter_running
proof
  fix io :: "(json \<Rightarrow> string) \<times> string \<times> core_config \<times> start_io" and s t :: "core_adapter \<times> fs"
    and n :: "node \<times> dns_config" and u :: unit and e :: svc_error
  obtain ser data_root core si where io: "io = (ser, data_root, core, si)" by (metis prod_cases4)
  obtain c disk where s: "s = (c, disk)" by force
  show "adapter_running t" if "adapter_start io s n = (t, Inr u)"
  proof (cases "start_succeeds ser data_root core si (c, disk) (fst n) (snd n)")
    case True
    then obtain c' disk' p where "core_start ser data_root core si (c, disk) (fst n) (snd n) = ((c', disk'), Inr ())"
      "ca_child c' = Some p" by (rule core_start_ok)
    with that io s show ?thesis by (auto simp: adapter_start_def adapter_running_def)
  next
    case False
    then obtain c' disk' e where "core_start ser data_root core si (c, disk) (fst n) (snd n) = ((c', disk'), Inl e)"
      by (rule core_start_fails)
    with that io s show ?thesis by (simp add: adapter_start_def)
  qed
  show "adapter_running t \<longleftrightarrow> adapter_running s" if "adapter_start io s n = (t, Inl e)"
  proof (cases "start_succeeds ser data_root core si (c, disk) (fst n) (snd n)")
    case True
    then obtain c' disk' where "core_start ser data_root core si (c, disk) (fst n) (snd n) = ((c', disk'), Inr ())"
      by (rule core_start_ok)
    with that io s show ?thesis by (simp add: adapter_start_def)
  next
    case False
    then obtain c' disk' e where "core_start ser data_root core si (c, disk) (fst n) (snd n) = ((c', disk'), Inl e)"
      "ca_child c' = ca_child c" by (rule core_start_fails)
    with that io s show ?thesis by (auto simp: adapter_start_def adapter_running_def)
  qed
  show "\<not> adapter_running (adapter_stop s)" by (simp add: adapter_running_def adapter_stop_def)
qed

section \<open>Runs of the adapter\<close>

inductive core_step :: "core_adapter \<times> fs \<Rightarrow> core_adapter \<times> fs \<Rightarrow> bool" where
  do_start: "core_step s (fst (core_start ser data_root core io s n dns))"
| do_stop: "core_step s (core_stop (fst s), snd s)"
| do_restart: "core_step s (fst (core_restart ser data_root core io s n dns))"
| do_disk: "core_step (c, disk) (c, disk')"

inductive_cases core_stepE: "core_step s t"

definition core_ok :: "core_adapter \<Rightarrow> bool" where
  "core_ok c \<longleftrightarrow> ca_status c \<in> {CORE_STOPPED, CORE_RUNNING, CORE_ERROR}
     \<and> (ca_status c = CORE_RUNNING \<longleftrightarrow> ca_child c \<noteq> None)
     \<and> (\<forall>p. ca_child c = Some p \<longrightarrow> ca_pid c = (case pr_pid p of None \<Rightarrow> 0 | Some i \<Rightarrow> i))"

lemma core_ok_stop [inv_intros]: "core_ok (core_stop c)"
  by (simp add: core_ok_def core_status_defs)

lemma core_ok_start [inv_intros]:
  assumes "core_ok (fst s)"
  shows "core_ok (fst (fst (core_start ser data_root core io s n dns)))"
proof -
  obtain c disk where s: "s = (c, disk)" by force
  show ?thesis
  proof (cases "start_succeeds ser data_root core io (c, disk) n dns")
    case True
    from core_start_ok [OF this] s show ?thesis by (metis core_ok_def fst_conv insertCI option.inject option.simps(3))
  next
    case False
    from core_start_fails [OF this] obtain c' disk' e where
      "core_start ser data_root core io (c, disk) n dns = ((c', disk'), Inl e)"
      "ca_child c' = ca_child c" "ca_status c' \<in> {ca_status c, CORE_ERROR}" "ca_child c \<noteq> None \<Longrightarrow> c' = c"
      by blast
    with assms s show ?thesis by (cases "ca_child c") (auto simp: core_ok_def core_status_defs)
  qed
qed

lemma core_ok_restart [inv_intros]: "core_ok (fst (fst (core_restart ser data_root core io s n dns)))"
  unfolding core_restart_def by (rule core_ok_start) (simp add: core_ok_stop)

lemma core_ok_new [inv_intros]: "core_ok core_new"
  by (simp add: core_ok_def core_new_def core_status_defs)

lemma core_ok_step: "core_step s t \<Longrightarrow> core_ok (fst s) \<Longrightarrow> core_ok (fst t)"
  by (erule core_stepE) (auto intro: inv_intros)

text \<open>
  C32. However the adapter is driven, the published status is \<^verbatim>\<open>Running\<close> exactly while it
  holds a child, it never rests in \<^verbatim>\<open>Starting\<close>, the published process id is the child's, and
  a health check without a child answers that the core is dead whatever the probes say.
\<close>

theorem core_runs_track_child:
  assumes "core_step\<^sup>*\<^sup>* (core_new, disk) (c, disk')"
  shows "(core_status_of c = StatusRunning \<longleftrightarrow> ca_child c \<noteq> None)
       \<and> core_status_of c \<noteq> StatusStarting
       \<and> (case ca_child c of
            None \<Rightarrow> health_check io c = LocalDead
          | Some p \<Rightarrow> core_pid c = (if pr_pid p = Some 0 then None else pr_pid p))"
proof -
  have "core_ok (fst (c, disk'))"
    using assms
  proof (induction rule: rtranclp_induct)
    case base
    show ?case by (simp add: core_ok_new)
  next
    case (step s t)
    then show ?case using core_ok_step by blast
  qed
  then show ?thesis
    by (auto simp: core_ok_def core_status_of_def core_status_defs health_check_def core_pid_def
        split: option.splits)
qed

text \<open>
  A core that dies during its start leaves its process id behind: the adapter reports
  an error, holds no child, and still publishes the id of the dead process until the next
  stop.
\<close>

theorem dead_core_reports_pid:
  assumes "ca_child c = None" "si_exe_exists io" "si_write io = io_good" "si_spawn io = Inr (Some i)" "i \<noteq> 0"
    and "si_exited io = Some status"
    and "is_ok (generate_config (for_node (cc_kind core) n) core n dns)"
  shows "case core_start ser data_root core io (c, disk) n dns of ((c', disk'), r) \<Rightarrow>
     \<not> is_ok r \<and> ca_child c' = None \<and> core_status_of c' = StatusError \<and> core_pid c' = Some i"
proof -
  obtain exe dir cp where paths: "resolve_paths data_root core (for_node (cc_kind core) n) = (exe, dir, cp)"
    by (metis prod_cases3)
  from assms(7) obtain cfg where "generate_config (for_node (cc_kind core) n) core n dns = Inr cfg"
    by (auto simp: is_ok_iff)
  with assms paths show ?thesis
    by (simp add: core_start_def Let_def atomic_write_def io_good_def core_pid_def
        core_status_of_def core_status_defs)
qed

text \<open>Concrete starts of the demonstration node.\<close>

lemma demo_generates: "is_ok (generate_config (for_node ''sing-box'' demo_node) core_config_default demo_node dns_config_default)"
proof -
  have "\<not> eq_ignore_ascii_case ''sing-box'' ''xray''" by code_simp
  then have "for_node ''sing-box'' demo_node = SingBox"
    by (simp add: for_node_def demo_node_def js_get_object)
  then show ?thesis by (simp add: generate_ok_iff demo_node_def TROJAN_def)
qed

lemma demo_start_succeeds:
  assumes "ca_child c = None"
  shows "start_succeeds ser ''d'' core_config_default start_good (c, disk) demo_node dns_config_default"
  using assms demo_generates
  by (auto simp: start_succeeds_def start_good_def core_config_default_def atomic_write_def io_good_def is_ok_iff)

theorem core_start_exact_witness:
  "\<exists>p. ca_child (fst (fst (core_start js_text ''d'' core_config_default start_good (core_new, Map.empty)
          demo_node dns_config_default))) = Some p"
  using core_start_exact [where ser = js_text and data_root = "''d''" and core = core_config_default
      and io = start_good and c = core_new and disk = Map.empty and n = demo_node and dns = dns_config_default]
    demo_start_succeeds [of core_new js_text Map.empty]
  by (auto simp: core_new_def split: prod.splits if_splits)

theorem core_runs_track_child_witness:
  "core_status_of (core_stop core_new) \<noteq> StatusRunning"
  using core_runs_track_child [of Map.empty "core_stop core_new" Map.empty]
    r_into_rtranclp [of core_step, OF do_stop [of "(core_new, Map.empty)"]] by simp

theorem dead_core_reports_pid_witness:
  "core_pid (fst (fst (core_start js_text ''d'' core_config_default
      (start_good\<lparr>si_exited := Some ''exit code: 1''\<rparr>) (core_new, Map.empty) demo_node dns_config_default))) = Some 4242"
  using dead_core_reports_pid [where c = core_new and io = "start_good\<lparr>si_exited := Some ''exit code: 1''\<rparr>"
      and i = 4242 and ser = js_text and data_root = "''d''" and core = core_config_default
      and n = demo_node and dns = dns_config_default and disk = Map.empty] demo_generates
  by (auto simp: core_new_def start_good_def core_config_default_def split: prod.splits)

end
