(* ===== verification/Tun_Manager.thy ===== *)
theory Tun_Manager
  imports Config
begin

text \<open>
  \<^verbatim>\<open>tun/manager.rs\<close>: the virtual adapter, its driver library and the address commands.  The
  driver (\<^verbatim>\<open>tun/adapter.rs\<close>, calls into wintun.dll) and netsh answer through arguments.
  Shifts are those of the release profile, which reduces the amount modulo the width.
\<close>

section \<open>Masks\<close>

definition shl_u32 :: "u32 \<Rightarrow> nat \<Rightarrow> u32" where
  "shl_u32 x n = push_bit (n mod 32) x"

definition prefix_to_mask :: "u8 \<Rightarrow> string" where
  "prefix_to_mask pfx =
     (let bits = shl_u32 0xFFFFFFFF (32 - min (unat pfx) 32);
          b = map (\<lambda>x. nat_str (unat x)) (to_be_bytes 4 bits)
      in b ! 0 @ ''.'' @ b ! 1 @ ''.'' @ b ! 2 @ ''.'' @ b ! 3)"

section \<open>The adapter\<close>

record tun_manager =
  tm_lib :: bool
  tm_adapter :: bool

record tun_io =
  ti_loads :: "(svc_error + unit) list"
  ti_start :: "svc_error + unit"
  ti_netsh :: "string list \<Rightarrow> svc_error + unit"

definition tun_new :: tun_manager where
  "tun_new = \<lparr>tm_lib = False, tm_adapter = False\<rparr>"

primrec first_load :: "svc_error option \<Rightarrow> (svc_error + unit) list \<Rightarrow> svc_error + unit" where
  \<comment> \<open>the loop over the search directories, with \<^verbatim>\<open>last_err\<close>\<close>
  "first_load last_err [] =
     Inl (case last_err of None \<Rightarrow> Tun ''wintun.dll not found'' | Some e \<Rightarrow> e)"
| "first_load last_err (r # rest) = (case r of Inr _ \<Rightarrow> Inr () | Inl e \<Rightarrow> first_load (Some e) rest)"

definition ensure_loaded :: "tun_io \<Rightarrow> tun_manager \<Rightarrow> tun_manager \<times> (svc_error + unit)" where
  "ensure_loaded io t =
     (if tm_lib t then (t, Inr ())
      else case first_load None (ti_loads io) of
             Inl e \<Rightarrow> (t, Inl e)
           | Inr _ \<Rightarrow> (t\<lparr>tm_lib := True\<rparr>, Inr ()))"

definition assign_address :: "tun_io \<Rightarrow> tun_config \<Rightarrow> svc_error + unit" where
  "assign_address io cfg =
     (case split_once (CHR ''/'') (tc_address_v4 cfg) of
        None \<Rightarrow> Inl (ConfigInvalid ''tun.inet4_address must be a CIDR'')
      | Some (addr, pfx) \<Rightarrow>
          (case parse_u8 pfx of
             None \<Rightarrow> Inl (ConfigInvalid ''tun.inet4_address prefix invalid'')
           | Some pfx \<Rightarrow>
               (case ti_netsh io [''interface'', ''ip'', ''set'', ''address'', ''name='' @ tc_name cfg, ''static'',
                       addr, prefix_to_mask pfx] of
                  Inl e \<Rightarrow> Inl e
                | Inr _ \<Rightarrow>
                    ti_netsh io [''interface'', ''ipv4'', ''set'', ''subinterface'', tc_name cfg,
                      ''mtu='' @ nat_str (unat (tc_mtu cfg)), ''store=active''])))"

definition tun_start :: "tun_io \<Rightarrow> tun_config \<Rightarrow> tun_manager \<Rightarrow> tun_manager \<times> (svc_error + unit)" where
  "tun_start io cfg t =
     (if tm_adapter t then (t, Inl (AlreadyRunning ''tun adapter''))
      else case ensure_loaded io t of
             (t, Inl e) \<Rightarrow> (t, Inl e)
           | (t, Inr _) \<Rightarrow>
               (case ti_start io of
                  Inl e \<Rightarrow> (t, Inl e)
                | Inr _ \<Rightarrow>
                    (let t = t\<lparr>tm_adapter := True\<rparr>
                     in case assign_address io cfg of
                          Inl e \<Rightarrow> (t\<lparr>tm_adapter := False\<rparr>, Inl e)
                        | Inr _ \<Rightarrow> (t, Inr ()))))"

definition tun_stop :: "tun_manager \<Rightarrow> tun_manager" where
  "tun_stop t = t\<lparr>tm_adapter := False\<rparr>"

lemma tun_start_adapter:
  "tm_adapter (fst (tun_start io cfg t)) \<longleftrightarrow> tm_adapter t \<or> is_ok (snd (tun_start io cfg t))"
  by (auto simp: tun_start_def ensure_loaded_def Let_def split: sum.split)

section \<open>Masks are netmasks\<close>

text \<open>The dotted quad of a 32-bit number.\<close>

definition dotted :: "nat \<Rightarrow> string" where
  "dotted n = nat_str (n div 2 ^ 24 mod 256) @ ''.'' @ nat_str (n div 2 ^ 16 mod 256) @ ''.''
     @ nat_str (n div 2 ^ 8 mod 256) @ ''.'' @ nat_str (n mod 256)"

lemma prefix_to_mask_dotted: "prefix_to_mask pfx = dotted (unat (shl_u32 0xFFFFFFFF (32 - min (unat pfx) 32)))"
proof -
  have byte: "unat (ucast (drop_bit k w) :: u8) = unat (w :: u32) div 2 ^ k mod 256" for k w
  proof -
    have "unat w < 4294967296" using unsigned_less [of w] by simp
    then show ?thesis
      by (simp add: unsigned_ucast_eq unsigned_drop_bit_eq) (simp add: drop_bit_eq_div take_bit_eq_mod)
  qed
  from byte [of 0] byte show ?thesis
    by (simp add: prefix_to_mask_def Let_def dotted_def to_be_bytes_def upt_rec)
qed

lemma shl_ones:
  assumes "1 \<le> p" "p \<le> 32"
  shows "unat (shl_u32 0xFFFFFFFF (32 - p)) = 2 ^ 32 - 2 ^ (32 - p)"
proof -
  have "\<forall>p \<in> set [1..<33]. unat (shl_u32 0xFFFFFFFF (32 - p)) = 2 ^ 32 - 2 ^ (32 - p)"
    by (simp add: shl_u32_def upt_rec)
  with assms show ?thesis by simp
qed

text \<open>
  Netmasks: for a prefix of 1 to 32, and for a longer one taken as 32, the mask is the
  dotted form of the number with that many leading ones; but for the prefix 0 it is the mask of
  a single host instead of 0.0.0.0.
\<close>

theorem prefix_mask_exact:
  "prefix_to_mask pfx =
     (if pfx = 0 then ''255.255.255.255'' else dotted (2 ^ 32 - 2 ^ (32 - min (unat pfx) 32)))"
proof (cases "pfx = 0")
  case True
  have "dotted (unat (shl_u32 0xFFFFFFFF 32)) = ''255.255.255.255''"
  proof -
    have "nat_str 255 = ''255''" by code_simp
    then show ?thesis by (simp add: shl_u32_def dotted_def)
  qed
  with True show ?thesis by (simp add: prefix_to_mask_dotted)
next
  case False
  then have "1 \<le> min (unat pfx) 32" by (simp add: Suc_le_eq unat_gt_0)
  with False show ?thesis by (simp add: prefix_to_mask_dotted shl_ones)
qed

end
