(* ===== verification/Statistics.thy ===== *)
theory Statistics
  imports Common Hash_Map
begin

text \<open>
  \<^verbatim>\<open>statistics/manager.rs\<close> and \<^verbatim>\<open>statistics/database.rs\<close>: byte counters in memory, flushed
  to the samples of a database every two seconds while a session is active.  A statement of
  the database may fail, which is an argument; SQLite keeps signed 64-bit integers, so a larger
  value is refused.  A rate is a quotient of doubles and an argument as well.
\<close>

section \<open>The database\<close>

record session_row =
  sr_node :: string
  sr_started :: int
  sr_ended :: "int option"
  sr_up :: nat
  sr_down :: nat

record sample_row =
  sm_ts :: int
  sm_node :: string
  sm_up :: nat
  sm_down :: nat

record database =
  db_sessions :: "(string \<times> session_row) list"
  db_samples :: "sample_row list"

definition sql_u64 :: "u64 \<Rightarrow> nat option" where
  "sql_u64 w = (if unat w < 2 ^ 63 then Some (unat w) else None)"

definition out_of_range :: svc_error where
  "out_of_range = Db ''out of range integral type conversion attempted''"

definition begin_session :: "svc_error option \<Rightarrow> database \<Rightarrow> string \<Rightarrow> string \<Rightarrow> int \<Rightarrow> database \<times> (svc_error + unit)" where
  "begin_session fault db i node ts =
     (case fault of
        Some e \<Rightarrow> (db, Inl e)
      | None \<Rightarrow>
          (db\<lparr>db_sessions := map_insert i
                \<lparr>sr_node = node, sr_started = ts, sr_ended = None, sr_up = 0, sr_down = 0\<rparr> (db_sessions db)\<rparr>,
           Inr ()))"

definition db_end_session :: "svc_error option \<Rightarrow> database \<Rightarrow> string \<Rightarrow> int \<Rightarrow> u64 \<Rightarrow> u64 \<Rightarrow> database \<times> (svc_error + unit)" where
  "db_end_session fault db i ts up down =
     (case (fault, sql_u64 up, sql_u64 down) of
        (None, Some u, Some d) \<Rightarrow>
          (db\<lparr>db_sessions := map (\<lambda>(k, r). (k, if k = i then r\<lparr>sr_ended := Some ts, sr_up := u, sr_down := d\<rparr> else r))
                (db_sessions db)\<rparr>, Inr ())
      | (Some e, _) \<Rightarrow> (db, Inl e)
      | _ \<Rightarrow> (db, Inl out_of_range))"

definition insert_traffic :: "svc_error option \<Rightarrow> database \<Rightarrow> int \<Rightarrow> string \<Rightarrow> u64 \<Rightarrow> u64 \<Rightarrow> database \<times> (svc_error + unit)" where
  "insert_traffic fault db ts node up down =
     (case (fault, sql_u64 up, sql_u64 down) of
        (None, Some u, Some d) \<Rightarrow>
          (db\<lparr>db_samples := db_samples db @ [\<lparr>sm_ts = ts, sm_node = node, sm_up = u, sm_down = d\<rparr>]\<rparr>, Inr ())
      | (Some e, _) \<Rightarrow> (db, Inl e)
      | _ \<Rightarrow> (db, Inl out_of_range))"

definition sum_since :: "svc_error option \<Rightarrow> database \<Rightarrow> int \<Rightarrow> svc_error + (u64 \<times> u64)" where
  "sum_since fault db ts =
     (case fault of
        Some e \<Rightarrow> Inl e
      | None \<Rightarrow>
          (let rows = filter (\<lambda>r. ts \<le> sm_ts r) (db_samples db);
               u = sum_list (map sm_up rows); d = sum_list (map sm_down rows)
           in if 2 ^ 63 \<le> u \<or> 2 ^ 63 \<le> d then Inl (Db ''integer overflow'') else Inr (of_nat u, of_nat d)))"

definition query_range :: "database \<Rightarrow> int \<Rightarrow> int \<Rightarrow> (int \<times> nat \<times> nat) list" where
  "query_range db start end_ts =
     map (\<lambda>r. (sm_ts r, sm_up r, sm_down r))
       (sort_key sm_ts (filter (\<lambda>r. start \<le> sm_ts r \<and> sm_ts r < end_ts) (db_samples db)))"

section \<open>The manager\<close>

record traffic_payload =
  tp_up_rate :: u64
  tp_down_rate :: u64
  tp_up_total :: u64
  tp_down_total :: u64
  tp_up_today :: u64
  tp_down_today :: u64

record stats_manager =
  sx_db :: database
  sx_up :: u64
  sx_down :: u64
  sx_session :: "(string \<times> string) option"
  sx_last :: "(nat \<times> u64 \<times> u64) option"
  sx_bus :: "traffic_payload list"

text \<open>
  What one operation sees of its surroundings: the failures of its statements, the wall clock,
  the monotonic clock in nanoseconds, midnight, and the rate of a number of bytes over a time.
\<close>

record stats_env =
  se_begin :: "svc_error option"
  se_end :: "svc_error option"
  se_insert :: "svc_error option"
  se_sum :: "svc_error option"
  se_now :: int
  se_instant :: nat
  se_midnight :: int
  se_rate :: "u64 \<Rightarrow> nat \<Rightarrow> u64"

definition saturating_sub :: "u64 \<Rightarrow> u64 \<Rightarrow> u64" where
  "saturating_sub a b = (if b \<le> a then a - b else 0)"

definition stats_end_session :: "stats_env \<Rightarrow> stats_manager \<Rightarrow> stats_manager" where
  "stats_end_session env s =
     (case sx_session s of
        None \<Rightarrow> s
      | Some (i, _) \<Rightarrow>
          s\<lparr>sx_session := None,
            sx_db := fst (db_end_session (se_end env) (sx_db s) i (se_now env) (sx_up s) (sx_down s))\<rparr>)"

definition stats_start_session :: "stats_env \<Rightarrow> string \<Rightarrow> stats_manager \<Rightarrow> string \<Rightarrow> stats_manager" where
  "stats_start_session env uuid s node =
     (let s = stats_end_session env s;
          i = ''sess_'' @ uuid;
          s = s\<lparr>sx_up := 0, sx_down := 0, sx_last := Some (se_instant env, 0, 0)\<rparr>;
          s = s\<lparr>sx_db := fst (begin_session (se_begin env) (sx_db s) i node (se_now env))\<rparr>
      in s\<lparr>sx_session := Some (i, node)\<rparr>)"

definition record_up :: "u64 \<Rightarrow> stats_manager \<Rightarrow> stats_manager" where
  "record_up bytes s = s\<lparr>sx_up := sx_up s + bytes\<rparr>"

definition record_down :: "u64 \<Rightarrow> stats_manager \<Rightarrow> stats_manager" where
  "record_down bytes s = s\<lparr>sx_down := sx_down s + bytes\<rparr>"

definition session_active :: "stats_manager \<Rightarrow> bool" where
  "session_active s \<longleftrightarrow> sx_session s \<noteq> None"

definition flush_once :: "stats_env \<Rightarrow> stats_manager \<Rightarrow> stats_manager" where
  "flush_once env s =
     (let up = sx_up s; down = sx_down s;
          (up_rate, down_rate, delta_up, delta_down) =
            (case sx_last s of
               Some (t, pu, pd) \<Rightarrow>
                 (let du = saturating_sub up pu; dd = saturating_sub down pd; elapsed = se_instant env - t
                  in (se_rate env du elapsed, se_rate env dd elapsed, du, dd))
             | None \<Rightarrow> (0, 0, 0, 0));
          s = s\<lparr>sx_last := Some (se_instant env, up, down)\<rparr>;
          node = (case sx_session s of None \<Rightarrow> [] | Some (_, n) \<Rightarrow> n);
          active = session_active s;
          s = (if active \<and> (0 < delta_up \<or> 0 < delta_down)
               then s\<lparr>sx_db := fst (insert_traffic (se_insert env) (sx_db s) (se_now env) node delta_up delta_down)\<rparr>
               else s)
      in if \<not> active then s
         else
           (let (up_today, down_today) =
                  (case sum_since (se_sum env) (sx_db s) (se_midnight env) of Inl _ \<Rightarrow> (0, 0) | Inr x \<Rightarrow> x)
            in s\<lparr>sx_bus := \<lparr>tp_up_rate = up_rate, tp_down_rate = down_rate, tp_up_total = up,
                   tp_down_total = down, tp_up_today = up_today, tp_down_today = down_today\<rparr> # sx_bus s\<rparr>))"

definition stats_snapshot :: "stats_env \<Rightarrow> stats_manager \<Rightarrow> traffic_payload" where
  "stats_snapshot env s =
     (let (up_today, down_today) =
            (case sum_since (se_sum env) (sx_db s) (se_midnight env) of Inl _ \<Rightarrow> (0, 0) | Inr x \<Rightarrow> x);
          (up_rate, down_rate) =
            (case sx_last s of
               Some (t, pu, pd) \<Rightarrow>
                 (let elapsed = se_instant env - t
                  in (se_rate env (saturating_sub (sx_up s) pu) elapsed,
                      se_rate env (saturating_sub (sx_down s) pd) elapsed))
             | None \<Rightarrow> (0, 0))
      in \<lparr>tp_up_rate = up_rate, tp_down_rate = down_rate, tp_up_total = sx_up s,
          tp_down_total = sx_down s, tp_up_today = up_today, tp_down_today = down_today\<rparr>)"

section \<open>Accounting\<close>

text \<open>
  What happens while a session is active: bytes are counted and samples are flushed, here
  with a database that accepts them.
\<close>

datatype traffic_op = Up u64 | Down u64 | Tick stats_env

fun traffic_step :: "stats_manager \<Rightarrow> traffic_op \<Rightarrow> stats_manager" where
  "traffic_step s (Up n) = record_up n s"
| "traffic_step s (Down n) = record_down n s"
| "traffic_step s (Tick env) = flush_once (env\<lparr>se_insert := None\<rparr>) s"

fun up_bytes :: "traffic_op \<Rightarrow> nat" where
  "up_bytes (Up n) = unat n" | "up_bytes _ = 0"

fun down_bytes :: "traffic_op \<Rightarrow> nat" where
  "down_bytes (Down n) = unat n" | "down_bytes _ = 0"

definition up_sum :: "database \<Rightarrow> nat" where
  "up_sum db = sum_list (map sm_up (db_samples db))"

definition down_sum :: "database \<Rightarrow> nat" where
  "down_sum db = sum_list (map sm_down (db_samples db))"

definition accounted :: "nat \<Rightarrow> nat \<Rightarrow> nat \<Rightarrow> nat \<Rightarrow> stats_manager \<Rightarrow> bool" where
  "accounted u0 d0 u d s \<longleftrightarrow>
     unat (sx_up s) = u \<and> unat (sx_down s) = d \<and> sx_session s \<noteq> None
   \<and> (\<exists>t lu ld. sx_last s = Some (t, lu, ld) \<and> lu \<le> sx_up s \<and> ld \<le> sx_down s
        \<and> up_sum (sx_db s) = u0 + unat lu \<and> down_sum (sx_db s) = d0 + unat ld)"

lemma unat_saturating_sub: "b \<le> a \<Longrightarrow> unat (saturating_sub a b) = unat a - unat b"
  by (simp add: saturating_sub_def unat_sub)

lemma unat_count: "unat (a :: u64) + unat b < 2 ^ 64 \<Longrightarrow> unat (a + b) = unat a + unat b"
  by (simp add: unat_word_ariths)

lemma end_session_samples [simp]:
  "db_samples (fst (db_end_session f db i ts up down)) = db_samples db"
  by (simp add: db_end_session_def split: option.split)

lemma begin_session_samples [simp]: "db_samples (fst (begin_session f db i node ts)) = db_samples db"
  by (simp add: begin_session_def split: option.split)

lemma stats_end_samples [simp]: "db_samples (sx_db (stats_end_session env s)) = db_samples (sx_db s)"
  by (simp add: stats_end_session_def split: option.split)

lemma accounted_start: "accounted (up_sum (sx_db s)) (down_sum (sx_db s)) 0 0 (stats_start_session env uuid s node)"
  by (simp add: accounted_def stats_start_session_def Let_def up_sum_def down_sum_def)

lemma insert_traffic_sums:
  assumes "unat up < 2 ^ 63" "unat down < 2 ^ 63"
  shows "up_sum (fst (insert_traffic None db ts node up down)) = up_sum db + unat up"
    and "down_sum (fst (insert_traffic None db ts node up down)) = down_sum db + unat down"
  using assms by (simp_all add: insert_traffic_def sql_u64_def up_sum_def down_sum_def)

lemma flush_fields:
  assumes "sx_session s = Some (i, node)" "sx_last s = Some (t, lu, ld)"
  defines "du \<equiv> saturating_sub (sx_up s) lu" and "dd \<equiv> saturating_sub (sx_down s) ld"
  shows "sx_up (flush_once env s) = sx_up s" "sx_down (flush_once env s) = sx_down s"
    and "sx_session (flush_once env s) = Some (i, node)"
    and "sx_last (flush_once env s) = Some (se_instant env, sx_up s, sx_down s)"
    and "sx_db (flush_once env s) =
      (if 0 < du \<or> 0 < dd then fst (insert_traffic (se_insert env) (sx_db s) (se_now env) node du dd) else sx_db s)"
  using assms(1,2) unfolding du_def dd_def
  by (simp_all add: flush_once_def session_active_def Let_def split: prod.split)

lemma accounted_flush:
  assumes "accounted u0 d0 u d s" "u < 2 ^ 63" "d < 2 ^ 63" "se_insert env = None"
  shows "accounted u0 d0 u d (flush_once env s)
       \<and> up_sum (sx_db (flush_once env s)) = u0 + u \<and> down_sum (sx_db (flush_once env s)) = d0 + d"
proof -
  from assms(1) obtain i node t lu ld where
    s: "sx_session s = Some (i, node)" "sx_last s = Some (t, lu, ld)" "lu \<le> sx_up s" "ld \<le> sx_down s"
      "up_sum (sx_db s) = u0 + unat lu" "down_sum (sx_db s) = d0 + unat ld"
      "unat (sx_up s) = u" "unat (sx_down s) = d"
    by (auto simp: accounted_def)
  note f = flush_fields [OF s(1,2), of env]
  define du dd where "du = saturating_sub (sx_up s) lu" and "dd = saturating_sub (sx_down s) ld"
  have delta: "unat du = u - unat lu" "unat dd = d - unat ld" "unat lu \<le> u" "unat ld \<le> d"
    using s unat_saturating_sub [OF s(3)] unat_saturating_sub [OF s(4)]
    by (simp_all add: du_def dd_def word_le_nat_alt)
  then have small: "unat du < 2 ^ 63" "unat dd < 2 ^ 63" using assms(2,3) by simp_all
  have "up_sum (sx_db (flush_once env s)) = u0 + u \<and> down_sum (sx_db (flush_once env s)) = d0 + d"
  proof (cases "0 < du \<or> 0 < dd")
    case True
    then have "sx_db (flush_once env s) = fst (insert_traffic None (sx_db s) (se_now env) node du dd)"
      using f(5) assms(4) by (simp add: du_def dd_def)
    with insert_traffic_sums [OF small] s delta show ?thesis by simp
  next
    case False
    then have "unat du = 0" "unat dd = 0" by (simp_all add: word_neq_0_conv [symmetric])
    moreover have "sx_db (flush_once env s) = sx_db s" using f(5) False by (simp add: du_def dd_def)
    ultimately show ?thesis using s delta by simp
  qed
  moreover from this f s(7,8) have "accounted u0 d0 u d (flush_once env s)"
    by (simp add: accounted_def)
  ultimately show ?thesis by blast
qed

lemma accounted_run:
  "accounted u0 d0 u d s \<Longrightarrow> u + sum_list (map up_bytes ops) < 2 ^ 63 \<Longrightarrow> d + sum_list (map down_bytes ops) < 2 ^ 63 \<Longrightarrow>
     accounted u0 d0 (u + sum_list (map up_bytes ops)) (d + sum_list (map down_bytes ops)) (foldl traffic_step s ops)"
proof (induction ops arbitrary: s u d)
  case (Cons op ops)
  have step: "accounted u0 d0 (u + up_bytes op) (d + down_bytes op) (traffic_step s op)"
  proof (cases op)
    case (Up n)
    with Cons.prems have "unat (sx_up s) + unat n < 2 ^ 64" by (simp add: accounted_def)
    from unat_count [OF this] Cons.prems(1) Up show ?thesis
      by (auto simp: accounted_def record_up_def word_le_nat_alt)
  next
    case (Down n)
    with Cons.prems have "unat (sx_down s) + unat n < 2 ^ 64" by (simp add: accounted_def)
    from unat_count [OF this] Cons.prems(1) Down show ?thesis
      by (auto simp: accounted_def record_down_def word_le_nat_alt)
  next
    case (Tick env)
    with Cons.prems accounted_flush [of u0 d0 u d s "env\<lparr>se_insert := None\<rparr>"] show ?thesis by simp
  qed
  from Cons.IH [OF step] Cons.prems show ?case by (simp add: add.assoc)
qed simp

text \<open>
  Traffic is accounted for exactly.  During a session of less than 2^63 bytes each way,
  however counting and flushing interleave, the counters hold the bytes of the session and the
  next flush brings the samples to what they were before plus exactly these bytes, none twice;
  but if the session ends first, the bytes counted since the last flush never reach them.
\<close>

theorem session_traffic_accounted:
  fixes env uuid node ops s0
  defines "s \<equiv> foldl traffic_step (stats_start_session env uuid s0 node) ops"
    and "u \<equiv> sum_list (map up_bytes ops)" and "d \<equiv> sum_list (map down_bytes ops)"
  assumes "u < 2 ^ 63" "d < 2 ^ 63" "se_insert env' = None"
  shows "unat (sx_up s) = u \<and> unat (sx_down s) = d
       \<and> up_sum (sx_db (flush_once env' s)) = up_sum (sx_db s0) + u
       \<and> down_sum (sx_db (flush_once env' s)) = down_sum (sx_db s0) + d
       \<and> db_samples (sx_db (flush_once env' (stats_end_session env'' s))) = db_samples (sx_db s)"
proof -
  have a: "accounted (up_sum (sx_db s0)) (down_sum (sx_db s0)) u d s"
    using accounted_run [OF accounted_start, of ops s0 env uuid node] assms by simp
  have "sx_session (stats_end_session env'' s) = None"
    by (simp add: stats_end_session_def split: option.split)
  then have "db_samples (sx_db (flush_once env' (stats_end_session env'' s))) = db_samples (sx_db s)"
    by (simp add: flush_once_def session_active_def Let_def split: prod.split option.split)
  with a accounted_flush [OF a assms(4,5,6)] show ?thesis by (simp add: accounted_def)
qed

definition quiet_env :: "nat \<Rightarrow> stats_env" where
  "quiet_env t = \<lparr>se_begin = None, se_end = None, se_insert = None, se_sum = None, se_now = int t,
     se_instant = t, se_midnight = 0, se_rate = (\<lambda>_ _. 0)\<rparr>"

definition idle_stats :: stats_manager where
  "idle_stats = \<lparr>sx_db = \<lparr>db_sessions = [], db_samples = []\<rparr>, sx_up = 5, sx_down = 0, sx_session = None,
     sx_last = None, sx_bus = []\<rparr>"

theorem session_traffic_accounted_witness:
  "up_sum (sx_db (flush_once (quiet_env 9)
      (foldl traffic_step (stats_start_session (quiet_env 1) ''u'' idle_stats ''n'') [Up 700, Down 20, Up 42]))) = 742"
  using session_traffic_accounted [of "[Up 700, Down 20, Up 42]" "quiet_env 9" "quiet_env 1" "''u''" idle_stats "''n''"]
  by (simp add: up_sum_def idle_stats_def quiet_env_def)

end
