(* ===== verification/Lifecycle.thy ===== *)
theory Lifecycle
  imports Conn_State Routing_Engine Proxy_Route Node_Manager Core_Adapter Tun_Manager Statistics
begin

text \<open>
  \<^verbatim>\<open>app/lifecycle.rs\<close>: the orchestration of a connection over all managers.  \<^verbatim>\<open>connect\<close>,
  \<^verbatim>\<open>disconnect\<close> and \<^verbatim>\<open>startup_recover\<close> run under one guard, each as one step here.  Recovery
  runs in the supervisor task without the guard: an operation that stops the supervisor waits
  for a recovery in flight, whose remaining part is an argument of that operation.
\<close>

section \<open>State\<close>

record 'r conn_manager =
  lc_config :: config_manager
  lc_disk :: fs
  lc_nodes :: node_manager
  lc_routing :: "'r routing_engine"
  lc_dns :: dns_config
  lc_core :: core_adapter
  lc_route :: route_state
  lc_tun :: tun_manager
  lc_stats :: stats_manager
  lc_state :: state_store
  lc_active :: "node option"
  lc_monitor :: bool
  lc_restart_count :: u32

text \<open>The JSON encodings of the files written by these operations.\<close>

record lc_json =
  lj_core :: "json \<Rightarrow> string"
  lj_rules :: rules_json
  lj_runtime :: "runtime_persist \<Rightarrow> string"
  lj_proxy :: proxy_json

text \<open>
  The answers of the surroundings during a tear-down and during a connect; \<open>now\<close> gives the
  successive readings of the wall clock.
\<close>

record cleanup_io =
  ci_clear :: route_env
  ci_stats :: stats_env

record connect_io =
  co_now :: "nat \<Rightarrow> int"
  co_mode :: write_io
  co_start :: start_io
  co_tun :: tun_io
  co_proxy :: route_env
  co_cleanup :: cleanup_io
  co_stats :: stats_env
  co_uuid :: string
  co_runtime :: write_io
  co_probe :: connect_outcome
  co_test :: connect_outcome

section \<open>Steps on one manager\<close>

abbreviation conn_state_of :: "'r conn_manager \<Rightarrow> conn_state" where
  "conn_state_of s \<equiv> ss_state (lc_state s)"

definition on_state :: "(state_store \<Rightarrow> unit svc_result \<times> state_store) \<Rightarrow> 'r conn_manager \<Rightarrow> 'r conn_manager \<times> (svc_error + unit)" where
  "on_state f s = (case f (lc_state s) of (r, g) \<Rightarrow> (s\<lparr>lc_state := g\<rparr>, r))"

definition on_route :: "(route_state \<Rightarrow> route_state \<times> 'a) \<Rightarrow> 'r conn_manager \<Rightarrow> 'r conn_manager \<times> 'a" where
  "on_route f s =
     (case f ((lc_route s)\<lparr>rt_disk := lc_disk s\<rparr>) of
        (rt, r) \<Rightarrow> (s\<lparr>lc_route := rt, lc_disk := rt_disk rt\<rparr>, r))"

definition on_core ::
  "(core_adapter \<times> fs \<Rightarrow> (core_adapter \<times> fs) \<times> (svc_error + unit)) \<Rightarrow> 'r conn_manager \<Rightarrow> 'r conn_manager \<times> (svc_error + unit)" where
  "on_core f s = (case f (lc_core s, lc_disk s) of ((c, disk), r) \<Rightarrow> (s\<lparr>lc_core := c, lc_disk := disk\<rparr>, r))"

abbreviation core_cfg :: "'r conn_manager \<Rightarrow> core_config" where
  "core_cfg s \<equiv> ac_core (cm_app (lc_config s))"

definition start_core :: "lc_json \<Rightarrow> start_io \<Rightarrow> node \<Rightarrow> 'r conn_manager \<Rightarrow> 'r conn_manager \<times> (svc_error + unit)" where
  "start_core js io n s =
     on_core (\<lambda>c. adapter_start (lj_core js, pt_root (cm_paths (lc_config s)), core_cfg s, io) c (n, lc_dns s)) s"

definition stop_core :: "'r conn_manager \<Rightarrow> 'r conn_manager" where
  "stop_core s = s\<lparr>lc_core := core_stop (lc_core s)\<rparr>"

definition persist_runtime ::
  "lc_json \<Rightarrow> write_io \<Rightarrow> int \<Rightarrow> conn_state \<Rightarrow> node option \<Rightarrow> route_mode \<Rightarrow> 'r conn_manager \<Rightarrow> 'r conn_manager" where
  "persist_runtime js io now st n mode s =
     (let rt = \<lparr>rp_last_state = state_str st, rp_node_id = (case n of None \<Rightarrow> [] | Some n \<Rightarrow> nd_id n),
                rp_mode = mode_str mode, rp_updated_at = now\<rparr>
      in case save_runtime (lj_runtime js) io (lc_config s, lc_disk s) rt of
           ((cm, disk), _) \<Rightarrow> s\<lparr>lc_config := cm, lc_disk := disk\<rparr>)"

definition cleanup_partial :: "cleanup_io \<Rightarrow> 'r conn_manager \<Rightarrow> 'r conn_manager" where
  "cleanup_partial io s =
     (let s = s\<lparr>lc_tun := tun_stop (lc_tun s)\<rparr>;
          s = fst (on_route (\<lambda>rt. (clear_system_proxy (ci_clear io) rt, ())) s);
          s = stop_core s
      in s\<lparr>lc_stats := stats_end_session (ci_stats io) (lc_stats s)\<rparr>)"

definition abort_start ::
  "lc_json \<Rightarrow> connect_io \<Rightarrow> svc_error \<Rightarrow> route_mode \<Rightarrow> node option \<Rightarrow> 'r conn_manager \<Rightarrow> 'r conn_manager" where
  "abort_start js io e mode n s =
     (let s = s\<lparr>lc_state := fail_state (co_now io 8) Error (err_code_str e) (err_display e) (lc_state s)\<rparr>;
          s = persist_runtime js (co_runtime io) (co_now io 9) Error n mode s
      in s\<lparr>lc_active := None\<rparr>)"

section \<open>Recovery\<close>

record recover_io =
  ro_now :: "nat \<Rightarrow> int"
  ro_start :: start_io
  ro_health :: health_io
  ro_net :: "string \<Rightarrow> connect_outcome"
  ro_start2 :: start_io
  ro_health2 :: health_io
  ro_cleanup :: cleanup_io
  ro_runtime :: write_io

definition mark_recovered :: "lc_json \<Rightarrow> recover_io \<Rightarrow> node \<Rightarrow> 'r conn_manager \<Rightarrow> 'r conn_manager" where
  "mark_recovered js io n s =
     (let s = s\<lparr>lc_restart_count := 0\<rparr>;
          mode = ss_mode (lc_state s);
          s = fst (on_state (set_context (ro_now io 1) Connected (nd_id n) (nd_name n) mode) s)
      in persist_runtime js (ro_runtime io) (ro_now io 2) Connected (Some n) (parse_mode mode) s)"

definition give_up :: "lc_json \<Rightarrow> recover_io \<Rightarrow> node \<Rightarrow> 'r conn_manager \<Rightarrow> 'r conn_manager" where
  "give_up js io n s =
     (let s = cleanup_partial (ro_cleanup io) s;
          s = s\<lparr>lc_active := None\<rparr>;
          s = s\<lparr>lc_state := fail_state (ro_now io 3) Error ''601''
                  ''proxy core unreachable after recovery attempts'' (lc_state s)\<rparr>
      in persist_runtime js (ro_runtime io) (ro_now io 4) Error (Some n) (parse_mode (ss_mode (lc_state s))) s)"

definition try_restart :: "lc_json \<Rightarrow> recover_io \<Rightarrow> node \<Rightarrow> 'r conn_manager \<Rightarrow> 'r conn_manager \<times> bool" where
  "try_restart js io n s =
     (case start_core js (ro_start io) n (stop_core s) of
        (s, Inl _) \<Rightarrow> (s, False)
      | (s, Inr _) \<Rightarrow> (s, is_healthy (health_check (ro_health io) (lc_core s))))"

definition try_switch :: "lc_json \<Rightarrow> recover_io \<Rightarrow> node \<Rightarrow> 'r conn_manager \<Rightarrow> 'r conn_manager \<times> node option" where
  \<comment> \<open>the new node when the switch succeeded\<close>
  "try_switch js io n s =
     (if rc_mode (re_cfg (lc_routing s)) \<noteq> Smart then (s, None)
      else
        (let threshold = sc_switch_threshold (ac_smart (cm_app (lc_config s)))
         in case smart_select (ro_net io) (ro_now io 0) (lc_nodes s) threshold of
              (m, Inr (Some new_id)) \<Rightarrow>
                (let s = s\<lparr>lc_nodes := m\<rparr>
                 in if new_id = nd_id n then (s, None)
                    else
                      (case nodes_get (lc_nodes s) new_id of
                         Inl _ \<Rightarrow> (s, None)
                       | Inr new_node \<Rightarrow>
                           (case start_core js (ro_start2 io) new_node (stop_core s) of
                              (s, Inl _) \<Rightarrow> (s, None)
                            | (s, Inr _) \<Rightarrow>
                                if \<not> is_healthy (health_check (ro_health2 io) (lc_core s)) then (s, None)
                                else
                                  (let s = s\<lparr>lc_nodes := fst (nodes_select (lc_nodes s) new_id)\<rparr>
                                   in (s\<lparr>lc_active := Some new_node\<rparr>, Some new_node)))))
            | (m, _) \<Rightarrow> (s\<lparr>lc_nodes := m\<rparr>, None)))"

text \<open>Recovery up to its transition, and what remains of it from there.\<close>

definition recover_rest :: "lc_json \<Rightarrow> recover_io \<Rightarrow> node \<Rightarrow> u32 \<Rightarrow> 'r conn_manager \<Rightarrow> 'r conn_manager" where
  "recover_rest js io n attempt s =
     (if attempt \<le> cc_restart_max (core_cfg s) then
        (case try_restart js io n s of
           (s, True) \<Rightarrow> mark_recovered js io n s
         | (s, False) \<Rightarrow> give_up js io n s)
      else
        (case try_switch js io n s of
           (s, Some new_node) \<Rightarrow> mark_recovered js io new_node s
         | (s, None) \<Rightarrow> give_up js io n s))"

definition recover :: "lc_json \<Rightarrow> recover_io \<Rightarrow> 'r conn_manager \<Rightarrow> 'r conn_manager" where
  "recover js io s =
     (case lc_active s of
        None \<Rightarrow> s
      | Some n \<Rightarrow>
          if conn_state_of s \<noteq> Connected then s
          else
            (let attempt = lc_restart_count s + 1;
                 s = s\<lparr>lc_restart_count := attempt\<rparr>;
                 s = fst (on_state (transition (ro_now io 0) Reconnecting) s)
             in recover_rest js io n attempt s))"

text \<open>
  Stopping the supervisor waits for its task: a recovery in flight, if there is one, runs to
  its end first.
\<close>

definition stop_monitor ::
  "lc_json \<Rightarrow> (recover_io \<times> node \<times> u32) option \<Rightarrow> 'r conn_manager \<Rightarrow> 'r conn_manager" where
  "stop_monitor js pending s =
     (if \<not> lc_monitor s then s
      else (case pending of
              None \<Rightarrow> s
            | Some (io, n, attempt) \<Rightarrow> recover_rest js io n attempt s)\<lparr>lc_monitor := False\<rparr>)"

section \<open>Connecting\<close>

definition spawn_monitor :: "'r conn_manager \<Rightarrow> 'r conn_manager" where
  "spawn_monitor s = s\<lparr>lc_monitor := True\<rparr>"

definition same_target :: "'r conn_manager \<Rightarrow> string \<Rightarrow> string \<Rightarrow> bool" where
  "same_target s node_id mode \<longleftrightarrow>
     (case lc_active s of None \<Rightarrow> False | Some n \<Rightarrow> nd_id n = node_id)
   \<and> eq_ignore_ascii_case (ss_mode (lc_state s)) mode"

definition leave_current ::
  "lc_json \<Rightarrow> connect_io \<Rightarrow> (recover_io \<times> node \<times> u32) option \<Rightarrow> string \<Rightarrow> string \<Rightarrow> 'r conn_manager
     \<Rightarrow> 'r conn_manager \<times> (svc_error + unit)" where
  \<comment> \<open>the in-place switch at the head of \<^verbatim>\<open>connect_locked\<close>\<close>
  "leave_current js io pending node_id mode s =
     (if conn_state_of s = Connected then
        (if same_target s node_id mode then (s, Inl (AlreadyRunning ''connection''))
         else
           (case on_state (transition (co_now io 0) Stopping) s of
              (s, Inl e) \<Rightarrow> (s, Inl e)
            | (s, Inr _) \<Rightarrow>
                (let s = stop_monitor js pending s;
                     s = s\<lparr>lc_tun := tun_stop (lc_tun s)\<rparr>;
                     s = stop_core s;
                     s = s\<lparr>lc_stats := stats_end_session (ci_stats (co_cleanup io)) (lc_stats s)\<rparr>;
                     s = s\<lparr>lc_active := None\<rparr>
                 in on_state (transition (co_now io 1) Starting) s)))
      else if conn_state_of s \<in> {Starting, Connecting, Stopping} then (s, Inl (AlreadyRunning ''connection''))
      else (s, Inr ()))"

definition finish_connect :: "lc_json \<Rightarrow> connect_io \<Rightarrow> node \<Rightarrow> route_mode \<Rightarrow> 'r conn_manager \<Rightarrow> 'r conn_manager \<times> (svc_error + unit)" where
  \<comment> \<open>from the statistics session to the supervisor\<close>
  "finish_connect js io n mode s =
     (let s = s\<lparr>lc_stats := stats_start_session (co_stats io) (co_uuid io) (lc_stats s) (nd_id n)\<rparr>;
          s = s\<lparr>lc_active := Some n\<rparr>;
          s = s\<lparr>lc_restart_count := 0\<rparr>
      in case on_state (set_context (co_now io 4) Connected (nd_id n) (nd_name n) (mode_str mode)) s of
           (s, Inl e) \<Rightarrow> (s, Inl e)
         | (s, Inr _) \<Rightarrow>
             (let s = persist_runtime js (co_runtime io) (co_now io 5) Connected (Some n) mode s;
                  latency = (case tcp_probe (co_probe io) of Inl _ \<Rightarrow> - 1 | Inr ms \<Rightarrow> ms)
              in case test_node (co_test io) (co_now io 6) (lc_nodes s) (nd_id n) of
                   (m, r) \<Rightarrow>
                     (let s = s\<lparr>lc_nodes := m\<rparr>;
                          ms = (case r of Inr stats \<Rightarrow> hs_latency_ms stats | Inl _ \<Rightarrow> latency);
                          s = s\<lparr>lc_state := set_latency (co_now io 7) ms (lc_state s)\<rparr>
                      in (spawn_monitor s, Inr ()))))"

definition bring_up :: "lc_json \<Rightarrow> connect_io \<Rightarrow> node \<Rightarrow> route_mode \<Rightarrow> 'r conn_manager \<Rightarrow> 'r conn_manager \<times> (svc_error + unit)" where
  \<comment> \<open>from the core to the system proxy\<close>
  "bring_up js io n mode s =
     (case start_core js (co_start io) n s of
        (s, Inl e) \<Rightarrow> (abort_start js io e mode (Some n) (cleanup_partial (co_cleanup io) s), Inl e)
      | (s, Inr _) \<Rightarrow>
          (let s = (if tc_enabled (ac_tun (cm_app (lc_config s)))
                    then s\<lparr>lc_tun := fst (tun_start (co_tun io) (ac_tun (cm_app (lc_config s))) (lc_tun s))\<rparr>
                    else s);
               port = cc_mixed_port (core_cfg s)
           in case on_route (\<lambda>rt. set_system_proxy (lj_proxy js) (co_proxy io) rt (local_endpoint port) default_bypass) s of
                (s, Inl e) \<Rightarrow> (abort_start js io e mode (Some n) (cleanup_partial (co_cleanup io) s), Inl e)
              | (s, Inr _) \<Rightarrow> finish_connect js io n mode s))"

definition dial :: "lc_json \<Rightarrow> connect_io \<Rightarrow> node \<Rightarrow> route_mode \<Rightarrow> 'r conn_manager \<Rightarrow> 'r conn_manager \<times> (svc_error + unit)" where
  \<comment> \<open>from the selection of the node to the state \<^verbatim>\<open>Connecting\<close>\<close>
  "dial js io n mode s =
     (case nodes_select (lc_nodes s) (nd_id n) of
        (m, Inl e) \<Rightarrow> (s\<lparr>lc_nodes := m\<rparr>, Inl e)
      | (m, Inr _) \<Rightarrow>
          (let s = s\<lparr>lc_nodes := m\<rparr>
           in case set_mode (lj_rules js) (co_mode io) (lc_routing s, lc_disk s) mode of
                ((e, disk), Inl err) \<Rightarrow> (s\<lparr>lc_routing := e, lc_disk := disk\<rparr>, Inl err)
              | ((e, disk), Inr _) \<Rightarrow>
                  (case on_state (set_context (co_now io 3) Connecting (nd_id n) (nd_name n) (mode_str mode))
                          (s\<lparr>lc_routing := e, lc_disk := disk\<rparr>) of
                     (s, Inl err) \<Rightarrow> (abort_start js io err mode (Some n) s, Inl err)
                   | (s, Inr _) \<Rightarrow> bring_up js io n mode s)))"

definition connect_locked ::
  "lc_json \<Rightarrow> connect_io \<Rightarrow> (recover_io \<times> node \<times> u32) option \<Rightarrow> string \<Rightarrow> string \<Rightarrow> 'r conn_manager
     \<Rightarrow> 'r conn_manager \<times> (svc_error + unit)" where
  "connect_locked js io pending node_id mode_text s =
     (case leave_current js io pending node_id mode_text s of
        (s, Inl e) \<Rightarrow> (s, Inl e)
      | (s, Inr _) \<Rightarrow>
          (let mode = parse_mode mode_text
           in case (if conn_state_of s \<noteq> Starting then on_state (transition (co_now io 2) Starting) s else (s, Inr ())) of
                (s, Inl e) \<Rightarrow> (s, Inl e)
              | (s, Inr _) \<Rightarrow>
                  (case nodes_get (lc_nodes s) node_id of
                     Inr n \<Rightarrow>
                       if nd_enabled n then dial js io n mode s
                       else (abort_start js io (ConfigInvalid ''node disabled'') mode None s,
                             Inl (ConfigInvalid ''node disabled''))
                   | Inl e \<Rightarrow> (abort_start js io e mode None s, Inl e))))"

definition connect ::
  "lc_json \<Rightarrow> connect_io \<Rightarrow> (recover_io \<times> node \<times> u32) option \<Rightarrow> string \<Rightarrow> string \<Rightarrow> 'r conn_manager
     \<Rightarrow> 'r conn_manager \<times> (svc_error + unit)" where
  "connect js io pending node_id mode s = connect_locked js io pending node_id mode s"

section \<open>Disconnecting\<close>

record disconnect_io =
  di_now :: "nat \<Rightarrow> int"
  di_cleanup :: cleanup_io
  di_runtime :: write_io

definition disconnect ::
  "lc_json \<Rightarrow> disconnect_io \<Rightarrow> (recover_io \<times> node \<times> u32) option \<Rightarrow> 'r conn_manager
     \<Rightarrow> 'r conn_manager \<times> (svc_error + unit)" where
  "disconnect js io pending s =
     (let from_error = (conn_state_of s = Error)
      in if \<not> from_error \<and> conn_state_of s \<noteq> Connected \<and> conn_state_of s \<noteq> Reconnecting then (s, Inr ())
         else
           (case (if \<not> from_error then on_state (transition (di_now io 0) Stopping) s else (s, Inr ())) of
              (s, Inl e) \<Rightarrow> (s, Inl e)
            | (s, Inr _) \<Rightarrow>
                (let s = stop_monitor js pending s;
                     s = cleanup_partial (di_cleanup io) s;
                     mode = parse_mode (ss_mode (lc_state s));
                     s = persist_runtime js (di_runtime io) (di_now io 1) Stopped None mode s;
                     s = s\<lparr>lc_active := None\<rparr>
                 in on_state (transition (di_now io 2) Stopped) s)))"

section \<open>Boot\<close>

record startup_io =
  su_connect :: connect_io
  su_prime :: route_env
  su_ensure :: route_env
  su_restore :: route_env
  su_now :: int
  su_runtime :: write_io

definition startup_recover :: "lc_json \<Rightarrow> startup_io \<Rightarrow> 'r conn_manager \<Rightarrow> 'r conn_manager" where
  "startup_recover js io s =
     (let runtime = cm_runtime (lc_config s)
      in if rp_node_id runtime = [] then s
         else
           (let port = cc_mixed_port (core_cfg s);
                mode = parse_mode (rp_mode runtime);
                was_connected = (rp_last_state runtime = state_str Connected);
                node = (case nodes_get (lc_nodes s) (rp_node_id runtime) of
                          Inl _ \<Rightarrow> None | Inr n \<Rightarrow> if nd_enabled n then Some n else None);
                (s, restored) =
                  (if was_connected \<and> ac_restore_previous_connection (cm_app (lc_config s)) then
                     (case node of
                        Some n \<Rightarrow>
                          (let s = fst (on_route (\<lambda>rt. prime_from_backup (lj_proxy js) (su_prime io) rt) s)
                           in case connect_locked js (su_connect io) None (nd_id n) (mode_str mode) s of
                                (s, Inr _) \<Rightarrow>
                                  (fst (on_route (\<lambda>rt. (ensure_proxy_applied (su_ensure io) rt
                                       (local_endpoint (cc_mixed_port (core_cfg s))) default_bypass, ())) s), True)
                              | (s, Inl _) \<Rightarrow> (s, False))
                      | None \<Rightarrow> (s, False))
                   else (s, False))
            in if restored then s
               else
                 (let s = fst (on_route (\<lambda>rt. restore_after_crash (lj_proxy js) (su_restore io) rt port) s)
                  in persist_runtime js (su_runtime io) (su_now io) Stopped None mode s)))"

end
