(* ===== verification/Lifecycle_Runs.thy ===== *)
theory Lifecycle_Runs
  imports Lifecycle
begin

text \<open>
  What the operations of \<^verbatim>\<open>app/lifecycle.rs\<close> do to the resources of a connection.  A manager
  is read through its \<open>view\<close>: the state, and which resources are held.  Each operation has one
  equation on views, and the theorems about runs are about views.
\<close>

section \<open>The view of a manager\<close>

record conn_view =
  vw_state :: conn_state
  vw_core :: bool
  vw_proxy :: bool
  vw_session :: bool
  vw_tun :: bool
  vw_active :: "string option"
  vw_node_id :: string
  vw_monitor :: bool
  vw_count :: u32

definition view :: "'r conn_manager \<Rightarrow> conn_view" where
  "view s = \<lparr>vw_state = conn_state_of s, vw_core = (ca_child (lc_core s) \<noteq> None),
     vw_proxy = is_active (lc_route s), vw_session = session_active (lc_stats s),
     vw_tun = tm_adapter (lc_tun s), vw_active = map_option nd_id (lc_active s),
     vw_node_id = ss_node_id (lc_state s), vw_monitor = lc_monitor s, vw_count = lc_restart_count s\<rparr>"

lemma view_sel [simp]:
  "vw_state (view s) = conn_state_of s" "vw_core (view s) = (ca_child (lc_core s) \<noteq> None)"
  "vw_proxy (view s) = is_active (lc_route s)" "vw_session (view s) = session_active (lc_stats s)"
  "vw_tun (view s) = tm_adapter (lc_tun s)" "vw_active (view s) = map_option nd_id (lc_active s)"
  "vw_node_id (view s) = ss_node_id (lc_state s)" "vw_monitor (view s) = lc_monitor s"
  "vw_count (view s) = lc_restart_count s"
  by (simp_all add: view_def)

text \<open>Nothing held.\<close>

definition released :: "conn_view \<Rightarrow> conn_view" where
  "released v = v\<lparr>vw_core := False, vw_proxy := False, vw_session := False, vw_tun := False\<rparr>"

definition failed :: "conn_view \<Rightarrow> conn_view" where
  "failed v = (released v)\<lparr>vw_state := Error, vw_active := None\<rparr>"

lemma view_updates [simp]:
  "view (s\<lparr>lc_config := cm\<rparr>) = view s" "view (s\<lparr>lc_disk := d\<rparr>) = view s"
  "view (s\<lparr>lc_nodes := m\<rparr>) = view s" "view (s\<lparr>lc_routing := e\<rparr>) = view s"
  "view (s\<lparr>lc_active := n\<rparr>) = (view s)\<lparr>vw_active := map_option nd_id n\<rparr>"
  "view (s\<lparr>lc_monitor := b\<rparr>) = (view s)\<lparr>vw_monitor := b\<rparr>"
  "view (s\<lparr>lc_restart_count := c\<rparr>) = (view s)\<lparr>vw_count := c\<rparr>"
  "view (s\<lparr>lc_stats := st\<rparr>) = (view s)\<lparr>vw_session := session_active st\<rparr>"
  "view (s\<lparr>lc_tun := t\<rparr>) = (view s)\<lparr>vw_tun := tm_adapter t\<rparr>"
  "view (s\<lparr>lc_state := g\<rparr>) = (view s)\<lparr>vw_state := ss_state g, vw_node_id := ss_node_id g\<rparr>"
  "view (s\<lparr>lc_core := a\<rparr>) = (view s)\<lparr>vw_core := (ca_child a \<noteq> None)\<rparr>"
  "view (s\<lparr>lc_route := rt\<rparr>) = (view s)\<lparr>vw_proxy := is_active rt\<rparr>"
  by (simp_all add: view_def)

lemma view_same [simp]:
  "(view s)\<lparr>vw_state := conn_state_of s, vw_node_id := ss_node_id (lc_state s)\<rparr> = view s"
  "(view s)\<lparr>vw_state := to, vw_node_id := ss_node_id (lc_state s)\<rparr> = (view s)\<lparr>vw_state := to\<rparr>"
  "(view s)\<lparr>vw_core := (\<exists>p. ca_child (lc_core s) = Some p)\<rparr> = view s"
  by (simp_all add: view_def)

section \<open>One equation per step\<close>

lemma session_active_simps [simp]:
  "\<not> session_active (stats_end_session env st)" "session_active (stats_start_session env uuid st node)"
  by (simp_all add: session_active_def stats_end_session_def stats_start_session_def Let_def split: option.split)

lemma store_simps [simp]:
  "ss_state (fail_state now to code msg g) = to" "ss_node_id (fail_state now to code msg g) = ss_node_id g"
  "ss_mode (fail_state now to code msg g) = ss_mode g"
  "ss_state (set_latency now ms g) = ss_state g" "ss_node_id (set_latency now ms g) = ss_node_id g"
  by (simp_all add: fail_state_def set_latency_def)

lemma is_active_clear [simp]: "\<not> is_active (clear_system_proxy env rt)"
  by (auto simp: is_active_def clear_system_proxy_def Let_def drop_backup_def split: option.split prod.split sum.split)

lemma is_active_keeps [simp]:
  "is_active (fst (restore_after_crash js env rt port)) = is_active rt"
  "is_active (ensure_proxy_applied env rt ep bypass) = is_active rt"
  by (auto simp: is_active_def restore_after_crash_def ensure_proxy_applied_def Let_def drop_backup_def
      split: option.split prod.split sum.split)

lemma is_active_set:
  "is_active (fst (set_system_proxy js env rt ep bypass)) \<longleftrightarrow> is_ok (snd (set_system_proxy js env rt ep bypass)) \<or> is_active rt"
  by (auto simp: is_active_def set_system_proxy_def store_backup_def Let_def split: option.split prod.split sum.split)

lemma is_active_disk [simp]: "is_active (rt\<lparr>rt_disk := d\<rparr>) = is_active rt"
  by (simp add: is_active_def)

lemma view_on_state:
  "view (fst (on_state f s)) = (view s)\<lparr>vw_state := ss_state (snd (f (lc_state s))), vw_node_id := ss_node_id (snd (f (lc_state s)))\<rparr>"
  "snd (on_state f s) = fst (f (lc_state s))"
  by (simp_all add: on_state_def split: prod.split)

lemma view_on_route:
  "view (fst (on_route f s)) = (view s)\<lparr>vw_proxy := is_active (fst (f ((lc_route s)\<lparr>rt_disk := lc_disk s\<rparr>)))\<rparr>"
  "snd (on_route f s) = snd (f ((lc_route s)\<lparr>rt_disk := lc_disk s\<rparr>))"
  by (simp_all add: on_route_def split: prod.split)

lemma view_transition:
  "view (fst (on_state (transition now to) s)) =
     (if is_ok (snd (on_state (transition now to) s)) then (view s)\<lparr>vw_state := to\<rparr> else view s)"
  "is_ok (snd (on_state (transition now to) s)) \<longleftrightarrow> conn_state_of s = to \<or> can_transition (conn_state_of s) to"
  by (simp_all add: view_on_state transition_ok_iff) (auto simp: transition_def Let_def)

lemma view_context:
  "view (fst (on_state (set_context now to i n m) s)) =
     (if is_ok (snd (on_state (set_context now to i n m) s)) then (view s)\<lparr>vw_state := to, vw_node_id := i\<rparr> else view s)"
  "is_ok (snd (on_state (set_context now to i n m) s)) \<longleftrightarrow> conn_state_of s = to \<or> can_transition (conn_state_of s) to"
  by (simp_all add: view_on_state set_context_ok_iff) (auto simp: set_context_def Let_def)

lemma view_stop_core [simp]: "view (stop_core s) = (view s)\<lparr>vw_core := False\<rparr>"
  by (simp add: stop_core_def)

lemma view_start_core:
  "view (fst (start_core js io n s)) = (view s)\<lparr>vw_core := is_ok (snd (start_core js io n s)) \<or> vw_core (view s)\<rparr>"
  using adapter.start_running [of "(lj_core js, pt_root (cm_paths (lc_config s)), core_cfg s, io)" "(lc_core s, lc_disk s)" "(n, lc_dns s)"]
  by (auto simp: start_core_def on_core_def adapter_running_def split: prod.split) (auto simp: view_def)

lemma view_persist [simp]: "view (persist_runtime js io now st n mode s) = view s"
  by (simp add: persist_runtime_def Let_def split: prod.split)

lemma persist_frame [simp]: "lc_state (persist_runtime js io now st n mode s) = lc_state s"
  by (simp add: persist_runtime_def Let_def split: prod.split)

lemma view_cleanup [simp]: "view (cleanup_partial io s) = released (view s)"
  by (simp add: cleanup_partial_def Let_def view_on_route released_def tun_stop_def)

lemma cleanup_frame [simp]:
  "lc_state (cleanup_partial io s) = lc_state s" "lc_active (cleanup_partial io s) = lc_active s"
  by (simp_all add: cleanup_partial_def on_route_def stop_core_def Let_def split: prod.split)

lemma view_abort [simp]: "view (abort_start js io e mode n s) = (view s)\<lparr>vw_state := Error, vw_active := None\<rparr>"
  by (simp add: abort_start_def Let_def)

lemma view_give_up [simp]: "view (give_up js io n s) = failed (view s)"
  by (simp add: give_up_def Let_def released_def failed_def)

lemma view_mark:
  "view (mark_recovered js io n s) =
     (let v = (view s)\<lparr>vw_count := 0\<rparr>
      in if conn_state_of s = Connected \<or> can_transition (conn_state_of s) Connected
         then v\<lparr>vw_state := Connected, vw_node_id := nd_id n\<rparr> else v)"
  by (simp add: mark_recovered_def Let_def view_context)

section \<open>Recovery\<close>

lemma start_core_cases:
  obtains (ok) t where "start_core js io n s = (t, Inr ())" "view t = (view s)\<lparr>vw_core := True\<rparr>" "lc_state t = lc_state s"
  | (err) t e where "start_core js io n s = (t, Inl e)" "view t = view s" "lc_state t = lc_state s"
proof -
  obtain t r where t: "start_core js io n s = (t, r)" by fastforce
  have "lc_state t = lc_state s" using t by (auto simp: start_core_def on_core_def split: prod.splits)
  with view_start_core [of js io n s] t that show thesis by (cases r) auto
qed

text \<open>A step that touches the core alone.\<close>

definition core_only :: "'r conn_manager \<Rightarrow> 'r conn_manager \<Rightarrow> bool" where
  "core_only s t \<longleftrightarrow> (\<exists>c. view t = (view s)\<lparr>vw_core := c\<rparr>) \<and> lc_state t = lc_state s"

lemma core_only_refl: "view t = view s \<Longrightarrow> lc_state t = lc_state s \<Longrightarrow> core_only s t"
  unfolding core_only_def by (intro conjI exI [of _ "vw_core (view s)"]) simp_all

lemma stop_core_frame [simp]: "lc_state (stop_core s) = lc_state s"
  by (simp add: stop_core_def)

lemma try_restart_cases:
  obtains (ok) t where "try_restart js io n s = (t, True)" "view t = (view s)\<lparr>vw_core := True\<rparr>" "lc_state t = lc_state s"
  | (err) t where "try_restart js io n s = (t, False)" "core_only s t"
proof (cases rule: start_core_cases [of js "ro_start io" n "stop_core s"])
  case (ok t)
  then have "try_restart js io n s = (t, is_healthy (health_check (ro_health io) (lc_core t)))"
    by (simp add: try_restart_def)
  with ok that show thesis
    by (cases "is_healthy (health_check (ro_health io) (lc_core t))") (auto simp: core_only_def)
next
  case (err t e)
  with that(2) show thesis by (auto simp: try_restart_def core_only_def)
qed

lemma try_switch_cases:
  obtains (ok) t m where "try_switch js io n s = (t, Some m)"
    "view t = (view s)\<lparr>vw_core := True, vw_active := Some (nd_id m)\<rparr>" "lc_state t = lc_state s"
  | (err) t where "try_switch js io n s = (t, None)" "core_only s t"
proof -
  let ?sel = "smart_select (ro_net io) (ro_now io 0) (lc_nodes s) (sc_switch_threshold (ac_smart (cm_app (lc_config s))))"
  obtain m r where sel: "?sel = (m, r)" by fastforce
  have quiet: "core_only s (s\<lparr>lc_nodes := m\<rparr>)" by (rule core_only_refl) simp_all
  have stay: thesis if "try_switch js io n s = (s\<lparr>lc_nodes := m\<rparr>, None) \<or> try_switch js io n s = (s, None)"
    using that err quiet core_only_refl by blast
  show thesis
  proof (cases "\<exists>i new_node. r = Inr (Some i) \<and> i \<noteq> nd_id n \<and> nodes_get m i = Inr new_node \<and> rc_mode (re_cfg (lc_routing s)) = Smart")
    case False
    then show thesis
      by (intro stay) (auto simp: try_switch_def sel Let_def split: sum.split option.split)
  next
    case True
    then obtain i new_node where i: "r = Inr (Some i)" "i \<noteq> nd_id n" "nodes_get m i = Inr new_node"
      "rc_mode (re_cfg (lc_routing s)) = Smart" by blast
    show thesis
    proof (cases rule: start_core_cases [of js "ro_start2 io" new_node "stop_core (s\<lparr>lc_nodes := m\<rparr>)"])
      case (ok t)
      then show thesis
        using that i sel
        by (cases "is_healthy (health_check (ro_health2 io) (lc_core t))")
           (auto simp: try_switch_def Let_def core_only_def)
    next
      case (err t e)
      then show thesis
        using that(2) i sel by (auto simp: try_switch_def Let_def core_only_def)
    qed
  qed
qed

lemma failed_core_only: "core_only s t \<Longrightarrow> failed (view t) = failed (view s)"
  by (auto simp: core_only_def failed_def released_def)

lemma recover_rest_cases:
  assumes "vw_active (view s) = Some (nd_id n)"
  obtains (ok) i where "view (recover_rest js io n a s) =
     (let v = (view s)\<lparr>vw_core := True, vw_active := Some i, vw_count := 0\<rparr>
      in if conn_state_of s = Connected \<or> can_transition (conn_state_of s) Connected
         then v\<lparr>vw_state := Connected, vw_node_id := i\<rparr> else v)"
  | (err) "view (recover_rest js io n a s) = failed (view s)"
proof (cases "a \<le> cc_restart_max (core_cfg s)")
  case True
  show thesis
  proof (cases rule: try_restart_cases [of js io n s])
    case (ok t)
    with True assms that(1) [of "nd_id n"] show thesis by (simp add: recover_rest_def view_mark Let_def)
  next
    case (err t)
    with True that(2) show thesis by (simp add: recover_rest_def failed_core_only)
  qed
next
  case False
  show thesis
  proof (cases rule: try_switch_cases [of js io n s])
    case (ok t m)
    with False that(1) [of "nd_id m"] show thesis by (simp add: recover_rest_def view_mark Let_def)
  next
    case (err t)
    with False that(2) show thesis by (simp add: recover_rest_def failed_core_only)
  qed
qed

section \<open>Connecting\<close>

definition live :: "string \<Rightarrow> bool \<Rightarrow> conn_view \<Rightarrow> conn_view" where
  "live i tun v = v\<lparr>vw_state := Connected, vw_core := True, vw_proxy := True, vw_session := True, vw_tun := tun,
     vw_active := Some i, vw_node_id := i, vw_monitor := True, vw_count := 0\<rparr>"

lemma transition_step:
  "conn_state_of s = to \<or> can_transition (conn_state_of s) to \<Longrightarrow>
     \<exists>t. on_state (transition now to) s = (t, Inr ()) \<and> view t = (view s)\<lparr>vw_state := to\<rparr>"
  "conn_state_of s \<noteq> to \<Longrightarrow> \<not> can_transition (conn_state_of s) to \<Longrightarrow>
     \<exists>e. on_state (transition now to) s = (s, Inl e)"
proof -
  assume "conn_state_of s = to \<or> can_transition (conn_state_of s) to"
  then have "is_ok (snd (on_state (transition now to) s))" by (simp add: view_transition)
  with view_transition(1) [of now to s] show "\<exists>t. on_state (transition now to) s = (t, Inr ()) \<and> view t = (view s)\<lparr>vw_state := to\<rparr>"
    by (cases "on_state (transition now to) s") (auto simp: is_ok_iff)
next
  assume "conn_state_of s \<noteq> to" "\<not> can_transition (conn_state_of s) to"
  then show "\<exists>e. on_state (transition now to) s = (s, Inl e)"
    by (simp add: on_state_def transition_def Let_def)
qed

lemma context_step:
  "conn_state_of s = to \<or> can_transition (conn_state_of s) to \<Longrightarrow>
     \<exists>t. on_state (set_context now to i n m) s = (t, Inr ()) \<and> view t = (view s)\<lparr>vw_state := to, vw_node_id := i\<rparr>"
  using view_context [of now to i n m s]
  by (cases "on_state (set_context now to i n m) s") (auto simp: is_ok_iff)

lemma finish_connect_view:
  assumes "can_transition (conn_state_of s) Connected" and "vw_core (view s)" and "vw_proxy (view s)"
  shows "\<exists>t. finish_connect js io n mode s = (t, Inr ()) \<and> view t = live (nd_id n) (vw_tun (view s)) (view s)"
proof -
  let ?s1 = "s\<lparr>lc_stats := stats_start_session (co_stats io) (co_uuid io) (lc_stats s) (nd_id n), lc_active := Some n, lc_restart_count := 0\<rparr>"
  from context_step [of ?s1 Connected "co_now io 4" "nd_id n" "nd_name n" "mode_str mode"] assms(1)
  obtain t where t: "on_state (set_context (co_now io 4) Connected (nd_id n) (nd_name n) (mode_str mode)) ?s1 = (t, Inr ())"
    "view t = (view ?s1)\<lparr>vw_state := Connected, vw_node_id := nd_id n\<rparr>" by auto
  have same: "view (t'\<lparr>lc_nodes := m, lc_state := set_latency now ms (lc_state t')\<rparr>) = view t'" for t' :: "'r conn_manager" and m now ms
    by simp
  from assms(2,3) have "(view s)\<lparr>vw_core := True, vw_proxy := True\<rparr> = view s" by (simp add: view_def)
  then have goal: "(view t)\<lparr>vw_monitor := True\<rparr> = live (nd_id n) (vw_tun (view s)) (view s)"
    using t(2) by (simp add: live_def view_def)
  from t(1) show ?thesis
    by (simp add: finish_connect_def Let_def spawn_monitor_def split: prod.split sum.split)
       (use goal in simp)
qed

lemma bring_up_cases:
  assumes "conn_state_of s = Connecting"
  obtains (ok) t tun where "bring_up js io n mode s = (t, Inr ())" "view t = live (nd_id n) tun (view s)"
  | (err) t e where "bring_up js io n mode s = (t, Inl e)" "view t = failed (view s)"
proof (cases rule: start_core_cases [of js "co_start io" n s])
  case (err t e)
  with that(2) show thesis by (simp add: bring_up_def failed_def)
next
  case (ok t)
  define t1 where "t1 = (if tc_enabled (ac_tun (cm_app (lc_config t)))
     then t\<lparr>lc_tun := fst (tun_start (co_tun io) (ac_tun (cm_app (lc_config t))) (lc_tun t))\<rparr> else t)"
  obtain u r where u: "on_route (\<lambda>rt. set_system_proxy (lj_proxy js) (co_proxy io) rt (local_endpoint (cc_mixed_port (core_cfg t1))) default_bypass) t1 = (u, r)"
    by fastforce
  have t1: "\<exists>tun. view t1 = (view t)\<lparr>vw_tun := tun\<rparr>"
    by (cases "tc_enabled (ac_tun (cm_app (lc_config t)))") (auto simp: t1_def intro: exI [of _ "vw_tun (view t)"])
  have u1: "view u = (view t1)\<lparr>vw_proxy := is_ok r \<or> vw_proxy (view t1)\<rparr>"
    using view_on_route [of "\<lambda>rt. set_system_proxy (lj_proxy js) (co_proxy io) rt (local_endpoint (cc_mixed_port (core_cfg t1))) default_bypass" t1] u
    by (simp add: is_active_set)
  from t1 obtain tun where tun: "view t1 = (view s)\<lparr>vw_core := True, vw_tun := tun\<rparr>" using ok by auto
  have bring: "bring_up js io n mode s =
     (case r of Inl e \<Rightarrow> (abort_start js io e mode (Some n) (cleanup_partial (co_cleanup io) u), Inl e)
      | Inr _ \<Rightarrow> finish_connect js io n mode u)"
    using ok(1) u by (simp add: bring_up_def t1_def Let_def)
  show thesis
  proof (cases r)
    case (Inl e)
    with bring that(2) u1 tun show thesis by (simp add: failed_def released_def)
  next
    case (Inr x)
    then have "view u = (view s)\<lparr>vw_core := True, vw_tun := tun, vw_proxy := True\<rparr>" using u1 tun by simp
    moreover from this assms have "can_transition (conn_state_of u) Connected"
      by (metis can_transition.simps(8) conn_view.select_convs(1) conn_view.surjective conn_view.update_convs(2,3,5) view_sel(1))
    ultimately show thesis
      using finish_connect_view [of u js io n mode] bring Inr that(1) [of _ tun]
      by (auto simp: live_def)
  qed
qed

lemma dial_cases:
  assumes "conn_state_of s = Starting"
  obtains (wedged) t e where "dial js io n mode s = (t, Inl e)" "view t = view s"
  | (err) t e where "dial js io n mode s = (t, Inl e)" "view t = failed ((view s)\<lparr>vw_node_id := nd_id n\<rparr>)"
  | (ok) t tun where "dial js io n mode s = (t, Inr ())" "view t = live (nd_id n) tun (view s)"
proof -
  obtain m r where m: "nodes_select (lc_nodes s) (nd_id n) = (m, r)" by fastforce
  obtain e disk r2 where e: "set_mode (lj_rules js) (co_mode io) (lc_routing s, lc_disk s) mode = ((e, disk), r2)"
    by (metis prod.exhaust)
  let ?s1 = "s\<lparr>lc_nodes := m, lc_routing := e, lc_disk := disk\<rparr>"
  show thesis
  proof (cases r)
    case (Inl x)
    with m wedged show thesis by (simp add: dial_def)
  next
    case r: (Inr x)
    show thesis
    proof (cases r2)
      case (Inl x)
      with m e r wedged show thesis by (simp add: dial_def)
    next
      case (Inr y)
      from context_step [of ?s1 Connecting "co_now io 3" "nd_id n" "nd_name n" "mode_str mode"] assms
      obtain t where t: "on_state (set_context (co_now io 3) Connecting (nd_id n) (nd_name n) (mode_str mode)) ?s1 = (t, Inr ())"
        "view t = (view s)\<lparr>vw_state := Connecting, vw_node_id := nd_id n\<rparr>" by auto
      from m e r Inr t(1) have dial: "dial js io n mode s = bring_up js io n mode t" by (simp add: dial_def)
      have "conn_state_of t = Connecting" using arg_cong [OF t(2), of vw_state] by simp
      then show thesis
      proof (cases rule: bring_up_cases [of t js io n mode])
        case (ok u tun)
        with dial t(2) that(3) [of u tun] show thesis by (simp add: live_def)
      next
        case (err u e)
        with dial t(2) that(2) [of u e] show thesis by (simp add: failed_def released_def)
      qed
    qed
  qed
qed

section \<open>The resources at rest\<close>

text \<open>
  What a manager holds between operations; the second argument is the recovery in flight,
  with the node it works for.
\<close>

definition conn_inv :: "conn_view \<Rightarrow> (node \<times> u32) option \<Rightarrow> bool" where
  "conn_inv v p \<longleftrightarrow>
     (let idle = (\<not> vw_core v \<and> \<not> vw_session v \<and> \<not> vw_tun v \<and> vw_active v = None \<and> p = None)
      in case vw_state v of
           Stopped \<Rightarrow> idle \<and> \<not> vw_monitor v
         | Starting \<Rightarrow> idle
         | Error \<Rightarrow> idle
         | Connected \<Rightarrow> vw_core v \<and> vw_proxy v \<and> vw_session v \<and> vw_active v = Some (vw_node_id v)
             \<and> vw_monitor v \<and> vw_count v = 0 \<and> p = None
         | Reconnecting \<Rightarrow> vw_proxy v \<and> vw_session v \<and> vw_monitor v
             \<and> (case p of None \<Rightarrow> False | Some (n, _) \<Rightarrow> vw_active v = Some (nd_id n))
         | _ \<Rightarrow> False)"

lemma conn_inv_live: "conn_inv (live i tun v) None"
  by (simp add: conn_inv_def live_def)

lemma conn_inv_failed: "conn_inv (failed v) None"
  by (simp add: conn_inv_def failed_def released_def)

definition pending_of :: "recover_io \<Rightarrow> (node \<times> u32) option \<Rightarrow> (recover_io \<times> node \<times> u32) option" where
  "pending_of io p = map_option (\<lambda>(n, attempt). (io, n, attempt)) p"

text \<open>The head of a connect, up to the state \<^verbatim>\<open>Starting\<close>.\<close>

definition enter_starting ::
  "lc_json \<Rightarrow> connect_io \<Rightarrow> (recover_io \<times> node \<times> u32) option \<Rightarrow> string \<Rightarrow> string \<Rightarrow> 'r conn_manager
     \<Rightarrow> 'r conn_manager \<times> (svc_error + unit)" where
  "enter_starting js io pending node_id mode s =
     (case leave_current js io pending node_id mode s of
        (s, Inl e) \<Rightarrow> (s, Inl e)
      | (s, Inr _) \<Rightarrow> if conn_state_of s \<noteq> Starting then on_state (transition (co_now io 2) Starting) s else (s, Inr ()))"

lemma connect_locked_eq:
  "connect_locked js io pending node_id mode s =
     (case enter_starting js io pending node_id mode s of
        (s, Inl e) \<Rightarrow> (s, Inl e)
      | (s, Inr _) \<Rightarrow>
          (case nodes_get (lc_nodes s) node_id of
             Inr n \<Rightarrow>
               if nd_enabled n then dial js io n (parse_mode mode) s
               else (abort_start js io (ConfigInvalid ''node disabled'') (parse_mode mode) None s,
                     Inl (ConfigInvalid ''node disabled''))
           | Inl e \<Rightarrow> (abort_start js io e (parse_mode mode) None s, Inl e)))"
  by (auto simp: connect_locked_def enter_starting_def Let_def split: prod.splits sum.splits)

text \<open>The resources while \<^verbatim>\<open>Starting\<close>: those of the session left behind are gone but for the proxy.\<close>

definition starting_inv :: "conn_view \<Rightarrow> bool" where
  "starting_inv v \<longleftrightarrow> vw_state v = Starting \<and> \<not> vw_core v \<and> \<not> vw_session v \<and> \<not> vw_tun v \<and> vw_active v = None"

lemma starting_conn_inv: "starting_inv v \<Longrightarrow> conn_inv v None"
  by (simp add: starting_inv_def conn_inv_def)

lemma switch_head:
  assumes "conn_state_of s = Connected" and "\<not> same_target s node_id mode"
  shows "\<exists>t. leave_current js io None node_id mode s = (t, Inr ())
     \<and> view t = (view s)\<lparr>vw_state := Starting, vw_core := False, vw_session := False, vw_tun := False,
         vw_active := None, vw_monitor := False\<rparr>"
proof -
  from transition_step(1) [of s Stopping "co_now io 0"] assms(1)
  obtain t where t: "on_state (transition (co_now io 0) Stopping) s = (t, Inr ())" "view t = (view s)\<lparr>vw_state := Stopping\<rparr>"
    by auto
  define u where "u = (let u = stop_monitor js None t; u = u\<lparr>lc_tun := tun_stop (lc_tun u)\<rparr>; u = stop_core u;
      u = u\<lparr>lc_stats := stats_end_session (ci_stats (co_cleanup io)) (lc_stats u)\<rparr> in u\<lparr>lc_active := None\<rparr>)"
  have mon: "view (stop_monitor js None t) = (view t)\<lparr>vw_monitor := False\<rparr>"
    by (simp add: stop_monitor_def)
  have u: "view u = (view t)\<lparr>vw_monitor := False, vw_tun := False, vw_core := False, vw_session := False, vw_active := None\<rparr>"
    by (simp add: u_def Let_def mon tun_stop_def)
  have st: "conn_state_of u = Stopping" using arg_cong [OF u, of vw_state] arg_cong [OF t(2), of vw_state] by simp
  from transition_step(1) [of u Starting "co_now io 1"] st obtain w where
    w: "on_state (transition (co_now io 1) Starting) u = (w, Inr ())" "view w = (view u)\<lparr>vw_state := Starting\<rparr>" by auto
  have "leave_current js io None node_id mode s = (w, Inr ())"
    using assms t(1) w(1) by (simp add: leave_current_def u_def Let_def)
  with w(2) u t(2) show ?thesis by simp
qed

lemma enter_starting_frame:
  assumes "enter_starting js io None node_id mode s = (t, r)"
  shows "lc_nodes t = lc_nodes s" "lc_route t = lc_route s" "lc_disk t = lc_disk s" "lc_config t = lc_config s"
    "lc_routing t = lc_routing s" "lc_dns t = lc_dns s" "ss_mode (lc_state t) = ss_mode (lc_state s)"
  using assms
  by (auto simp: enter_starting_def leave_current_def on_state_def stop_monitor_def stop_core_def transition_def Let_def
      split: prod.splits sum.splits if_splits)

lemma enter_starting_cases:
  assumes "conn_inv (view s) p"
  obtains (err) e where "enter_starting js io (pending_of rio p) node_id mode s = (s, Inl e)" "vw_state (view s) \<noteq> Stopped"
  | (ok) t where "enter_starting js io (pending_of rio p) node_id mode s = (t, Inr ())" "p = None"
      "starting_inv (view t)" "vw_proxy (view t) = vw_proxy (view s)"
proof (cases "conn_state_of s")
  case Connected
  with assms have p: "p = None" by (simp add: conn_inv_def)
  show thesis
  proof (cases "same_target s node_id mode")
    case True
    with Connected err show thesis by (simp add: enter_starting_def leave_current_def)
  next
    case False
    from switch_head [OF Connected False, of js io] obtain t where
      t: "leave_current js io None node_id mode s = (t, Inr ())"
      "view t = (view s)\<lparr>vw_state := Starting, vw_core := False, vw_session := False, vw_tun := False,
         vw_active := None, vw_monitor := False\<rparr>" by blast
    have "conn_state_of t = Starting" using arg_cong [OF t(2), of vw_state] by simp
    then have "enter_starting js io (pending_of rio p) node_id mode s = (t, Inr ())"
      using t(1) p by (simp add: enter_starting_def pending_of_def)
    moreover have "starting_inv (view t)" "vw_proxy (view t) = vw_proxy (view s)"
      unfolding t(2) starting_inv_def by simp_all
    ultimately show thesis using p ok by blast
  qed
next
  case Starting
  with err show thesis by (simp add: enter_starting_def leave_current_def)
next
  case Reconnecting
  with transition_step(2) [of s Starting "co_now io 2"] obtain e where
    "on_state (transition (co_now io 2) Starting) s = (s, Inl e)" by auto
  with Reconnecting err show thesis by (simp add: enter_starting_def leave_current_def)
next
  case Stopped
  with transition_step(1) [of s Starting "co_now io 2"] obtain t where
    t: "on_state (transition (co_now io 2) Starting) s = (t, Inr ())" "view t = (view s)\<lparr>vw_state := Starting\<rparr>" by auto
  with Stopped assms have "starting_inv (view t)" "vw_proxy (view t) = vw_proxy (view s)" "p = None"
    unfolding t(2) by (simp_all add: starting_inv_def conn_inv_def)
  with t(1) Stopped ok show thesis by (simp add: enter_starting_def leave_current_def)
next
  case Error
  with transition_step(1) [of s Starting "co_now io 2"] obtain t where
    t: "on_state (transition (co_now io 2) Starting) s = (t, Inr ())" "view t = (view s)\<lparr>vw_state := Starting\<rparr>" by auto
  with Error assms have "starting_inv (view t)" "vw_proxy (view t) = vw_proxy (view s)" "p = None"
    unfolding t(2) by (simp_all add: starting_inv_def conn_inv_def)
  with t(1) Error ok show thesis by (simp add: enter_starting_def leave_current_def)
qed (use assms in \<open>simp_all add: conn_inv_def\<close>)

text \<open>The five ends of a connect.\<close>

lemma connect_locked_cases:
  assumes "conn_inv (view s) p"
  obtains (refused) e where "connect_locked js io (pending_of rio p) node_id mode s = (s, Inl e)" "vw_state (view s) \<noteq> Stopped"
  | (no_node) t e where "connect_locked js io (pending_of rio p) node_id mode s = (t, Inl e)" "p = None"
      "vw_state (view t) = Error" "conn_inv (view t) None" "vw_proxy (view t) = vw_proxy (view s)"
  | (wedged) t e where "connect_locked js io (pending_of rio p) node_id mode s = (t, Inl e)" "p = None"
      "starting_inv (view t)"
  | (failed) t e v where "connect_locked js io (pending_of rio p) node_id mode s = (t, Inl e)" "p = None"
      "view t = Lifecycle_Runs.failed v"
  | (connected) t tun i v where "connect_locked js io (pending_of rio p) node_id mode s = (t, Inr ())" "p = None"
      "view t = live i tun v"
proof -
  consider (bad) e where "enter_starting js io (pending_of rio p) node_id mode s = (s, Inl e)" "vw_state (view s) \<noteq> Stopped"
    | (good) t where "enter_starting js io (pending_of rio p) node_id mode s = (t, Inr ())" "p = None"
        "starting_inv (view t)" "vw_proxy (view t) = vw_proxy (view s)"
    by (rule enter_starting_cases [OF assms])
  then show thesis
  proof cases
    case (bad e)
    with refused show thesis by (simp add: connect_locked_eq)
  next
    case (good t)
    have inv: "conn_inv ((view t)\<lparr>vw_state := Error, vw_active := None\<rparr>) None"
      using good(3) by (simp add: starting_inv_def conn_inv_def)
    show thesis
    proof (cases "nodes_get (lc_nodes t) node_id")
      case (Inl e)
      with good inv no_node show thesis by (simp add: connect_locked_eq del: view_sel)
    next
      case (Inr n)
      show thesis
      proof (cases "nd_enabled n")
        case False
        with Inr good inv no_node show thesis by (simp add: connect_locked_eq del: view_sel)
      next
        case True
        from good(3) have st: "conn_state_of t = Starting" by (simp add: starting_inv_def)
        from Inr True good(1) have "connect_locked js io (pending_of rio p) node_id mode s = dial js io n (parse_mode mode) t"
          by (simp add: connect_locked_eq)
        with dial_cases [OF st, of js io n "parse_mode mode"] good(2,3) wedged failed connected show thesis by metis
      qed
    qed
  qed
qed

lemma conn_inv_connect:
  assumes "conn_inv (view s) p"
  shows "conn_inv (view (fst (connect_locked js io (pending_of rio p) node_id mode s))) p"
proof (rule connect_locked_cases [OF assms, of js io rio node_id mode])
qed (use assms in \<open>auto simp: starting_conn_inv conn_inv_failed conn_inv_live simp del: view_sel\<close>)

section \<open>Disconnecting and recovering\<close>

lemma disconnect_idle:
  "conn_state_of s \<notin> {Error, Connected, Reconnecting} \<Longrightarrow> disconnect js io pending s = (s, Inr ())"
  by (simp add: disconnect_def)

text \<open>A supervisor stopped in \<^verbatim>\<open>Stopping\<close> or \<^verbatim>\<open>Error\<close>, with the recovery it was running, if any.\<close>

lemma stop_monitor_state:
  assumes "vw_state (view s) \<in> {Stopping, Error}"
    and "case p of None \<Rightarrow> True | Some (n, _) \<Rightarrow> vw_active (view s) = Some (nd_id n)"
  shows "vw_state (view (stop_monitor js (pending_of rio p) s)) \<in> {Stopping, Error}
     \<and> \<not> vw_monitor (view (stop_monitor js (pending_of rio p) s))"
proof (cases "p = None \<or> \<not> lc_monitor s")
  case True
  with assms(1) show ?thesis by (auto simp: stop_monitor_def pending_of_def)
next
  case False
  then obtain n a where p: "p = Some (n, a)" and mon: "lc_monitor s" by auto
  let ?t = "recover_rest js rio n a s"
  have "stop_monitor js (pending_of rio p) s = ?t\<lparr>lc_monitor := False\<rparr>"
    by (simp add: stop_monitor_def p pending_of_def mon)
  moreover have "vw_state (view ?t) \<in> {Stopping, Error}"
  proof (rule recover_rest_cases [of s n js rio a])
    show "vw_active (view s) = Some (nd_id n)" using assms(2) p by simp
  next
    fix i
    assume "view ?t =
      (let v = (view s)\<lparr>vw_core := True, vw_active := Some i, vw_count := 0\<rparr>
       in if conn_state_of s = Connected \<or> can_transition (conn_state_of s) Connected
          then v\<lparr>vw_state := Connected, vw_node_id := i\<rparr> else v)"
    with assms(1) show ?thesis by (auto simp: Let_def simp del: view_sel simp: view_sel(1) [symmetric])
  qed (auto simp: failed_def simp del: view_sel)
  ultimately show ?thesis by simp
qed

lemma disconnect_stops:
  assumes "conn_inv (view s) p" and "vw_state (view s) \<in> {Error, Connected, Reconnecting}"
  shows "\<exists>t. disconnect js io (pending_of rio p) s = (t, Inr ())
     \<and> (\<exists>v. view t = (released v)\<lparr>vw_state := Stopped, vw_active := None, vw_monitor := False\<rparr>)"
proof -
  let ?from_error = "conn_state_of s = Error"
  define s1 where "s1 = fst (if \<not> ?from_error then on_state (transition (di_now io 0) Stopping) s else (s, Inr ()))"
  have head: "(if \<not> ?from_error then on_state (transition (di_now io 0) Stopping) s else (s, Inr ())) = (s1, Inr ())"
    and s1: "view s1 = (view s)\<lparr>vw_state := (if ?from_error then Error else Stopping)\<rparr>"
    using assms(2) transition_step(1) [of s Stopping "di_now io 0"] unfolding s1_def by (auto simp: view_def)
  have "case p of None \<Rightarrow> True | Some (n, _) \<Rightarrow> vw_active (view s1) = Some (nd_id n)"
    using assms(1,2) unfolding s1 by (auto simp: conn_inv_def Let_def split: option.splits)
  moreover have "vw_state (view s1) \<in> {Stopping, Error}" unfolding s1 by simp
  ultimately have s2: "vw_state (view (stop_monitor js (pending_of rio p) s1)) \<in> {Stopping, Error}"
      "\<not> vw_monitor (view (stop_monitor js (pending_of rio p) s1))"
    using stop_monitor_state [of s1 p js rio] by auto
  define s2 where "s2 = stop_monitor js (pending_of rio p) s1"
  define s3 where "s3 = (let s = cleanup_partial (di_cleanup io) s2;
      s = persist_runtime js (di_runtime io) (di_now io 1) Stopped None (parse_mode (ss_mode (lc_state s))) s in s\<lparr>lc_active := None\<rparr>)"
  have s3: "view s3 = (released (view s2))\<lparr>vw_active := None\<rparr>" by (simp add: s3_def Let_def)
  have "conn_state_of s3 \<in> {Stopping, Error}"
    using s2(1) arg_cong [OF s3, of vw_state] by (simp add: released_def s2_def)
  with transition_step(1) [of s3 Stopped "di_now io 2"] obtain t where
    t: "on_state (transition (di_now io 2) Stopped) s3 = (t, Inr ())" "view t = (view s3)\<lparr>vw_state := Stopped\<rparr>" by auto
  have "disconnect js io (pending_of rio p) s = (t, Inr ())"
    using assms(2) head t(1) by (auto simp: disconnect_def s2_def s3_def Let_def)
  moreover have "view t = (released (view s2))\<lparr>vw_state := Stopped, vw_active := None, vw_monitor := False\<rparr>"
    using t(2) s3 s2(2) unfolding s2_def [symmetric] by (simp add: released_def view_def)
  ultimately show ?thesis by blast
qed

lemma conn_inv_stopped: "conn_inv ((released v)\<lparr>vw_state := Stopped, vw_active := None, vw_monitor := False\<rparr>) None"
  by (simp add: conn_inv_def released_def)

text \<open>The two halves of a recovery: up to the state \<^verbatim>\<open>Reconnecting\<close>, and the rest.\<close>

definition recover_begin :: "recover_io \<Rightarrow> 'r conn_manager \<Rightarrow> 'r conn_manager" where
  "recover_begin io s =
     fst (on_state (transition (ro_now io 0) Reconnecting) (s\<lparr>lc_restart_count := lc_restart_count s + 1\<rparr>))"

lemma recover_eq:
  "recover js io s =
     (case lc_active s of
        None \<Rightarrow> s
      | Some n \<Rightarrow> if conn_state_of s \<noteq> Connected then s
                  else recover_rest js io n (lc_restart_count s + 1) (recover_begin io s))"
  by (simp add: recover_def recover_begin_def Let_def split: option.split)

lemma view_recover_begin:
  "conn_state_of s = Connected \<Longrightarrow>
     view (recover_begin io s) = (view s)\<lparr>vw_state := Reconnecting, vw_count := vw_count (view s) + 1\<rparr>"
  unfolding recover_begin_def by (subst view_transition) (simp add: view_transition)

lemma recover_rest_reconnecting:
  assumes "vw_active (view s) = Some (nd_id n)" "vw_state (view s) = Reconnecting"
  obtains (ok) i where "view (recover_rest js io n a s) = (view s)\<lparr>vw_core := True,
      vw_active := Some i, vw_count := 0, vw_state := Connected, vw_node_id := i\<rparr>"
  | (err) "view (recover_rest js io n a s) = failed (view s)"
  using recover_rest_cases [OF assms(1), of js io a thesis] assms(2) by (auto simp: Let_def)

lemma conn_inv_recover_rest:
  assumes "conn_inv (view s) (Some (n, a))"
  shows "conn_inv (view (recover_rest js io n a s)) None"
proof -
  from assms have r: "vw_state (view s) = Reconnecting"
    by (auto simp: conn_inv_def Let_def split: conn_state.splits)
  with assms have v: "vw_active (view s) = Some (nd_id n)" "vw_proxy (view s)" "vw_session (view s)" "vw_monitor (view s)"
    by (simp_all add: conn_inv_def)
  show ?thesis
    by (rule recover_rest_reconnecting [OF v(1) r, of js io a])
       (simp_all add: conn_inv_failed del: view_sel, use v in \<open>simp add: conn_inv_def\<close>)
qed

section \<open>Boot\<close>

text \<open>What a boot does when it does not reconnect: the proxy is looked after, the state is persisted.\<close>

definition restore_only :: "lc_json \<Rightarrow> startup_io \<Rightarrow> 'r conn_manager \<Rightarrow> 'r conn_manager" where
  "restore_only js io s =
     persist_runtime js (su_runtime io) (su_now io) Stopped None (parse_mode (rp_mode (cm_runtime (lc_config s))))
       (fst (on_route (\<lambda>rt. restore_after_crash (lj_proxy js) (su_restore io) rt (cc_mixed_port (core_cfg s))) s))"

definition dials :: "'r conn_manager \<Rightarrow> node option" where
  \<comment> \<open>the node that a boot reconnects to\<close>
  "dials s =
     (let rt = cm_runtime (lc_config s)
      in if rp_last_state rt = state_str Connected \<and> ac_restore_previous_connection (cm_app (lc_config s)) then
           (case nodes_get (lc_nodes s) (rp_node_id rt) of
              Inl _ \<Rightarrow> None | Inr n \<Rightarrow> if nd_enabled n then Some n else None)
         else None)"

lemma startup_eq:
  "startup_recover js io s =
     (if rp_node_id (cm_runtime (lc_config s)) = [] then s
      else case dials s of
        None \<Rightarrow> restore_only js io s
      | Some n \<Rightarrow>
          (case connect_locked js (su_connect io) None (nd_id n) (mode_str (parse_mode (rp_mode (cm_runtime (lc_config s)))))
                  (fst (on_route (\<lambda>rt. prime_from_backup (lj_proxy js) (su_prime io) rt) s)) of
             (t, Inr _) \<Rightarrow>
               fst (on_route (\<lambda>rt. (ensure_proxy_applied (su_ensure io) rt
                   (local_endpoint (cc_mixed_port (core_cfg t))) default_bypass, ())) t)
           | (t, Inl _) \<Rightarrow>
               persist_runtime js (su_runtime io) (su_now io) Stopped None (parse_mode (rp_mode (cm_runtime (lc_config s))))
                 (fst (on_route (\<lambda>rt. restore_after_crash (lj_proxy js) (su_restore io) rt (cc_mixed_port (core_cfg s))) t))))"
  by (auto simp: startup_recover_def dials_def restore_only_def Let_def split: sum.split option.split prod.split)

lemma view_restore_only [simp]: "view (restore_only js io s) = view s"
  unfolding restore_only_def by (simp add: view_on_route) 

lemma conn_inv_prime:
  assumes "conn_inv (view s) p"
  shows "view (fst (on_route (\<lambda>rt. prime_from_backup js env rt) s)) \<in> {view s, (view s)\<lparr>vw_proxy := True\<rparr>}"
    and "conn_inv (view (fst (on_route (\<lambda>rt. prime_from_backup js env rt) s))) p"
proof -
  show *: "view (fst (on_route (\<lambda>rt. prime_from_backup js env rt) s)) \<in> {view s, (view s)\<lparr>vw_proxy := True\<rparr>}"
    by (simp add: view_on_route prime_from_backup_def is_active_def split: option.split)
  have "conn_inv ((view s)\<lparr>vw_proxy := True\<rparr>) p"
    using assms by (cases "vw_state (view s)") (auto simp: conn_inv_def Let_def split: option.splits)
  with * assms show "conn_inv (view (fst (on_route (\<lambda>rt. prime_from_backup js env rt) s))) p" by auto
qed

text \<open>At rest in \<^verbatim>\<open>Stopped\<close> the user's proxy is back.\<close>

definition settled :: "conn_view \<Rightarrow> bool" where
  "settled v \<longleftrightarrow> (vw_state v = Stopped \<longrightarrow> \<not> vw_proxy v)"

lemma settled_connect:
  assumes "conn_inv (view s) p"
  shows "settled (view (fst (connect_locked js io (pending_of rio p) node_id mode s)))"
  by (rule connect_locked_cases [OF assms, of js io rio node_id mode])
     (simp_all add: settled_def live_def failed_def starting_inv_def del: view_sel)

lemma connect_pending:
  "conn_inv (view s) p \<Longrightarrow> connect_locked js io None node_id mode s = connect_locked js io (pending_of rio p) node_id mode s"
  by (cases "conn_state_of s") (simp_all add: connect_locked_def leave_current_def conn_inv_def pending_of_def)

text \<open>Seen from outside, a boot does nothing, or is a connect.\<close>

lemma startup_cases:
  fixes s :: "'r conn_manager"
  assumes "conn_inv (view s) p"
  obtains (quiet) "view (startup_recover js io s) = view s"
  | (dial) i m and s0 :: "'r conn_manager" where "view s0 \<in> {view s, (view s)\<lparr>vw_proxy := True\<rparr>}" "conn_inv (view s0) p"
      "\<And>rio. view (startup_recover js io s) = view (fst (connect_locked js (su_connect io) (pending_of rio p) i m s0))"
proof (cases "rp_node_id (cm_runtime (lc_config s)) = [] \<or> dials s = None")
  case True
  then show thesis by (intro quiet) (auto simp: startup_eq)
next
  case False
  then obtain n where n: "dials s = Some n" by blast
  define s0 where "s0 = fst (on_route (\<lambda>rt. prime_from_backup (lj_proxy js) (su_prime io) rt) s)"
  note prime = conn_inv_prime [OF assms, of "lj_proxy js" "su_prime io", folded s0_def]
  let ?m = "mode_str (parse_mode (rp_mode (cm_runtime (lc_config s))))"
  obtain t r where t: "connect_locked js (su_connect io) None (nd_id n) ?m s0 = (t, r)" by fastforce
  have "view (startup_recover js io s) = view t"
    using False by (simp add: startup_eq n s0_def [symmetric] t view_on_route split: sum.split)
  moreover have "connect_locked js (su_connect io) (pending_of rio p) (nd_id n) ?m s0 = (t, r)" for rio
    using t connect_pending [OF prime(2)] by metis
  ultimately show thesis using dial [OF prime] by (metis fst_conv)
qed

lemma startup_inv:
  assumes "conn_inv (view s) p" and "settled (view s)"
  shows "conn_inv (view (startup_recover js io s)) p \<and> settled (view (startup_recover js io s))"
  using assms(1)
proof (cases rule: startup_cases [where js = js and io = io])
  case quiet
  with assms show ?thesis by simp
next
  case (dial i m s0)
  show ?thesis
    unfolding dial(3) [of undefined] by (intro conjI conn_inv_connect settled_connect dial(2))
qed

section \<open>Runs\<close>

text \<open>
  A run of the service: the guarded operations, the two halves of a recovery by the
  supervisor, the traffic flush, and any change of the settings, nodes, rules and files by
  the rest of the service or by other programs.  The second component is the recovery in
  flight.
\<close>

inductive lc_step :: "lc_json \<Rightarrow> 'r conn_manager \<times> (node \<times> u32) option \<Rightarrow> 'r conn_manager \<times> (node \<times> u32) option \<Rightarrow> bool"
  for js :: lc_json where
  do_connect: "lc_step js (s, p) (fst (connect js io (pending_of rio p) node_id mode s), p)"
| do_disconnect: "lc_step js (s, p)
    (fst (disconnect js dio (pending_of rio p) s), if conn_state_of s \<in> {Error, Connected, Reconnecting} then None else p)"
| do_startup: "lc_step js (s, p) (startup_recover js sio s, p)"
| do_recover: "lc_step js (s, None) (recover_begin rio s, Some (n, lc_restart_count (recover_begin rio s)))"
  if "lc_monitor s" "lc_active s = Some n" "conn_state_of s = Connected"
| do_finish: "lc_step js (s, Some (n, attempt)) (recover_rest js rio n attempt s, None)"
| do_flush: "lc_step js (s, p) (s\<lparr>lc_stats := flush_once env (lc_stats s)\<rparr>, p)"
| do_others: "lc_step js (s, p) (s\<lparr>lc_config := cm, lc_disk := disk, lc_nodes := nm, lc_routing := e, lc_dns := dns\<rparr>, p)"

inductive_cases lc_stepE: "lc_step js a b"

definition initial_manager :: "'r conn_manager \<Rightarrow> bool" where
  "initial_manager s \<longleftrightarrow> lc_core s = core_new \<and> rt_saved (lc_route s) = None \<and> lc_tun s = tun_new
     \<and> sx_session (lc_stats s) = None \<and> lc_state s = new_store \<and> lc_active s = None \<and> \<not> lc_monitor s
     \<and> lc_restart_count s = 0"

lemma session_active_flush [simp]: "session_active (flush_once env st) = session_active st"
  by (simp add: flush_once_def session_active_def Let_def split: prod.split option.split)

lemma view_dns [simp]: "view (s\<lparr>lc_dns := d\<rparr>) = view s"
  by (simp add: view_def)

definition run_inv :: "'r conn_manager \<times> (node \<times> u32) option \<Rightarrow> bool" where
  "run_inv a \<longleftrightarrow> conn_inv (view (fst a)) (snd a) \<and> settled (view (fst a))"

lemma run_inv_init: "initial_manager s \<Longrightarrow> run_inv (s, None)"
  by (simp add: run_inv_def initial_manager_def conn_inv_def settled_def core_new_def tun_new_def
      session_active_def is_active_def new_store_def)

lemma run_inv_step: "lc_step js a b \<Longrightarrow> run_inv a \<Longrightarrow> run_inv b"
proof (induction rule: lc_step.induct)
  case (do_connect s p io rio node_id mode)
  then show ?case by (simp add: run_inv_def connect_def conn_inv_connect settled_connect del: view_sel)
next
  case (do_disconnect s p dio rio)
  show ?case
  proof (cases "conn_state_of s \<in> {Error, Connected, Reconnecting}")
    case True
    with do_disconnect disconnect_stops [of s p js dio rio] obtain t v where
      "disconnect js dio (pending_of rio p) s = (t, Inr ())"
      "view t = (released v)\<lparr>vw_state := Stopped, vw_active := None, vw_monitor := False\<rparr>"
      by (auto simp: run_inv_def)
    with True conn_inv_stopped [of v] show ?thesis by (simp add: run_inv_def settled_def released_def del: view_sel)
  next
    case False
    with do_disconnect disconnect_idle [OF False] show ?thesis by simp
  qed
next
  case (do_startup s p sio)
  then show ?case using startup_inv [of s p js sio] by (simp add: run_inv_def)
next
  case (do_recover s n rio)
  then have "vw_active (view s) = Some (nd_id n)" by simp
  with do_recover show ?case
    by (simp add: run_inv_def conn_inv_def settled_def view_recover_begin)
next
  case (do_finish s n attempt rio)
  then have inv: "conn_inv (view s) (Some (n, attempt))" by (simp add: run_inv_def)
  then have r: "vw_state (view s) = Reconnecting"
    by (auto simp: conn_inv_def Let_def split: conn_state.splits)
  with inv have a: "vw_active (view s) = Some (nd_id n)" by (simp add: conn_inv_def)
  from conn_inv_recover_rest [OF inv] have "conn_inv (view (recover_rest js rio n attempt s)) None" .
  moreover have "settled (view (recover_rest js rio n attempt s))"
    by (rule recover_rest_reconnecting [OF a r, of js rio attempt]) (simp_all add: settled_def failed_def del: view_sel)
  ultimately show ?case by (simp add: run_inv_def)
next
  case (do_flush s p env)
  then show ?case by (simp add: run_inv_def) (simp add: view_def session_active_def)
next
  case (do_others s p cm disk nm e dns)
  then show ?case by (simp add: run_inv_def)
qed

lemma run_inv_run: "(lc_step js)\<^sup>*\<^sup>* (s0, None) a \<Longrightarrow> initial_manager s0 \<Longrightarrow> run_inv a"
  by (induction rule: rtranclp_induct) (auto intro: run_inv_init run_inv_step)


end
