(* ===== verification/Lifecycle_Connect.thy ===== *)
theory Lifecycle_Connect
  imports Lifecycle_Runs
begin

text \<open>
  When a connect of \<^verbatim>\<open>app/lifecycle.rs\<close> succeeds, what it then leaves running, what a
  disconnect gives back, and the ends in which the service is stuck or the machine is left
  pointing at a dead proxy.
\<close>

section \<open>Success\<close>

definition proxy_ready :: "route_env \<Rightarrow> route_state \<Rightarrow> u16 \<Rightarrow> bool" where
  "proxy_ready env rt port \<longleftrightarrow>
     is_active rt \<or> is_ok (snd (apply_proxy (re_apply1 env) (rt_reg rt) (Some (proxy_spec (local_endpoint port), default_bypass))))"

lemma set_system_proxy_ok_iff:
  "is_ok (snd (set_system_proxy js env rt (local_endpoint port) default_bypass)) \<longleftrightarrow> proxy_ready env rt port"
  by (auto simp: set_system_proxy_def proxy_ready_def is_active_def Let_def is_ok_iff split: prod.split sum.split)

lemma proxy_ready_disk [simp]: "proxy_ready env (rt\<lparr>rt_disk := d\<rparr>) port = proxy_ready env rt port"
  by (simp add: proxy_ready_def)

text \<open>What a connect to a node leaves: the running core and the session are the node's.\<close>

definition serves :: "'r conn_manager \<Rightarrow> dns_config \<Rightarrow> node \<Rightarrow> 'r conn_manager \<Rightarrow> bool" where
  "serves s dns n t \<longleftrightarrow>
     lc_active t = Some n \<and> (\<exists>i. sx_session (lc_stats t) = Some (i, nd_id n))
   \<and> (\<exists>p. ca_child (lc_core t) = Some p
        \<and> generate_config (for_node (cc_kind (core_cfg s)) n) (core_cfg s) n dns = Inr (pr_config p))"

lemma finish_connect_runs:
  "can_transition (conn_state_of s) Connected \<Longrightarrow> \<exists>t. finish_connect js io n mode s = (t, Inr ())"
  using context_step [of "s\<lparr>lc_stats := stats_start_session (co_stats io) (co_uuid io) (lc_stats s) (nd_id n), lc_active := Some n, lc_restart_count := 0\<rparr>"
      Connected "co_now io 4" "nd_id n" "nd_name n" "mode_str mode"]
  by (auto simp: finish_connect_def Let_def split: prod.split sum.split)

lemma finish_connect_frame:
  assumes "finish_connect js io n mode s = (t, Inr u)"
  shows "lc_active t = Some n" "lc_core t = lc_core s" "lc_route t = lc_route s"
    "sx_session (lc_stats t) = Some (''sess_'' @ co_uuid io, nd_id n)"
  using assms
  by (auto simp: finish_connect_def on_state_def spawn_monitor_def persist_runtime_def stats_start_session_def Let_def
      split: prod.splits sum.splits)

lemma start_core_run:
  assumes "start_succeeds (lj_core js) (pt_root (cm_paths (lc_config s))) (core_cfg s) io (lc_core s, lc_disk s) n (lc_dns s)"
  shows "\<exists>t p. start_core js io n s = (t, Inr ()) \<and> ca_child (lc_core t) = Some p
     \<and> generate_config (for_node (cc_kind (core_cfg s)) n) (core_cfg s) n (lc_dns s) = Inr (pr_config p)
     \<and> lc_route t = lc_route s \<and> lc_config t = lc_config s"
  by (rule core_start_ok [OF assms]) (simp add: start_core_def on_core_def adapter_start_def)

lemma start_core_refused:
  assumes "\<not> start_succeeds (lj_core js) (pt_root (cm_paths (lc_config s))) (core_cfg s) io (lc_core s, lc_disk s) n (lc_dns s)"
  shows "\<exists>t e. start_core js io n s = (t, Inl e)"
  by (rule core_start_fails [OF assms]) (simp add: start_core_def on_core_def adapter_start_def)

definition up_ready :: "lc_json \<Rightarrow> connect_io \<Rightarrow> node \<Rightarrow> 'r conn_manager \<Rightarrow> bool" where
  "up_ready js io n s \<longleftrightarrow>
     start_succeeds (lj_core js) (pt_root (cm_paths (lc_config s))) (core_cfg s) (co_start io) (lc_core s, lc_disk s) n (lc_dns s)
   \<and> proxy_ready (co_proxy io) (lc_route s) (cc_mixed_port (core_cfg s))"

lemma bring_up_exact:
  assumes "conn_state_of s = Connecting"
  shows "\<exists>t r. bring_up js io n mode s = (t, r) \<and> (is_ok r \<longleftrightarrow> up_ready js io n s)
     \<and> (is_ok r \<longrightarrow> serves s (lc_dns s) n t
          \<and> (\<exists>d. lc_route t = fst (set_system_proxy (lj_proxy js) (co_proxy io) ((lc_route s)\<lparr>rt_disk := d\<rparr>)
                 (local_endpoint (cc_mixed_port (core_cfg s))) default_bypass)))"
proof (cases "start_succeeds (lj_core js) (pt_root (cm_paths (lc_config s))) (core_cfg s) (co_start io) (lc_core s, lc_disk s) n (lc_dns s)")
  case False
  with start_core_refused [OF False] show ?thesis by (auto simp: bring_up_def up_ready_def)
next
  case True
  from start_core_run [OF True] obtain t p where t: "start_core js (co_start io) n s = (t, Inr ())"
    "ca_child (lc_core t) = Some p" "lc_route t = lc_route s" "lc_config t = lc_config s"
    "generate_config (for_node (cc_kind (core_cfg s)) n) (core_cfg s) n (lc_dns s) = Inr (pr_config p)" by blast
  define t1 where "t1 = (if tc_enabled (ac_tun (cm_app (lc_config t)))
     then t\<lparr>lc_tun := fst (tun_start (co_tun io) (ac_tun (cm_app (lc_config t))) (lc_tun t))\<rparr> else t)"
  have t1: "lc_route t1 = lc_route s" "lc_config t1 = lc_config s" "lc_core t1 = lc_core t"
    using t by (simp_all add: t1_def)
  let ?set = "set_system_proxy (lj_proxy js) (co_proxy io) ((lc_route s)\<lparr>rt_disk := lc_disk t1\<rparr>)
                 (local_endpoint (cc_mixed_port (core_cfg s))) default_bypass"
  obtain rt r where set: "?set = (rt, r)" by fastforce
  define u where "u = t1\<lparr>lc_route := rt, lc_disk := rt_disk rt\<rparr>"
  have bring: "bring_up js io n mode s =
     (case r of Inl e \<Rightarrow> (abort_start js io e mode (Some n) (cleanup_partial (co_cleanup io) u), Inl e)
      | Inr _ \<Rightarrow> finish_connect js io n mode u)"
    using t(1) set t1 by (cases r) (simp_all add: bring_up_def t1_def [symmetric] u_def on_route_def)
  have r: "is_ok r \<longleftrightarrow> proxy_ready (co_proxy io) (lc_route s) (cc_mixed_port (core_cfg s))"
    using set_system_proxy_ok_iff [of "lj_proxy js" "co_proxy io" "(lc_route s)\<lparr>rt_disk := lc_disk t1\<rparr>" "cc_mixed_port (core_cfg s)"] set by simp
  show ?thesis
  proof (cases r)
    case (Inl e)
    with bring r show ?thesis by (simp add: up_ready_def)
  next
    case (Inr x)
    have "lc_state u = lc_state s" using t(1) by (auto simp: u_def t1_def start_core_def on_core_def split: prod.splits)
    with finish_connect_runs [of u js io n mode] assms obtain w where w: "finish_connect js io n mode u = (w, Inr ())" by auto
    note frame = finish_connect_frame [OF w]
    show ?thesis
      using bring Inr r True w frame t t1 set
      by (auto simp: up_ready_def serves_def u_def intro!: exI [of _ "lc_disk t1"])
  qed
qed

text \<open>The steps of a connect to a node that was found enabled, up to the start of the core.\<close>

definition mode_set :: "lc_json \<Rightarrow> connect_io \<Rightarrow> route_mode \<Rightarrow> 'r conn_manager \<Rightarrow> 'r engine_state \<times> (svc_error + unit)" where
  "mode_set js io mode s = set_mode (lj_rules js) (co_mode io) (lc_routing s, lc_disk s) mode"

definition dial_ready :: "lc_json \<Rightarrow> connect_io \<Rightarrow> route_mode \<Rightarrow> node \<Rightarrow> 'r conn_manager \<Rightarrow> bool" where
  "dial_ready js io mode n s \<longleftrightarrow>
     is_ok (snd (nodes_select (lc_nodes s) (nd_id n)))
   \<and> is_ok (snd (mode_set js io mode s))
   \<and> start_succeeds (lj_core js) (pt_root (cm_paths (lc_config s))) (core_cfg s) (co_start io)
       (lc_core s, snd (fst (mode_set js io mode s))) n (lc_dns s)
   \<and> proxy_ready (co_proxy io) (lc_route s) (cc_mixed_port (core_cfg s))"

lemma dial_exact:
  assumes "conn_state_of s = Starting"
  shows "\<exists>t r. dial js io n mode s = (t, r) \<and> (is_ok r \<longleftrightarrow> dial_ready js io mode n s)
     \<and> (is_ok r \<longrightarrow> serves s (lc_dns s) n t
          \<and> (\<exists>d. lc_route t = fst (set_system_proxy (lj_proxy js) (co_proxy io) ((lc_route s)\<lparr>rt_disk := d\<rparr>)
                 (local_endpoint (cc_mixed_port (core_cfg s))) default_bypass)))"
proof -
  obtain m r where m: "nodes_select (lc_nodes s) (nd_id n) = (m, r)" by fastforce
  obtain e disk r2 where e: "set_mode (lj_rules js) (co_mode io) (lc_routing s, lc_disk s) mode = ((e, disk), r2)"
    by (metis prod.exhaust)
  show ?thesis
  proof (cases "is_ok r \<and> is_ok r2")
    case False
    with m e show ?thesis by (cases r; cases r2) (simp_all add: dial_def dial_ready_def mode_set_def Let_def)
  next
    case True
    define s1 where "s1 = s\<lparr>lc_nodes := m, lc_routing := e, lc_disk := disk\<rparr>"
    from context_step [of s1 Connecting "co_now io 3" "nd_id n" "nd_name n" "mode_str mode"] assms
    obtain t where t: "on_state (set_context (co_now io 3) Connecting (nd_id n) (nd_name n) (mode_str mode)) s1 = (t, Inr ())"
      "view t = (view s1)\<lparr>vw_state := Connecting, vw_node_id := nd_id n\<rparr>" by (auto simp: s1_def)
    then have frame: "lc_route t = lc_route s" "lc_config t = lc_config s" "lc_core t = lc_core s" "lc_dns t = lc_dns s" "lc_disk t = disk"
      by (auto simp: on_state_def s1_def split: prod.splits)
    have "conn_state_of t = Connecting" using arg_cong [OF t(2), of vw_state] by simp
    note up = bring_up_exact [OF this, of js io n mode]
    have "dial js io n mode s = bring_up js io n mode t"
      using m e True t(1) by (auto simp: dial_def s1_def is_ok_iff)
    moreover have "up_ready js io n t \<longleftrightarrow> dial_ready js io mode n s"
      using m e True by (simp add: up_ready_def dial_ready_def mode_set_def frame)
    moreover have "serves t = serves s" by (intro ext) (simp add: serves_def frame)
    ultimately show ?thesis using up by (simp add: frame)
  qed
qed

lemma dial_outcome:
  assumes "conn_state_of s = Starting"
  shows "is_ok (snd (dial js io n mode s)) \<longleftrightarrow> dial_ready js io mode n s"
    and "dial_ready js io mode n s \<Longrightarrow> serves s (lc_dns s) n (fst (dial js io n mode s))"
    and "dial_ready js io mode n s \<Longrightarrow> \<exists>d. lc_route (fst (dial js io n mode s)) =
           fst (set_system_proxy (lj_proxy js) (co_proxy io) ((lc_route s)\<lparr>rt_disk := d\<rparr>)
                 (local_endpoint (cc_mixed_port (core_cfg s))) default_bypass)"
  using dial_exact [OF assms, of js io n mode] by auto

definition idle_view :: "conn_view \<Rightarrow> bool" where
  "idle_view v \<longleftrightarrow> \<not> vw_core v \<and> \<not> vw_session v \<and> vw_active v = None"

lemma connect_outcome:
  assumes "conn_inv (view s) None" and "conn_state_of s = Stopped \<or> conn_state_of s = Error"
  shows "case connect js io None i mode s of (t, r) \<Rightarrow>
     (is_ok r \<longleftrightarrow> (\<exists>n. nodes_get (lc_nodes s) i = Inr n \<and> nd_enabled n \<and> dial_ready js io (parse_mode mode) n s))
   \<and> (if is_ok r then conn_state_of t = Connected \<and> (\<exists>n. nodes_get (lc_nodes s) i = Inr n \<and> serves s (lc_dns s) n t)
      else ca_child (lc_core t) = None \<and> \<not> session_active (lc_stats t) \<and> lc_active t = None)"
proof -
  have "conn_state_of s \<noteq> Starting \<and> conn_state_of s \<noteq> Connected \<and> conn_state_of s \<notin> {Starting, Connecting, Stopping}"
    using assms(2) by auto
  then have enter: "enter_starting js io None i mode s = on_state (transition (co_now io 2) Starting) s"
    by (simp add: enter_starting_def leave_current_def)
  from transition_step(1) [of s Starting "co_now io 2"] assms(2) obtain t where
    t: "on_state (transition (co_now io 2) Starting) s = (t, Inr ())" "view t = (view s)\<lparr>vw_state := Starting\<rparr>" by auto
  have start: "conn_state_of t = Starting" using arg_cong [OF t(2), of vw_state] by simp
  have frame: "lc_nodes t = lc_nodes s" "lc_route t = lc_route s" "lc_config t = lc_config s" "lc_core t = lc_core s"
    "lc_dns t = lc_dns s" "lc_disk t = lc_disk s" "lc_routing t = lc_routing s"
    using t(1) by (auto simp: on_state_def split: prod.splits)
  have ready: "dial_ready js io m n t \<longleftrightarrow> dial_ready js io m n s" for m n
    by (simp add: dial_ready_def mode_set_def frame)
  have serves: "serves t = serves s" by (intro ext) (simp add: serves_def frame)
  note conn = connect_locked_eq [of js io None i mode s, unfolded enter t(1), simplified]
  have first: "is_ok (snd (connect js io None i mode s)) \<longleftrightarrow>
      (\<exists>n. nodes_get (lc_nodes s) i = Inr n \<and> nd_enabled n \<and> dial_ready js io (parse_mode mode) n s)"
    using conn by (auto simp: connect_def frame ready dial_outcome(1) [OF start] split: sum.split)
  have second: "\<exists>n. nodes_get (lc_nodes s) i = Inr n \<and> serves s (lc_dns s) n (fst (connect js io None i mode s))"
    if "is_ok (snd (connect js io None i mode s))"
    using conn that first dial_outcome(2) [OF start, of js io "parse_mode mode"]
    by (auto simp: connect_def frame ready serves)
  have none: "pending_of rio None = None" for rio by (simp add: pending_of_def)
  have third: "if is_ok (snd (connect js io None i mode s)) then conn_state_of (fst (connect js io None i mode s)) = Connected
      else idle_view (view (fst (connect js io None i mode s)))"
    by (rule connect_locked_cases [OF assms(1), of js io undefined i mode, unfolded none connect_def [symmetric]])
       (use assms in \<open>auto simp: conn_inv_def idle_view_def live_def failed_def released_def starting_inv_def simp del: view_sel simp: view_sel(1) [symmetric]\<close>)
  obtain u r where u: "connect js io None i mode s = (u, r)" by fastforce
  from first second third show ?thesis
    by (cases "is_ok r") (simp_all add: u idle_view_def)
qed

text \<open>
  C5. A connect from \<^verbatim>\<open>STOPPED\<close> or \<^verbatim>\<open>ERROR\<close> succeeds exactly when the node is known and
  enabled, the mode can be saved, the core starts and the system proxy can be set.  Then
  the core runs with the configuration generated for this very node, the node is the active
  one, and a session is open in its name; otherwise no core and no session are left.
\<close>

theorem connect_exact:
  assumes "conn_inv (view s) None" and "conn_state_of s = Stopped \<or> conn_state_of s = Error"
  shows "case connect js io None i mode s of (t, r) \<Rightarrow>
     (is_ok r \<longleftrightarrow> (\<exists>n. nodes_get (lc_nodes s) i = Inr n \<and> nd_enabled n \<and> dial_ready js io (parse_mode mode) n s))
   \<and> (if is_ok r then conn_state_of t = Connected \<and> (\<exists>n. nodes_get (lc_nodes s) i = Inr n \<and> serves s (lc_dns s) n t)
      else ca_child (lc_core t) = None \<and> \<not> session_active (lc_stats t) \<and> lc_active t = None)"
  using assms by (rule connect_outcome)

section \<open>The proxy\<close>

lemma abort_frame:
  "conn_state_of (abort_start js io e mode n s) = Error" "lc_core (abort_start js io e mode n s) = lc_core s"
  "lc_route (abort_start js io e mode n s) = lc_route s"
  by (simp_all add: abort_start_def persist_runtime_def Let_def split: prod.split)

lemma connect_ok_route:
  assumes "conn_inv (view s) None" and "conn_state_of s = Stopped \<or> conn_state_of s = Error"
    and "connect js io None i mode s = (t, Inr ())"
  shows "\<exists>d. lc_route t = fst (set_system_proxy (lj_proxy js) (co_proxy io) ((lc_route s)\<lparr>rt_disk := d\<rparr>)
                 (local_endpoint (cc_mixed_port (core_cfg s))) default_bypass)"
    and "proxy_ready (co_proxy io) (lc_route s) (cc_mixed_port (core_cfg s))"
proof -
  have "conn_state_of s \<noteq> Starting \<and> conn_state_of s \<noteq> Connected \<and> conn_state_of s \<notin> {Starting, Connecting, Stopping}"
    using assms(2) by auto
  then have enter: "enter_starting js io None i mode s = on_state (transition (co_now io 2) Starting) s"
    by (simp add: enter_starting_def leave_current_def)
  from transition_step(1) [of s Starting "co_now io 2"] assms(2) obtain u where
    u: "on_state (transition (co_now io 2) Starting) s = (u, Inr ())" "view u = (view s)\<lparr>vw_state := Starting\<rparr>" by auto
  have start: "conn_state_of u = Starting" using arg_cong [OF u(2), of vw_state] by simp
  have frame: "lc_nodes u = lc_nodes s" "lc_route u = lc_route s" "lc_config u = lc_config s"
    using u(1) by (auto simp: on_state_def split: prod.splits)
  from assms(3) connect_locked_eq [of js io None i mode s, unfolded enter u(1), simplified]
  obtain n where n: "dial js io n (parse_mode mode) u = (t, Inr ())"
    by (auto simp: connect_def split: sum.splits if_splits)
  have "dial_ready js io (parse_mode mode) n u"
    using dial_outcome(1) [OF start, of js io n "parse_mode mode"] n by simp
  with dial_outcome(3) [OF start this] n
  show "\<exists>d. lc_route t = fst (set_system_proxy (lj_proxy js) (co_proxy io) ((lc_route s)\<lparr>rt_disk := d\<rparr>)
                 (local_endpoint (cc_mixed_port (core_cfg s))) default_bypass)"
    "proxy_ready (co_proxy io) (lc_route s) (cc_mixed_port (core_cfg s))"
    by (simp_all add: frame dial_ready_def)
qed

lemma connect_sets_proxy:
  assumes "conn_inv (view s) None" and "conn_state_of s = Stopped" and "rt_saved (lc_route s) = None"
    and "connect js io None i mode s = (t, Inr ())"
  shows "effective (rt_reg (lc_route t)) = Some (proxy_spec (local_endpoint (cc_mixed_port (core_cfg s))), default_bypass)"
    and "\<not> re_unreadable (co_proxy io) \<Longrightarrow> \<exists>sp. rt_saved (lc_route t) = Some sp
       \<and> snapshot_effect sp = (if dangling (local_endpoint (cc_mixed_port (core_cfg s))) (rt_reg (lc_route s)) then None
                              else effective (rt_reg (lc_route s)))"
proof -
  let ?ep = "local_endpoint (cc_mixed_port (core_cfg s))"
  from connect_ok_route [OF assms(1) _ assms(4)] assms(2) obtain d where
    d: "lc_route t = fst (set_system_proxy (lj_proxy js) (co_proxy io) ((lc_route s)\<lparr>rt_disk := d\<rparr>) ?ep default_bypass)"
    and ready: "proxy_ready (co_proxy io) ((lc_route s)\<lparr>rt_disk := d\<rparr>) (cc_mixed_port (core_cfg s))" by auto
  from ready have "is_ok (snd (set_system_proxy (lj_proxy js) (co_proxy io) ((lc_route s)\<lparr>rt_disk := d\<rparr>) ?ep default_bypass))"
    by (simp only: set_system_proxy_ok_iff)
  with d have set: "set_system_proxy (lj_proxy js) (co_proxy io) ((lc_route s)\<lparr>rt_disk := d\<rparr>) ?ep default_bypass = (lc_route t, Inr ())"
    by (cases "set_system_proxy (lj_proxy js) (co_proxy io) ((lc_route s)\<lparr>rt_disk := d\<rparr>) ?ep default_bypass") (auto simp: is_ok_iff)
  have none: "rt_saved ((lc_route s)\<lparr>rt_disk := d\<rparr>) = None" using assms(3) by simp
  from set_system_proxy_ok [OF none set]
  show "effective (rt_reg (lc_route t)) = Some (proxy_spec ?ep, default_bypass)"
    "\<not> re_unreadable (co_proxy io) \<Longrightarrow> \<exists>sp. rt_saved (lc_route t) = Some sp
       \<and> snapshot_effect sp = (if dangling ?ep (rt_reg (lc_route s)) then None else effective (rt_reg (lc_route s)))"
    by auto
qed

lemma disconnect_route:
  assumes "conn_state_of s = Connected"
  shows "\<exists>d. lc_route (fst (disconnect js io None s)) = clear_system_proxy (ci_clear (di_cleanup io)) ((lc_route s)\<lparr>rt_disk := d\<rparr>)"
proof -
  have frame: "lc_route (cleanup_partial cio u) = clear_system_proxy (ci_clear cio) ((lc_route u)\<lparr>rt_disk := lc_disk u\<rparr>)" for cio u
    by (simp add: cleanup_partial_def on_route_def stop_core_def Let_def)
  have keep: "lc_route (stop_monitor js None u) = lc_route u" "lc_route (fst (on_state f u)) = lc_route u"
    "lc_route (persist_runtime js w now st n m u) = lc_route u" for u :: "'r conn_manager" and f w now st n m
    by (simp_all add: stop_monitor_def on_state_def persist_runtime_def Let_def split: prod.split)
  from transition_step(1) [of s Stopping "di_now io 0"] assms obtain u where
    u: "on_state (transition (di_now io 0) Stopping) s = (u, Inr ())" by auto
  then have "lc_route u = lc_route s" using keep(2) [of "transition (di_now io 0) Stopping" s] by simp
  with assms u show ?thesis
    by (auto simp: disconnect_def Let_def frame keep)
qed


text \<open>A connect neither adds nor removes nodes, and does not touch the settings.\<close>

definition static :: "'r conn_manager \<Rightarrow> (string \<times> node) list \<times> app_config" where
  "static s = (nm_nodes (lc_nodes s), cm_app (lc_config s))"

lemma static_frame:
  "on_state f s = (t, r) \<Longrightarrow> static t = static s"
  "on_route g s = (t, r2) \<Longrightarrow> static t = static s"
  "start_core js io n s = (t, r) \<Longrightarrow> static t = static s"
  by (auto simp: static_def on_state_def on_route_def start_core_def on_core_def split: prod.splits)

lemma static_simps [simp]:
  "static (persist_runtime js w now st x mode s) = static s"
  "static (cleanup_partial cio s) = static s" "static (abort_start js cn e mode x s) = static s"
  "static (s\<lparr>lc_stats := v1\<rparr>) = static s" "static (s\<lparr>lc_active := v2\<rparr>) = static s"
  "static (s\<lparr>lc_restart_count := v3\<rparr>) = static s" "static (s\<lparr>lc_monitor := v4\<rparr>) = static s"
  "static (s\<lparr>lc_state := v5\<rparr>) = static s" "static (s\<lparr>lc_tun := v6\<rparr>) = static s"
  "static (s\<lparr>lc_routing := v7\<rparr>) = static s" "static (s\<lparr>lc_disk := v8\<rparr>) = static s"
  by (simp_all add: static_def on_route_def persist_runtime_def save_runtime_def cleanup_partial_def
      stop_core_def abort_start_def Let_def split: prod.split sum.split)

lemma static_nodes: "nm_nodes m = nm_nodes (lc_nodes s) \<Longrightarrow> static (s\<lparr>lc_nodes := m\<rparr>) = static s"
  by (simp add: static_def)

lemma test_node_split: "test_node out now m i = (m', r) \<Longrightarrow> nm_nodes m' = nm_nodes m"
  by (auto simp: test_node_def test_node_inner_def Let_def split: prod.splits sum.splits option.splits if_splits)

lemma select_split: "nodes_select m i = (m', r) \<Longrightarrow> nm_nodes m' = nm_nodes m"
  by (auto simp: nodes_select_def split: if_splits)

lemma finish_static: "finish_connect js io n mode s = (t, r) \<Longrightarrow> static t = static s"
  by (auto simp: finish_connect_def spawn_monitor_def Let_def static_nodes
      dest!: static_frame(1) test_node_split split: prod.splits sum.splits)

lemma bring_up_static: "bring_up js io n mode s = (t, r) \<Longrightarrow> static t = static s"
  by (auto simp: bring_up_def Let_def dest!: static_frame finish_static split: prod.splits sum.splits if_splits)

lemma dial_static: "dial js io n mode s = (t, r) \<Longrightarrow> static t = static s"
  by (auto simp: dial_def Let_def static_nodes dest!: static_frame(1) bring_up_static select_split split: prod.splits sum.splits)

lemma connect_static: "connect js io None i mode s = (t, r) \<Longrightarrow> static t = static s"
proof -
  have enter: "enter_starting js io None i mode s = (u, r') \<Longrightarrow> static u = static s" for u r'
    using enter_starting_frame(1,4) [of js io i mode s u r'] by (simp add: static_def)
  show "connect js io None i mode s = (t, r) \<Longrightarrow> static t = static s"
    by (auto simp: connect_def connect_locked_eq dest!: enter dial_static split: prod.splits sum.splits if_splits)
qed

text \<open>
  C23. A switch of a live connection to a node that does not exist stops the core but leaves
  the system proxy as it is: the service is in \<^verbatim>\<open>ERROR\<close>, nothing runs, and the machine
  still sends its traffic to the local inbound that is gone.
\<close>

theorem switch_to_missing_node_dangles:
  assumes "conn_inv (view s) None" and "conn_state_of s = Stopped" and "rt_saved (lc_route s) = None"
    and "connect js io None i mode s = (t, Inr ())"
    and "\<not> same_target t j mode'" and "nodes_get (lc_nodes s) j = Inl e"
  shows "case connect js io' None j mode' t of (u, r) \<Rightarrow>
      r = Inl e \<and> conn_state_of u = Error \<and> ca_child (lc_core u) = None
    \<and> effective (rt_reg (lc_route u)) = Some (proxy_spec (local_endpoint (cc_mixed_port (core_cfg s))), default_bypass)"
proof -
  have conn: "conn_state_of t = Connected"
    using connect_outcome [OF assms(1), where js = js and io = io and i = i and mode = mode] assms(2,4) by simp
  from switch_head [OF conn assms(5), of js io'] obtain w where
    w: "leave_current js io' None j mode' t = (w, Inr ())"
      "view w = (view t)\<lparr>vw_state := Starting, vw_core := False, vw_session := False, vw_tun := False,
         vw_active := None, vw_monitor := False\<rparr>" by blast
  have st: "conn_state_of w = Starting" "ca_child (lc_core w) = None"
    using arg_cong [OF w(2), of vw_state] arg_cong [OF w(2), of vw_core] by simp_all
  have enter: "enter_starting js io' None j mode' t = (w, Inr ())" using w(1) st by (simp add: enter_starting_def)
  have "connect js io' None j mode' t = (abort_start js io' e (parse_mode mode') None w, Inl e)"
    using enter assms(6) enter_starting_frame(1) [OF enter] connect_static [OF assms(4)]
    by (simp add: connect_def connect_locked_eq nodes_get_def static_def)
  moreover note st(2) enter_starting_frame(2) [OF enter]
  ultimately show ?thesis using connect_sets_proxy(1) [OF assms(1-4)] by (simp add: abort_frame)
qed

section \<open>The service is stuck\<close>

lemma starting_refuses:
  "conn_state_of s = Starting \<Longrightarrow> connect_locked js io p i mode s = (s, Inl (AlreadyRunning ''connection''))"
  by (simp add: connect_locked_def leave_current_def)

lemma starting_stays:
  assumes "lc_step js a b" and "conn_state_of (fst a) = Starting" and "snd a = None"
  shows "conn_state_of (fst b) = Starting \<and> snd b = None"
  using assms
proof (induction rule: lc_step.induct)
  case (do_connect s p io rio node_id mode)
  then show ?case by (simp add: connect_def starting_refuses)
next
  case (do_disconnect s p dio rio)
  then show ?case by (simp add: disconnect_idle)
next
  case (do_startup s p sio)
  have rt: "conn_state_of (fst (on_route f u)) = conn_state_of u" for f :: "route_state \<Rightarrow> route_state \<times> 'x" and u :: "'r conn_manager"
    by (simp add: on_route_def split: prod.split)
  from do_startup show ?case
    by (auto simp: startup_eq restore_only_def rt starting_refuses split: option.split)
qed simp_all

text \<open>
  C25. When the routing mode cannot be saved during a connect, the connect returns its error
  and leaves the state in \<^verbatim>\<open>STARTING\<close>; from there no operation of the service ever leads
  out again: every later connect answers that a connection is running, and every disconnect
  does nothing.
\<close>

theorem unsaved_mode_wedges:
  assumes "conn_state_of s = Stopped \<or> conn_state_of s = Error"
    and "nodes_get (lc_nodes s) i = Inr n" and "nd_enabled n"
    and "snd (mode_set js io (parse_mode mode) s) = Inl e" and "is_ok (snd (nodes_select (lc_nodes s) (nd_id n)))"
    and "(lc_step js')\<^sup>*\<^sup>* (fst (connect js io None i mode s), None) (t, p)"
  shows "snd (connect js io None i mode s) = Inl e \<and> conn_state_of t = Starting
     \<and> connect js' io' None j mode' t = (t, Inl (AlreadyRunning ''connection''))
     \<and> disconnect js' dio None t = (t, Inr ())"
proof -
  have "conn_state_of s \<noteq> Starting \<and> conn_state_of s \<noteq> Connected \<and> conn_state_of s \<notin> {Starting, Connecting, Stopping}"
    using assms(1) by auto
  then have enter: "enter_starting js io None i mode s = on_state (transition (co_now io 2) Starting) s"
    by (simp add: enter_starting_def leave_current_def)
  from transition_step(1) [of s Starting "co_now io 2"] assms(1) obtain u where
    u: "on_state (transition (co_now io 2) Starting) s = (u, Inr ())" "view u = (view s)\<lparr>vw_state := Starting\<rparr>" by auto
  have start: "conn_state_of u = Starting" using arg_cong [OF u(2), of vw_state] by simp
  have frame: "lc_nodes u = lc_nodes s" "lc_routing u = lc_routing s" "lc_disk u = lc_disk s"
    using u(1) by (auto simp: on_state_def split: prod.splits)
  obtain m r where m: "nodes_select (lc_nodes s) (nd_id n) = (m, Inr r)" using assms(5)
    by (cases "nodes_select (lc_nodes s) (nd_id n)") (auto simp: is_ok_iff)
  obtain eng disk where eng: "set_mode (lj_rules js) (co_mode io) (lc_routing s, lc_disk s) (parse_mode mode) = ((eng, disk), Inl e)"
    using assms(4) unfolding mode_set_def by (metis prod.exhaust snd_conv)
  have con: "connect js io None i mode s = (u\<lparr>lc_nodes := m, lc_routing := eng, lc_disk := disk\<rparr>, Inl e)"
    using assms(2,3) m eng enter u(1) by (simp add: connect_def connect_locked_eq frame dial_def)
  have "conn_state_of (fst (t, p)) = Starting \<and> snd (t, p) = (None :: (node \<times> u32) option)"
    using assms(6)
  proof (induction rule: rtranclp_induct)
    case base
    then show ?case by (simp add: con start)
  next
    case (step a b)
    then show ?case using starting_stays by blast
  qed
  then show ?thesis
    using con by (simp add: connect_def starting_refuses disconnect_idle)
qed

section \<open>Recovery has one attempt\<close>

lemma connected_count: "run_inv (s, p) \<Longrightarrow> conn_state_of s = Connected \<Longrightarrow> lc_restart_count s = 0"
  by (simp add: run_inv_def conn_inv_def)

text \<open>
  C22. The counter of restarts is back at zero in every connected state, so a recovery is
  always the first attempt: with a configured maximum of one or more, the core is restarted
  once, and when that does not help everything is torn down, in every mode and with every
  maximum.  Neither a second restart nor the switch to another node of the smart mode
  happens.
\<close>

theorem recovery_gets_one_attempt:
  assumes "initial_manager s0" and "(lc_step js)\<^sup>*\<^sup>* (s0, None) (s, None)"
    and "conn_state_of s = Connected" and "1 \<le> cc_restart_max (core_cfg s)" and "lc_active s = Some n"
  shows "case try_restart js io n (recover_begin io s) of (_, ok) \<Rightarrow>
     if ok then conn_state_of (recover js io s) = Connected \<and> ca_child (lc_core (recover js io s)) \<noteq> None
             \<and> map_option nd_id (lc_active (recover js io s)) = Some (nd_id n)
     else conn_state_of (recover js io s) = Error \<and> ca_child (lc_core (recover js io s)) = None
        \<and> \<not> is_active (lc_route (recover js io s)) \<and> lc_active (recover js io s) = None"
proof -
  from run_inv_run [OF assms(2,1)] assms(3) have zero: "lc_restart_count s = 0" by (rule connected_count)
  have cfg: "core_cfg (recover_begin io s) = core_cfg s"
    by (simp add: recover_begin_def on_state_def split: prod.split)
  have rec: "recover js io s = recover_rest js io n 1 (recover_begin io s)"
    using assms(3,5) zero by (simp add: recover_eq)
  note rb = view_recover_begin [OF assms(3), of io]
  have max: "1 \<le> cc_restart_max (core_cfg (recover_begin io s))" using assms(4) cfg by simp
  show ?thesis
  proof (cases rule: try_restart_cases [of js io n "recover_begin io s"])
    case (ok t)
    have st: "vw_state (view t) = Reconnecting" unfolding ok(2) rb by simp
    have "view (recover js io s) = view (mark_recovered js io n t)" using ok(1) max by (simp add: rec recover_rest_def)
    also have "\<dots> = (view t)\<lparr>vw_count := 0, vw_state := Connected, vw_node_id := nd_id n\<rparr>"
      using st by (simp add: view_mark Let_def)
    finally have v: "view (recover js io s) = (view t)\<lparr>vw_count := 0, vw_state := Connected, vw_node_id := nd_id n\<rparr>" .
    from arg_cong [OF v, of vw_state] arg_cong [OF v, of vw_core] arg_cong [OF v, of vw_active]
      arg_cong [OF ok(2), of vw_core] arg_cong [OF ok(2), of vw_active] arg_cong [OF rb, of vw_active] assms(5)
    show ?thesis using ok(1) by simp
  next
    case (err t)
    have v: "view (recover js io s) = failed (view t)" using err(1) max by (simp add: rec recover_rest_def)
    from arg_cong [OF v, of vw_state] arg_cong [OF v, of vw_core] arg_cong [OF v, of vw_active] arg_cong [OF v, of vw_proxy]
    show ?thesis using err(1) by (simp add: failed_def released_def)
  qed
qed

section \<open>A boot that comes late\<close>

text \<open>
  C24. The recovery at boot runs in a task of its own beside the clients.  When a client has
  connected before it, and the boot does not reconnect, it restores the user's proxy under
  the live session and persists \<^verbatim>\<open>STOPPED\<close>, while the state stays \<^verbatim>\<open>CONNECTED\<close> and the core
  goes on running unused.
\<close>

theorem late_boot_breaks_session:
  assumes "conn_state_of s = Connected" and "rp_node_id (cm_runtime (lc_config s)) \<noteq> []" and "dials s = None"
    and "load_backup (lj_proxy js) env_good ((lc_route s)\<lparr>rt_disk := lc_disk s\<rparr>) = Some saved"
    and "su_restore io = env_good" and "su_runtime io = io_good"
  shows "conn_state_of (startup_recover js io s) = Connected
       \<and> lc_core (startup_recover js io s) = lc_core s
       \<and> effective (rt_reg (lc_route (startup_recover js io s))) = snapshot_effect saved
       \<and> rp_last_state (cm_runtime (lc_config (startup_recover js io s))) = ''STOPPED''"
proof -
  define rt where "rt = (lc_route s)\<lparr>rt_disk := lc_disk s\<rparr>"
  obtain reg where reg: "write_back env_good (rt_reg rt) saved = (reg, Inr ())" using write_back_good by blast
  have res: "restore_after_crash (lj_proxy js) env_good rt port = (drop_backup env_good (rt\<lparr>rt_reg := reg\<rparr>), True)" for port
    using assms(4) reg by (simp add: restore_after_crash_def rt_def)
  have save: "cm_runtime (fst (fst (save_runtime ser io_good x st))) = st" for ser x st
    by (cases x) (simp add: save_runtime_def atomic_write_def io_good_def Let_def)
  have "startup_recover js io s = restore_only js io s" using assms(2,3) by (simp add: startup_eq)
  moreover have "rp_last_state (cm_runtime (lc_config (persist_runtime js io_good now Stopped None m u))) = ''STOPPED''"
    for now m and u :: "'a conn_manager"
  proof -
    have "lc_config (persist_runtime js io_good now Stopped None m u) =
        fst (fst (save_runtime (lj_runtime js) io_good (lc_config u, lc_disk u)
          \<lparr>rp_last_state = state_str Stopped, rp_node_id = [], rp_mode = mode_str m, rp_updated_at = now\<rparr>))"
      by (simp add: persist_runtime_def Let_def split: prod.split)
    then show ?thesis by (simp add: save)
  qed
  moreover have "lc_core (restore_only js io s) = lc_core s" "lc_state (restore_only js io s) = lc_state s"
    by (simp_all add: restore_only_def on_route_def persist_runtime_def Let_def split: prod.split)
  moreover have "lc_route (restore_only js io s) = drop_backup env_good (rt\<lparr>rt_reg := reg\<rparr>)"
    using res assms(5) by (simp add: restore_only_def on_route_def persist_runtime_def Let_def rt_def [symmetric] split: prod.split)
  moreover have "effective reg = snapshot_effect saved" using write_back_ok [OF reg] .
  ultimately show ?thesis using assms(1,6)
    by (simp add: restore_only_def drop_backup_def env_good_def)
qed

section \<open>A machine for the witnesses\<close>

definition demo_js :: lc_json where
  "demo_js = \<lparr>lj_core = js_text, lj_rules = \<lparr>rj_rules = (\<lambda>_. ''[]''), rj_cfg = (\<lambda>_. ''{}'')\<rparr>,
     lj_runtime = (\<lambda>_. ''{}''), lj_proxy = unary_proxy_json\<rparr>"

definition demo_stats :: stats_env where
  "demo_stats = \<lparr>se_begin = None, se_end = None, se_insert = None, se_sum = None, se_now = 5, se_instant = 5,
     se_midnight = 0, se_rate = (\<lambda>n _. n)\<rparr>"

definition demo_cleanup :: cleanup_io where
  "demo_cleanup = \<lparr>ci_clear = env_good, ci_stats = demo_stats\<rparr>"

definition demo_connect :: connect_io where
  "demo_connect = \<lparr>co_now = int, co_mode = io_good, co_start = start_good,
     co_tun = \<lparr>ti_loads = [], ti_start = Inr (), ti_netsh = (\<lambda>_. Inr ())\<rparr>, co_proxy = env_good,
     co_cleanup = demo_cleanup, co_stats = demo_stats, co_uuid = ''u1'', co_runtime = io_good,
     co_probe = Connect_timeout, co_test = Connect_timeout\<rparr>"

definition demo_manager :: "unit conn_manager" where
  "demo_manager = \<lparr>lc_config = \<lparr>cm_paths = paths_with_root ''d'', cm_app = app_config_default, cm_runtime = runtime_persist_default\<rparr>,
     lc_disk = Map.empty,
     lc_nodes = \<lparr>nm_nodes = [(''n1'', demo_node)], nm_selected = None, nm_stats = [], nm_in_flight = {},
        nm_paths = paths_with_root ''d'', nm_events = []\<rparr>,
     lc_routing = \<lparr>re_rules = [], re_index = rule_index_new, re_geo = geoip_empty, re_cfg = routing_config_default,
        re_paths = paths_with_root ''d''\<rparr>,
     lc_dns = dns_config_default, lc_core = core_new, lc_route = route_new ''d'' Map.empty demo_registry,
     lc_tun = tun_new,
     lc_stats = \<lparr>sx_db = \<lparr>db_sessions = [], db_samples = []\<rparr>, sx_up = 0, sx_down = 0, sx_session = None,
        sx_last = None, sx_bus = []\<rparr>,
     lc_state = new_store, lc_active = None, lc_monitor = False, lc_restart_count = 0\<rparr>"

lemma demo_initial: "initial_manager demo_manager"
  by (simp add: initial_manager_def demo_manager_def route_new_def)

lemma demo_facts:
  "nodes_get (lc_nodes demo_manager) ''n1'' = Inr demo_node" "nd_enabled demo_node"
  "conn_state_of demo_manager = Stopped" "rt_saved (lc_route demo_manager) = None"
  "rt_reg (lc_route demo_manager) = demo_registry" "conn_inv (view demo_manager) None"
  "nodes_get (lc_nodes demo_manager) ''gone'' = Inl (NodeNotFound ''gone'')"
  "is_ok (snd (nodes_select (lc_nodes demo_manager) (nd_id demo_node)))"
  using run_inv_init [OF demo_initial]
  by (simp_all add: demo_manager_def nodes_get_def demo_node_def new_store_def route_new_def run_inv_def nodes_select_def)

lemma demo_ready: "dial_ready demo_js demo_connect mode demo_node demo_manager"
proof -
  have "is_ok (snd (mode_set demo_js demo_connect mode demo_manager))"
    using atomic_write_good by (simp add: mode_set_def set_mode_def persist_config_def demo_connect_def split: prod.split)
       (metis snd_conv)
  moreover have "start_succeeds (lj_core demo_js) (pt_root (cm_paths (lc_config demo_manager))) (core_cfg demo_manager)
      (co_start demo_connect) (lc_core demo_manager, disk) demo_node (lc_dns demo_manager)" for disk
    using demo_start_succeeds [of core_new "lj_core demo_js" disk]
    by (simp add: demo_manager_def demo_connect_def paths_with_root_def app_config_default_def core_new_def)
  moreover have "proxy_ready (co_proxy demo_connect) (lc_route demo_manager) (cc_mixed_port (core_cfg demo_manager))"
    by (simp add: proxy_ready_def demo_connect_def env_good_def apply_proxy_def fails_at_def Let_def)
  ultimately show ?thesis using demo_facts(8) by (simp add: dial_ready_def)
qed

lemma demo_connects:
  "\<exists>t. connect demo_js demo_connect None ''n1'' mode demo_manager = (t, Inr ()) \<and> conn_state_of t = Connected
     \<and> lc_active t = Some demo_node"
proof -
  obtain t r where t: "connect demo_js demo_connect None ''n1'' mode demo_manager = (t, r)" by fastforce
  note out = connect_outcome [OF demo_facts(6), where js = demo_js and io = demo_connect and i = "''n1''" and mode = mode]
  from out t demo_facts(1-3) demo_ready have "is_ok r" by auto
  with out t demo_facts(1,3) show ?thesis by (auto simp: serves_def is_ok_iff)
qed

text \<open>The machine connected to its node.\<close>

definition demo_connected :: "unit conn_manager" where
  "demo_connected = fst (connect demo_js demo_connect None ''n1'' ''smart'' demo_manager)"

lemma demo_connected:
  "connect demo_js demo_connect None ''n1'' ''smart'' demo_manager = (demo_connected, Inr ())"
  "conn_state_of demo_connected = Connected" "lc_active demo_connected = Some demo_node"
  using demo_connects [of "''smart''"] by (auto simp: demo_connected_def)

lemma demo_run: "(lc_step demo_js)\<^sup>*\<^sup>* (demo_manager, None) (demo_connected, None)"
  using do_connect [of demo_js demo_manager None demo_connect undefined "''n1''" "''smart''"] demo_connected(1)
  by (auto simp: pending_of_def)


theorem connect_exact_witness:
  "is_ok (snd (connect demo_js demo_connect None ''n1'' ''smart'' demo_manager))
 \<and> \<not> is_ok (snd (connect demo_js demo_connect None ''gone'' ''smart'' demo_manager))"
  using connect_exact [OF demo_facts(6), where js = demo_js and io = demo_connect and i = "''n1''" and mode = "''smart''"]
    connect_exact [OF demo_facts(6), where js = demo_js and io = demo_connect and i = "''gone''" and mode = "''smart''"]
    demo_facts demo_ready [of "parse_mode ''smart''"]
  by (auto split: prod.splits)

definition demo_disconnect :: disconnect_io where
  "demo_disconnect = \<lparr>di_now = int, di_cleanup = demo_cleanup, di_runtime = io_good\<rparr>"

lemma demo_port: "local_endpoint (cc_mixed_port (core_cfg demo_manager)) = ''127.0.0.1:2080''"
proof -
  have "nat_str 2080 = ''2080''" by code_simp
  then show ?thesis
    by (simp add: demo_manager_def app_config_default_def core_config_default_def local_endpoint_def)
qed


theorem switch_to_missing_node_dangles_witness:
  "conn_state_of (fst (connect demo_js demo_connect None ''gone'' ''smart'' demo_connected)) = Error
 \<and> effective (rt_reg (lc_route (fst (connect demo_js demo_connect None ''gone'' ''smart'' demo_connected))))
     = Some (proxy_spec ''127.0.0.1:2080'', default_bypass)"
proof -
  have "\<not> same_target demo_connected ''gone'' ''smart''"
    by (simp add: same_target_def demo_connected(3)) (simp add: demo_node_def)
  from switch_to_missing_node_dangles [OF demo_facts(6,3,4) demo_connected(1) this demo_facts(7),
      where io' = demo_connect]
  show ?thesis by (auto simp: demo_port split: prod.splits)
qed

definition demo_full :: connect_io where
  "demo_full = demo_connect\<lparr>co_mode := io_good\<lparr>io_write := Some (''disk full'', 3)\<rparr>\<rparr>"

theorem unsaved_mode_wedges_witness:
  "connect demo_js demo_connect None ''n1'' ''smart'' (fst (connect demo_js demo_full None ''n1'' ''smart'' demo_manager))
     = (fst (connect demo_js demo_full None ''n1'' ''smart'' demo_manager), Inl (AlreadyRunning ''connection''))"
proof -
  have "\<exists>e. snd (mode_set demo_js demo_full (parse_mode ''smart'') demo_manager) = Inl e"
    by (simp add: mode_set_def set_mode_def persist_config_def demo_full_def atomic_write_def io_good_def Let_def split: prod.split)
  then obtain e where e: "snd (mode_set demo_js demo_full (parse_mode ''smart'') demo_manager) = Inl e" by blast
  let ?t = "fst (connect demo_js demo_full None ''n1'' ''smart'' demo_manager)"
  show ?thesis
    using unsaved_mode_wedges [OF disjI1 [OF demo_facts(3)] demo_facts(1,2) e demo_facts(8),
        where js' = demo_js and t = ?t and p = None and io' = demo_connect and j = "''n1''" and mode' = "''smart''"] by simp
qed

definition demo_recover :: recover_io where
  "demo_recover = \<lparr>ro_now = int, ro_start = start_good\<lparr>si_exe_exists := False\<rparr>, ro_health = \<lparr>hi_local = True, hi_tunnel = Some 204\<rparr>,
     ro_net = (\<lambda>_. Connect_timeout), ro_start2 = start_good, ro_health2 = \<lparr>hi_local = True, hi_tunnel = Some 204\<rparr>,
     ro_cleanup = demo_cleanup, ro_runtime = io_good\<rparr>"

theorem recovery_gets_one_attempt_witness:
  "conn_state_of (recover demo_js demo_recover demo_connected) = Error"
proof -
  have cfg: "cm_app (lc_config demo_connected) = app_config_default"
    using connect_static [OF demo_connected(1)] by (simp add: static_def) (simp add: demo_manager_def)
  then have "1 \<le> cc_restart_max (core_cfg demo_connected)" by (simp add: app_config_default_def core_config_default_def)
  note one = recovery_gets_one_attempt [OF demo_initial demo_run demo_connected(2) this demo_connected(3), of demo_recover]
  have "\<exists>t. try_restart demo_js demo_recover demo_node u = (t, False)" for u :: "unit conn_manager"
  proof -
    have "\<not> start_succeeds ser root core (ro_start demo_recover) c n dns" for ser root core c n dns
      by (simp add: start_succeeds_def demo_recover_def)
    from start_core_refused [OF this] obtain t e where "start_core demo_js (ro_start demo_recover) demo_node (stop_core u) = (t, Inl e)"
      by blast
    then show ?thesis by (simp add: try_restart_def)
  qed
  then obtain t where "try_restart demo_js demo_recover demo_node (recover_begin demo_recover demo_connected) = (t, False)"
    by blast
  with one show ?thesis by simp
qed

text \<open>A machine whose client connected before the boot task ran, after a crash.\<close>

definition demo_crashed :: "unit conn_manager" where
  "demo_crashed = demo_manager\<lparr>lc_state := new_store\<lparr>ss_state := Connected\<rparr>,
     lc_config := (lc_config demo_manager)\<lparr>cm_runtime := runtime_persist_default\<lparr>rp_node_id := ''n1''\<rparr>\<rparr>,
     lc_disk := [(''d'', ''proxy_backup.json'') \<mapsto>
        pj_ser unary_proxy_json \<lparr>sp_proxy = ''corp:3128'', sp_bypass = ''*.corp'', sp_direct = False\<rparr>]\<rparr>"

definition demo_startup :: startup_io where
  "demo_startup = \<lparr>su_connect = demo_connect, su_prime = env_good, su_ensure = env_good, su_restore = env_good,
     su_now = 9, su_runtime = io_good\<rparr>"

theorem late_boot_breaks_session_witness:
  "conn_state_of (startup_recover demo_js demo_startup demo_crashed) = Connected
 \<and> effective (rt_reg (lc_route (startup_recover demo_js demo_startup demo_crashed))) = Some (''corp:3128'', ''*.corp'')"
proof -
  have "dials demo_crashed = None"
    by (simp add: dials_def demo_crashed_def demo_manager_def app_config_default_def)
  moreover have "load_backup (lj_proxy demo_js) env_good ((lc_route demo_crashed)\<lparr>rt_disk := lc_disk demo_crashed\<rparr>)
      = Some \<lparr>sp_proxy = ''corp:3128'', sp_bypass = ''*.corp'', sp_direct = False\<rparr>"
    by (simp add: load_backup_def env_good_def demo_crashed_def demo_manager_def route_new_def demo_js_def unary_proxy_json_law)
  ultimately show ?thesis
    using late_boot_breaks_session [of demo_crashed demo_js _ demo_startup]
    by (simp add: demo_crashed_def demo_startup_def snapshot_effect_def)
qed

end
