(* ===== verification/Lifecycle_Spec.thy ===== *)
theory Lifecycle_Spec
  imports Lifecycle_Connect
begin

text \<open>
  The connection as a client of the service sees it, as a small automaton, and the proof that
  the operations of \<^verbatim>\<open>app/lifecycle.rs\<close> refine it.
\<close>

datatype session = Off | On string | Retrying string | Broken | Stuck

text \<open>
  \<open>Stuck\<close> is the state \<^verbatim>\<open>STARTING\<close> at rest.  It is entered by a connect only and never left; a
  recovery starts from a live connection only and keeps its node while it runs.
\<close>

inductive session_step :: "session \<Rightarrow> session \<Rightarrow> bool" where
  dial_on: "session_step v (On i)" if "v \<in> {Off, Broken} \<or> (\<exists>j. v = On j)"
| dial_broken: "session_step v Broken" if "v \<in> {Off, Broken} \<or> (\<exists>j. v = On j)"
| dial_stuck: "session_step v Stuck" if "v \<in> {Off, Broken} \<or> (\<exists>j. v = On j)"
| hang_up: "session_step v Off" if "v = Broken \<or> (\<exists>j. v = On j \<or> v = Retrying j)"
| lose: "session_step (On i) (Retrying i)"
| regain: "session_step (Retrying i) (On j)"
| give_up_on: "session_step (Retrying i) Broken"

inductive_simps session_step_simps: "session_step v w"

definition session_of :: "conn_view \<Rightarrow> session" where
  "session_of v =
     (case vw_state v of
        Stopped \<Rightarrow> Off
      | Connected \<Rightarrow> On (the (vw_active v))
      | Reconnecting \<Rightarrow> Retrying (the (vw_active v))
      | Error \<Rightarrow> Broken
      | _ \<Rightarrow> Stuck)"

lemma session_of_outcomes [simp]:
  "session_of (live i tun v) = On i" "session_of (failed v) = Broken"
  "session_of ((released v)\<lparr>vw_state := Stopped, vw_active := None, vw_monitor := b\<rparr>) = Off"
  "session_of (v\<lparr>vw_core := c, vw_active := Some i, vw_count := k, vw_state := Connected, vw_node_id := j\<rparr>) = On i"
  "starting_inv v \<Longrightarrow> session_of v = Stuck" "vw_state v = Error \<Longrightarrow> session_of v = Broken"
  by (simp_all add: session_of_def live_def failed_def starting_inv_def)

lemma session_of_proxy [simp]: "session_of (v\<lparr>vw_proxy := b\<rparr>) = session_of v"
    "session_of (v\<lparr>vw_session := b\<rparr>) = session_of v"
  by (cases "vw_state v"; simp add: session_of_def)+

lemma connect_refines:
  assumes "conn_inv (view s) p"
  shows "session_step\<^sup>=\<^sup>= (session_of (view s)) (session_of (view (fst (connect_locked js io (pending_of rio p) i mode s))))"
proof -
  have old: "p = None \<Longrightarrow> session_of (view s) \<in> {Off, Broken} \<or> (\<exists>j. session_of (view s) = On j) \<or> session_of (view s) = Stuck"
    using assms by (auto simp: conn_inv_def session_of_def Let_def split: conn_state.splits)
  have stuck: "session_of (view s) = Stuck \<Longrightarrow> connect_locked js io (pending_of rio p) i mode s = (s, Inl (AlreadyRunning ''connection''))"
    using assms starting_refuses [of s js io "pending_of rio p" i mode]
    by (auto simp: conn_inv_def session_of_def Let_def split: conn_state.splits)
  show ?thesis
  proof (cases "session_of (view s) = Stuck")
    case True
    with stuck show ?thesis by simp
  next
    case False
    show ?thesis
      by (rule connect_locked_cases [OF assms, of js io rio i mode])
         (use old False in \<open>auto simp: session_step_simps simp del: view_sel\<close>)
  qed
qed

text \<open>
  C15. Seen through \<open>session_of\<close>, every operation of the service is a step of the automaton
  or changes nothing: the detailed model refines it along every run.
\<close>

theorem lifecycle_refines_session:
  assumes "initial_manager s0" and "(lc_step js)\<^sup>*\<^sup>* (s0, None) (s, p)" and "lc_step js (s, p) (t, q)"
  shows "session_step\<^sup>=\<^sup>= (session_of (view s)) (session_of (view t))"
proof -
  from run_inv_run [OF assms(2,1)] have inv: "conn_inv (view s) p" "settled (view s)" by (simp_all add: run_inv_def)
  from assms(3) show ?thesis
  proof (cases rule: lc_step.cases)
    case (do_connect io rio i mode)
    with connect_refines [OF inv(1), of js io rio i mode] show ?thesis by (simp add: connect_def)
  next
    case (do_disconnect dio rio)
    show ?thesis
    proof (cases "conn_state_of s \<in> {Error, Connected, Reconnecting}")
      case True
      with disconnect_stops [OF inv(1), of js dio rio] do_disconnect obtain v where
        "view t = (released v)\<lparr>vw_state := Stopped, vw_active := None, vw_monitor := False\<rparr>" by auto
      then have "session_of (view t) = Off" by simp
      moreover have "session_of (view s) = Broken \<or> (\<exists>j. session_of (view s) = On j \<or> session_of (view s) = Retrying j)"
        using True by (auto simp: session_of_def)
      ultimately show ?thesis by (simp add: session_step_simps)
    next
      case False
      with do_disconnect disconnect_idle [OF False] show ?thesis by simp
    qed
  next
    case (do_startup sio)
    then have t: "t = startup_recover js sio s" by simp
    from inv(1) show ?thesis
    proof (cases rule: startup_cases [where js = js and io = sio])
      case quiet
      with t show ?thesis by simp
    next
      case (dial i m s0)
      have "session_of (view s0) = session_of (view s)" using dial(1) by auto
      with connect_refines [OF dial(2), of js "su_connect sio" undefined i m] dial(3) t show ?thesis by simp
    qed
  next
    case (do_recover n rio)
    then have "view t = (view s)\<lparr>vw_state := Reconnecting, vw_count := vw_count (view s) + 1\<rparr>"
      using view_recover_begin by blast
    then have "session_of (view t) = Retrying (the (vw_active (view s)))" by (simp add: session_of_def)
    moreover have "session_of (view s) = On (the (vw_active (view s)))" using do_recover by (simp add: session_of_def)
    ultimately show ?thesis by (simp add: session_step_simps)
  next
    case (do_finish n attempt rio)
    with inv have r: "vw_state (view s) = Reconnecting"
      by (auto simp: conn_inv_def Let_def split: conn_state.splits)
    with inv do_finish have a: "vw_active (view s) = Some (nd_id n)" by (simp add: conn_inv_def)
    have "session_of (view s) = Retrying (nd_id n)" using r a by (simp add: session_of_def del: view_sel)
    then show ?thesis
      using do_finish
      by (cases rule: recover_rest_reconnecting [OF a r, of js rio attempt])
         (auto simp: session_step_simps simp del: view_sel)
  qed simp_all
qed

theorem lifecycle_refines_session_witness:
  "session_of (view demo_manager) = Off \<and> session_of (view demo_connected) = On (nd_id demo_node)
 \<and> session_step Off (On (nd_id demo_node))"
proof -
  have "lc_step demo_js (demo_manager, None) (demo_connected, None)"
    using do_connect [of demo_js demo_manager None demo_connect undefined "''n1''" "''smart''"] demo_connected(1)
    by (auto simp: pending_of_def)
  note step = lifecycle_refines_session [OF demo_initial rtranclp.rtrancl_refl this]
  have "session_of (view demo_manager) = Off" "session_of (view demo_connected) = On (nd_id demo_node)"
    using demo_facts(3) demo_connected(2,3) by (simp_all add: session_of_def)
  with step show ?thesis by simp
qed

end
