(* ===== verification/Monitor.thy ===== *)
theory Monitor
  imports Lifecycle_Connect
begin

text \<open>
  \<^verbatim>\<open>health/monitor.rs\<close>: the supervisor of a live connection.  Its inputs are a list, one
  entry per round of the \<^verbatim>\<open>select!\<close>: what the rest of the service did to the manager since the
  last round, whether the task was cancelled, and the answers of the surroundings.  A list
  that ends leaves the supervisor waiting for its next tick.
\<close>

datatype phase = Finished | NeedRecovery

record 'r monitor_input =
  mi_others :: "'r conn_manager \<Rightarrow> 'r conn_manager"
  mi_cancelled :: bool
  mi_health :: health_io
  mi_test :: connect_outcome
  mi_now :: int
  mi_recover :: recover_io

definition refresh_latency :: "'r monitor_input \<Rightarrow> 'r conn_manager \<Rightarrow> 'r conn_manager" where
  "refresh_latency i s =
     (case lc_active s of
        None \<Rightarrow> s
      | Some n \<Rightarrow>
          (case test_node (mi_test i) (mi_now i) (lc_nodes s) (nd_id n) of
             (m, Inr stats) \<Rightarrow> s\<lparr>lc_nodes := m, lc_state := set_latency (mi_now i) (hs_latency_ms stats) (lc_state s)\<rparr>
           | (m, Inl _) \<Rightarrow> s\<lparr>lc_nodes := m\<rparr>))"

text \<open>One round: the end of the phase, or the counters to go on with.\<close>

definition tick :: "'r monitor_input \<Rightarrow> u32 \<Rightarrow> u32 \<Rightarrow> 'r conn_manager \<Rightarrow> 'r conn_manager \<times> (phase + u32 \<times> u32)" where
  "tick i failures ticks s =
     (if mi_cancelled i then (s, Inl Finished)
      else if conn_state_of s \<noteq> Connected then (s, Inl Finished)
      else
        (let ticks = ticks + 1
         in case health_check (mi_health i) (lc_core s) of
              LocalDead \<Rightarrow> (s, Inl NeedRecovery)
            | UplinkDead \<Rightarrow>
                (let failures = failures + 1
                 in if 3 \<le> failures then (s, Inl NeedRecovery) else (s, Inr (failures, ticks)))
            | Healthy \<Rightarrow> (if ticks mod 5 = 0 then refresh_latency i s else s, Inr (0, ticks))))"

text \<open>A phase: the manager, and how the phase ended with the inputs left, if it ended.\<close>

fun tick_phase ::
  "'r monitor_input list \<Rightarrow> u32 \<Rightarrow> u32 \<Rightarrow> 'r conn_manager \<Rightarrow> 'r conn_manager \<times> (phase \<times> 'r monitor_input list) option" where
  "tick_phase [] failures ticks s = (s, None)"
| "tick_phase (i # rest) failures ticks s =
     (case tick i failures ticks (mi_others i s) of
        (s, Inl p) \<Rightarrow> (s, Some (p, rest))
      | (s, Inr (failures, ticks)) \<Rightarrow> tick_phase rest failures ticks s)"

lemma tick_phase_consumes:
  "tick_phase is failures ticks s = (t, Some (p, rest)) \<Longrightarrow> length rest < length is"
  by (induction "is" arbitrary: failures ticks s) (fastforce split: prod.splits sum.splits)+

text \<open>The supervisor; the recovery of a round that asks for one uses that round's answers.\<close>

function supervise :: "lc_json \<Rightarrow> 'r monitor_input list \<Rightarrow> 'r conn_manager \<Rightarrow> 'r conn_manager" where
  "supervise js is s =
     (case tick_phase is 0 0 s of
        (s, None) \<Rightarrow> s
      | (s, Some (Finished, _)) \<Rightarrow> s
      | (s, Some (NeedRecovery, rest)) \<Rightarrow>
          (let io = mi_recover (is ! (length is - length rest - 1));
               s = recover js io s
           in if conn_state_of s \<noteq> Connected then s else supervise js rest s))"
  by pat_completeness auto
termination
  by (relation "measure (\<lambda>(js, is, s). length is)") (auto dest!: tick_phase_consumes [OF sym])

declare supervise.simps [simp del]

section \<open>When it asks for a recovery\<close>

text \<open>The results of the health checks a phase makes, in order.\<close>

fun observed :: "'r monitor_input list \<Rightarrow> u32 \<Rightarrow> u32 \<Rightarrow> 'r conn_manager \<Rightarrow> core_health list" where
  "observed [] failures ticks s = []"
| "observed (i # rest) failures ticks s =
     (if mi_cancelled i \<or> conn_state_of (mi_others i s) \<noteq> Connected then []
      else health_check (mi_health i) (lc_core (mi_others i s)) #
        (case tick i failures ticks (mi_others i s) of
           (s, Inl p) \<Rightarrow> []
         | (s, Inr (failures, ticks)) \<Rightarrow> observed rest failures ticks s))"

text \<open>Dead local inbound, or the third dead uplink with no healthy answer between.\<close>

definition strikes :: "core_health list \<Rightarrow> nat" where
  "strikes hs = length (takeWhile (\<lambda>h. h = UplinkDead) (rev hs))"

definition alarm :: "core_health list \<Rightarrow> bool" where
  "alarm hs \<longleftrightarrow> hs \<noteq> [] \<and> (last hs = LocalDead \<or> 3 \<le> strikes hs)"

lemma strikes_snoc:
  "strikes (hs @ [h]) = (if h = UplinkDead then Suc (strikes hs) else 0)"
  by (simp add: strikes_def)

lemma strikes_Nil [simp]: "strikes [] = 0"
  by (simp add: strikes_def)

lemma tick_alarm:
  assumes "unat failures = strikes hs" and "strikes hs < 3"
    and "\<not> mi_cancelled i" and "conn_state_of s = Connected"
  defines "h \<equiv> health_check (mi_health i) (lc_core s)"
  shows "case snd (tick i failures ticks s) of
       Inl p \<Rightarrow> p = NeedRecovery \<and> alarm (hs @ [h])
     | Inr (f, t) \<Rightarrow> unat f = strikes (hs @ [h]) \<and> strikes (hs @ [h]) < 3 \<and> \<not> alarm (hs @ [h])"
proof -
  have f: "unat (failures + 1) = Suc (strikes hs)"
    using assms(1,2) by (simp add: unat_word_ariths)
  have le: "3 \<le> failures + 1 \<longleftrightarrow> 3 \<le> Suc (strikes hs)"
    using f by (simp add: word_le_nat_alt)
  show ?thesis
    using assms(3,4) f le
    by (cases h) (auto simp: tick_def h_def Let_def strikes_snoc alarm_def)
qed

lemma phase_alarm:
  assumes "unat failures = strikes hs" and "strikes hs < 3"
  shows "case snd (tick_phase is failures ticks s) of
       Some (NeedRecovery, rest) \<Rightarrow> alarm (hs @ observed is failures ticks s)
          \<and> (\<forall>n. 0 < n \<and> n < length (observed is failures ticks s) \<longrightarrow> \<not> alarm (hs @ take n (observed is failures ticks s)))
          \<and> observed is failures ticks s \<noteq> []
     | _ \<Rightarrow> (\<forall>n. 0 < n \<and> n \<le> length (observed is failures ticks s) \<longrightarrow> \<not> alarm (hs @ take n (observed is failures ticks s)))"
  using assms
proof (induction "is" arbitrary: failures ticks s hs)
  case Nil
  then show ?case by simp
next
  case (Cons i rest)
  let ?s = "mi_others i s"
  show ?case
  proof (cases "mi_cancelled i \<or> conn_state_of ?s \<noteq> Connected")
    case True
    then show ?thesis by (auto simp: tick_def)
  next
    case False
    let ?h = "health_check (mi_health i) (lc_core ?s)"
    obtain t r where t: "tick i failures ticks ?s = (t, r)" by fastforce
    from tick_alarm [OF Cons.prems, of i ?s ticks] False t
    have step: "case r of Inl p \<Rightarrow> p = NeedRecovery \<and> alarm (hs @ [?h])
     | Inr (f, k) \<Rightarrow> unat f = strikes (hs @ [?h]) \<and> strikes (hs @ [?h]) < 3 \<and> \<not> alarm (hs @ [?h])" by simp
    show ?thesis
    proof (cases r)
      case (Inl p)
      with step False t show ?thesis by simp
    next
      case (Inr fk)
      then obtain f k where fk: "r = Inr (f, k)" by (cases fk) auto
      with step have st: "unat f = strikes (hs @ [?h])" "strikes (hs @ [?h]) < 3" "\<not> alarm (hs @ [?h])" by simp_all
      let ?o = "observed rest f k t"
      have obs: "observed (i # rest) failures ticks s = ?h # ?o" using False t fk by simp
      have phase: "tick_phase (i # rest) failures ticks s = tick_phase rest f k t" using t fk by simp
      have shift: "(\<forall>n. 0 < n \<and> R n (length (?h # ?o)) \<longrightarrow> \<not> alarm (hs @ take n (?h # ?o)))"
        if "\<forall>n. 0 < n \<and> R n (length ?o) \<longrightarrow> \<not> alarm ((hs @ [?h]) @ take n ?o)" "\<And>n m. R (Suc n) (Suc m) = R n m" for R
      proof (intro allI impI)
        fix n assume n: "0 < n \<and> R n (length (?h # ?o))"
        then obtain k' where k': "n = Suc k'" by (cases n) auto
        show "\<not> alarm (hs @ take n (?h # ?o))"
          using that n k' st(3) by (cases "k' = 0") auto
      qed
      from Cons.IH [OF st(1,2), of k t] show ?thesis
        unfolding phase obs
        using shift [of "(<)"] shift [of "(\<le>)"]
        by (auto split: option.splits prod.splits phase.splits)
    qed
  qed
qed

text \<open>
  C18. The supervisor asks for a recovery exactly when the health checks it has made since
  the connection was last good call for one: at the first check that finds the local core
  dead, or at the third check in a row that finds the uplink dead.  It never asks earlier,
  however the rest of the service and the cancellation interleave with its ticks.
\<close>

theorem recovery_asked_exactly:
  "let hs = observed is 0 0 s in
   case snd (tick_phase is 0 0 s) of
     Some (NeedRecovery, rest) \<Rightarrow> alarm hs \<and> (\<forall>n < length hs. \<not> alarm (take n hs))
   | _ \<Rightarrow> (\<forall>n \<le> length hs. \<not> alarm (take n hs))"
proof -
  have nil: "\<not> alarm []" by (simp add: alarm_def)
  have pos: "\<not> alarm (take n hs)" if "\<And>m. 0 < m \<Longrightarrow> m = n \<Longrightarrow> \<not> alarm (take m hs)" for n hs
    using that nil by (cases n) auto
  show ?thesis
    using phase_alarm [of 0 "[]" "is" 0 s] pos
    by (simp add: Let_def split: option.splits prod.splits phase.splits) blast+
qed

definition demo_live :: "unit conn_manager" where
  "demo_live = demo_manager\<lparr>lc_state := new_store\<lparr>ss_state := Connected\<rparr>, lc_core := core_new\<lparr>ca_status := CORE_RUNNING\<rparr>\<rparr>"

definition demo_dead_uplink :: "unit monitor_input" where
  "demo_dead_uplink = \<lparr>mi_others = id, mi_cancelled = False, mi_health = \<lparr>hi_local = True, hi_tunnel = None\<rparr>,
     mi_test = Connect_timeout, mi_now = 0, mi_recover = demo_recover\<rparr>"

theorem recovery_asked_exactly_witness:
  "alarm (observed [demo_dead_uplink, demo_dead_uplink, demo_dead_uplink] 0 0 demo_live)"
proof -
  have check: "health_check (mi_health demo_dead_uplink) (lc_core demo_live) = UplinkDead"
    by (simp add: health_check_def demo_dead_uplink_def demo_live_def tunnel_probe_def)
  have quiet: "\<not> mi_cancelled demo_dead_uplink" "mi_others demo_dead_uplink = id" "conn_state_of demo_live = Connected"
    by (simp_all add: demo_dead_uplink_def demo_live_def)
  have "tick_phase [demo_dead_uplink, demo_dead_uplink, demo_dead_uplink] 0 0 demo_live = (demo_live, Some (NeedRecovery, []))"
  proof -
    have "\<not> (3 :: u32) \<le> 1" "\<not> (3 :: u32) \<le> 2" by (simp_all add: word_le_nat_alt)
    with check quiet show ?thesis by (simp add: tick_def)
  qed
  with recovery_asked_exactly [of "[demo_dead_uplink, demo_dead_uplink, demo_dead_uplink]" demo_live]
  show ?thesis by (simp add: Let_def)
qed

end
