(* ===== verification/Dns_Wire.thy ===== *)
theory Dns_Wire
  imports Common
begin

text \<open>
  \<^verbatim>\<open>dns/wire.rs\<close>: the DNS query builder and the response parser with compressed
  names.  Buffer accesses are checked: a result \<open>None\<close> of the outer option is a panic, the
  inner option is the \<^verbatim>\<open>Option\<close> of the code.
\<close>

unbundle bit_operations_syntax

definition TYPE_A :: u16 where "TYPE_A = 1"
definition TYPE_CNAME :: u16 where "TYPE_CNAME = 5"
definition TYPE_AAAA :: u16 where "TYPE_AAAA = 28"

record dns_record =
  dr_name :: string
  dr_qtype :: u16
  dr_ttl :: u32
  dr_ip :: "ip_addr option"

definition name_labels :: "string \<Rightarrow> string list" where
  "name_labels name = filter (\<lambda>l. l \<noteq> []) (split_on (CHR ''.'') name)"

definition encode_label :: "string \<Rightarrow> u8 list" where
  "encode_label l = of_nat (length l) # as_bytes l"

definition build_query :: "string \<Rightarrow> u16 \<Rightarrow> u16 \<Rightarrow> u8 list" where
  "build_query name qtype i =
     to_be_bytes 2 i @ to_be_bytes 2 (0x0100 :: u16) @ to_be_bytes 2 (1 :: u16)
     @ to_be_bytes 2 (0 :: u16) @ to_be_bytes 2 (0 :: u16) @ to_be_bytes 2 (0 :: u16)
     @ concat (map encode_label (name_labels name)) @ [0]
     @ to_be_bytes 2 qtype @ to_be_bytes 2 (1 :: u16)"

fun str_join :: "string \<Rightarrow> string list \<Rightarrow> string" where
  "str_join sep [] = []"
| "str_join sep [x] = x"
| "str_join sep (x # y # ys) = x @ sep @ str_join sep (y # ys)"

text \<open>
  The loop of \<^verbatim>\<open>read_name\<close>.  A label moves the offset forward within the buffer and a
  compression pointer costs one of at most sixteen hops, so the loop ends.
\<close>

function name_loop ::
  "u8 list \<Rightarrow> nat \<Rightarrow> string list \<Rightarrow> bool \<Rightarrow> nat \<Rightarrow> nat \<Rightarrow> (string \<times> nat) option option" where
  "name_loop buf offset labels jumped next_after hops =
     (if length buf \<le> offset then Some None
      else case buf_at buf offset of
        None \<Rightarrow> None
      | Some len \<Rightarrow>
          if len = 0 then
            Some (Some (str_join ''.'' labels, if \<not> jumped then offset + 1 else next_after))
          else if len AND 0xC0 = 0xC0 then
            (if length buf \<le> offset + 1 then Some None
             else case buf_at buf (offset + 1) of
               None \<Rightarrow> None
             | Some lo \<Rightarrow>
                 (let ptr = unat (from_be_bytes [len AND 0x3F, lo] :: u16);
                      next_after = (if \<not> jumped then offset + 2 else next_after)
                  in if 16 < hops + 1 then Some None
                     else name_loop buf ptr labels True next_after (hops + 1)))
          else
            (let offset = offset + 1; stop = offset + unat len
             in if length buf < stop then Some None
                else case buf_slice buf offset stop of
                  None \<Rightarrow> None
                | Some bytes \<Rightarrow>
                    name_loop buf stop (labels @ [utf8_lossy bytes]) jumped
                      (if \<not> jumped then stop else next_after) hops))"
  by pat_completeness auto
termination
  by (relation "measures [\<lambda>(buf, offset, labels, jumped, next_after, hops). 17 - hops,
      \<lambda>(buf, offset, labels, jumped, next_after, hops). length buf - offset]") auto

declare name_loop.simps [simp del]

definition read_name :: "u8 list \<Rightarrow> nat \<Rightarrow> (string \<times> nat) option option" where
  "read_name buf offset = name_loop buf offset [] False offset 0"

primrec skip_questions :: "u8 list \<Rightarrow> nat \<Rightarrow> nat \<Rightarrow> nat option option" where
  "skip_questions buf 0 offset = Some (Some offset)"
| "skip_questions buf (Suc n) offset =
     (case read_name buf offset of
        None \<Rightarrow> None
      | Some None \<Rightarrow> Some None
      | Some (Some (_, nxt)) \<Rightarrow> skip_questions buf n (nxt + 4))"

definition record_ip :: "u16 \<Rightarrow> u8 list \<Rightarrow> ip_addr option" where
  "record_ip qtype rdata =
     (if qtype = TYPE_A \<and> length rdata = 4 then
        Some (V4 (ipv4_new (rdata ! 0) (rdata ! 1) (rdata ! 2) (rdata ! 3)))
      else if qtype = TYPE_AAAA \<and> length rdata = 16 then Some (V6 (from_be_bytes rdata))
      else None)"

primrec read_answers :: "u8 list \<Rightarrow> nat \<Rightarrow> nat \<Rightarrow> dns_record list option option" where
  "read_answers buf 0 offset = Some (Some [])"
| "read_answers buf (Suc n) offset =
     (case read_name buf offset of
        None \<Rightarrow> None
      | Some None \<Rightarrow> Some None
      | Some (Some (name, offset)) \<Rightarrow>
          if length buf < offset + 10 then Some (Some [])
          else
            (case (buf_slice buf offset (offset + 2), buf_slice buf (offset + 4) (offset + 8),
                   buf_slice buf (offset + 8) (offset + 10)) of
               (Some ty, Some tt, Some rl) \<Rightarrow>
                 (let qtype = from_be_bytes ty; ttl = from_be_bytes tt;
                      rdlen = unat (from_be_bytes rl :: u16); offset = offset + 10
                  in if length buf < offset + rdlen then Some (Some [])
                     else case buf_slice buf offset (offset + rdlen) of
                       None \<Rightarrow> None
                     | Some rdata \<Rightarrow>
                         (case read_answers buf n (offset + rdlen) of
                            Some (Some rs) \<Rightarrow>
                              Some (Some (\<lparr>dr_name = name, dr_qtype = qtype, dr_ttl = ttl,
                                           dr_ip = record_ip qtype rdata\<rparr> # rs))
                          | r \<Rightarrow> r))
             | _ \<Rightarrow> None))"

definition parse_response :: "u8 list \<Rightarrow> dns_record list option option" where
  "parse_response buf =
     (if length buf < 12 then Some None
      else case (buf_at buf 2, buf_slice buf 4 6, buf_slice buf 6 8) of
        (Some flags, Some qd, Some an) \<Rightarrow>
          if flags AND 0x80 = 0 then Some None
          else case skip_questions buf (unat (from_be_bytes qd :: u16)) 12 of
            None \<Rightarrow> None
          | Some None \<Rightarrow> Some None
          | Some (Some offset) \<Rightarrow> read_answers buf (unat (from_be_bytes an :: u16)) offset
      | _ \<Rightarrow> None)"

section \<open>No panic, and progress\<close>

text \<open>
  The end of a name: the one fixed at the first pointer, or else a point after the start and
  within the buffer.
\<close>

fun name_end_ok :: "u8 list \<Rightarrow> nat \<Rightarrow> bool \<Rightarrow> nat \<Rightarrow> (string \<times> nat) option \<Rightarrow> bool" where
  "name_end_ok buf offset jumped nxt None = True"
| "name_end_ok buf offset True nxt (Some (s, e)) = (e = nxt)"
| "name_end_ok buf offset False nxt (Some (s, e)) = (offset < e \<and> e \<le> length buf)"

lemma name_loop_ok:
  "\<exists>r. name_loop buf offset labels jumped nxt hops = Some r \<and> name_end_ok buf offset jumped nxt r"
proof (induction buf offset labels jumped nxt hops rule: name_loop.induct)
  case (1 buf offset labels jumped nxt hops)
  show ?case
  proof (cases "length buf \<le> offset")
    case True
    then show ?thesis by (subst name_loop.simps) simp
  next
    case False
    then have len: "buf_at buf offset = Some (buf ! offset)" by simp
    let ?len = "buf ! offset"
    consider (zero) "?len = 0" | (ptr) "?len \<noteq> 0" "?len AND 0xC0 = 0xC0"
      | (label) "?len \<noteq> 0" "?len AND 0xC0 \<noteq> 0xC0" by blast
    then show ?thesis
    proof cases
      case zero
      with False show ?thesis by (subst name_loop.simps) auto
    next
      case ptr
      show ?thesis
      proof (cases "length buf \<le> offset + 1 \<or> 16 < hops + 1")
        case True
        with False ptr show ?thesis by (subst name_loop.simps) (auto simp: Let_def)
      next
        case nj: False
        then have lo: "buf_at buf (offset + 1) = Some (buf ! (offset + 1))" by simp
        from 1(1) [OF False len ptr(1) ptr(2) _ lo refl refl] nj
        obtain r where r: "name_loop buf (unat (from_be_bytes [?len AND 0x3F, buf ! (offset + 1)] :: u16)) labels True
            (if \<not> jumped then offset + 2 else nxt) (hops + 1) = Some r"
          "name_end_ok buf (unat (from_be_bytes [?len AND 0x3F, buf ! (offset + 1)] :: u16)) True
             (if \<not> jumped then offset + 2 else nxt) r"
          by auto
        with False nj have "name_end_ok buf offset jumped nxt r"
          by (cases r; cases jumped) auto
        with False ptr nj len lo r(1) show ?thesis
          by (subst name_loop.simps) (simp add: Let_def)
      qed
    next
      case label
      let ?stop = "offset + 1 + unat ?len"
      show ?thesis
      proof (cases "length buf < ?stop")
        case True
        with False label show ?thesis by (subst name_loop.simps) (auto simp: Let_def)
      next
        case in_range: False
        then have sl: "buf_slice buf (offset + 1) ?stop = Some (take (unat ?len) (drop (offset + 1) buf))" by simp
        from 1(2) [OF False len label(1) label(2) refl refl in_range sl]
        obtain r where r: "name_loop buf ?stop (labels @ [utf8_lossy (take (unat ?len) (drop (offset + 1) buf))]) jumped
            (if \<not> jumped then ?stop else nxt) hops = Some r"
          "name_end_ok buf ?stop jumped (if \<not> jumped then ?stop else nxt) r"
          by blast
        then have "name_end_ok buf offset jumped nxt r"
          by (cases r; cases jumped) auto
        with False label in_range len sl r(1) show ?thesis
          by (subst name_loop.simps) (cases jumped; simp add: Let_def)
      qed
    qed
  qed
qed

lemma read_name_ok: "\<exists>r. read_name buf offset = Some r \<and> name_end_ok buf offset False 0 r"
proof -
  from name_loop_ok [of buf offset "[]" False offset 0]
  obtain r where "read_name buf offset = Some r" "name_end_ok buf offset False offset r"
    by (auto simp: read_name_def)
  then show ?thesis by (cases r) auto
qed

lemma skip_questions_ok: "skip_questions buf n offset \<noteq> None"
proof (induction n arbitrary: offset)
  case (Suc n)
  from read_name_ok [of buf offset] Suc show ?case by (auto split: option.splits)
qed simp

lemma read_answers_ok:
  "\<exists>r. read_answers buf n offset = Some r
     \<and> (case r of None \<Rightarrow> True | Some rs \<Rightarrow> length rs \<le> n \<and> offset + 11 * length rs \<le> max offset (length buf))"
proof (induction n arbitrary: offset)
  case 0
  then show ?case by simp
next
  case (Suc n)
  obtain r where r: "read_name buf offset = Some r" "name_end_ok buf offset False 0 r"
    using read_name_ok by blast
  show ?case
  proof (cases r)
    case None
    with r show ?thesis by simp
  next
    case (Some ne)
    obtain name e where ne: "ne = (name, e)" by force
    show ?thesis
    proof (cases "length buf < e + 10")
      case True
      with r Some ne show ?thesis by simp
    next
      case in_head: False
      let ?rd = "unat (from_be_bytes (take 2 (drop (e + 8) buf)) :: u16)"
      show ?thesis
      proof (cases "length buf < e + 10 + ?rd")
        case True
        with r Some ne in_head show ?thesis by (simp add: Let_def)
      next
        case False
        obtain r' where r': "read_answers buf n (e + 10 + ?rd) = Some r'"
          "case r' of None \<Rightarrow> True | Some rs \<Rightarrow> length rs \<le> n
             \<and> e + 10 + ?rd + 11 * length rs \<le> max (e + 10 + ?rd) (length buf)"
          using Suc by blast
        with r Some ne in_head False show ?thesis
          by (cases r') (auto simp: Let_def)
      qed
    qed
  qed
qed

text \<open>
  C16. The response parser is total on arbitrary bytes: no index or slice is ever out of
  range and no compression loop runs for ever.  What it returns is bounded by the message:
  at most the announced number of answers, and at least eleven bytes for each.
\<close>

theorem parse_response_total:
  "\<exists>r. parse_response buf = Some r
     \<and> (case r of None \<Rightarrow> True
        | Some rs \<Rightarrow> 12 \<le> length buf \<and> 11 * length rs \<le> length buf
            \<and> length rs \<le> unat (from_be_bytes (take 2 (drop 6 buf)) :: u16))"
proof (cases "length buf < 12 \<or> buf ! 2 AND 0x80 = 0")
  case True
  then show ?thesis by (auto simp: parse_response_def)
next
  case False
  obtain s where s: "skip_questions buf (unat (from_be_bytes (take 2 (drop 4 buf)) :: u16)) 12 = Some s"
    using skip_questions_ok by blast
  show ?thesis
  proof (cases s)
    case None
    with False s show ?thesis by (simp add: parse_response_def)
  next
    case (Some offset)
    from read_answers_ok [of buf "unat (from_be_bytes (take 2 (drop 6 buf)) :: u16)" offset]
    obtain r where "read_answers buf (unat (from_be_bytes (take 2 (drop 6 buf)) :: u16)) offset = Some r"
      "case r of None \<Rightarrow> True | Some rs \<Rightarrow> length rs \<le> unat (from_be_bytes (take 2 (drop 6 buf)) :: u16)
         \<and> offset + 11 * length rs \<le> max offset (length buf)" by blast
    with False s Some show ?thesis
      by (auto simp: parse_response_def split: option.splits)
  qed
qed

section \<open>Round trip\<close>

definition plain_label :: "string \<Rightarrow> bool" where
  "plain_label l \<longleftrightarrow> l \<noteq> [] \<and> length l < 64 \<and> utf8_valid (as_bytes l)"

lemma not_pointer:
  assumes "unat (x :: u8) < 64"
  shows "x AND 0xC0 \<noteq> 0xC0"
proof
  assume h: "x AND 0xC0 = 0xC0"
  have "bit (0xC0 :: u8) 7" by simp
  then have "bit (x AND 0xC0) 7" by (simp only: h)
  then have "bit x 7" by (simp add: bit_and_iff)
  then have "bit (unat x) 7" by (simp add: bit_unsigned_iff)
  then have "odd (unat x div 2 ^ 7)" by (simp add: bit_iff_odd)
  with assms show False by simp
qed

lemma label_length_byte:
  assumes "plain_label l"
  shows "unat (of_nat (length l) :: u8) = length l"
  using assms by (simp add: plain_label_def unsigned_of_nat take_bit_nat_eq_self)

lemma utf8_lossy_as_bytes: "utf8_valid (as_bytes l) \<Longrightarrow> utf8_lossy (as_bytes l) = l"
  by (simp add: utf8_lossy_valid as_bytes_def comp_def)

lemma name_loop_labels:
  assumes "\<forall>l \<in> set ls. plain_label l"
  shows "name_loop (pre @ concat (map encode_label ls) @ 0 # post) (length pre) acc jumped nxt hops =
     Some (Some (str_join ''.'' (acc @ ls),
       if \<not> jumped then length pre + length (concat (map encode_label ls)) + 1 else nxt))"
  using assms
proof (induction ls arbitrary: pre acc nxt)
  case Nil
  show ?case by (subst name_loop.simps) simp
next
  case (Cons l ls)
  then have l: "plain_label l" by simp
  let ?rest = "concat (map encode_label ls) @ 0 # post"
  let ?buf = "pre @ concat (map encode_label (l # ls)) @ 0 # post"
  let ?pre = "pre @ encode_label l"
  have buf: "?buf = ?pre @ ?rest" by simp
  have len: "buf_at ?buf (length pre) = Some (of_nat (length l))"
    by (simp add: buf_at_def encode_label_def nth_append)
  note u = label_length_byte [OF l]
  have nz: "of_nat (length l) \<noteq> (0 :: u8)" "of_nat (length l) AND 0xC0 \<noteq> (0xC0 :: u8)"
    using u l not_pointer [of "of_nat (length l)"] by (auto simp: plain_label_def)
  have sl: "buf_slice ?buf (length pre + 1) (length pre + 1 + length l) = Some (as_bytes l)"
    by (simp add: encode_label_def)
  have IH: "name_loop (?pre @ ?rest) (length ?pre) (acc @ [l]) jumped n hops =
      Some (Some (str_join ''.'' ((acc @ [l]) @ ls),
        if \<not> jumped then length ?pre + length (concat (map encode_label ls)) + 1 else n))" for n
    using Cons.prems by (intro Cons.IH) simp
  have pre: "length ?pre = length pre + 1 + length l" by (simp add: encode_label_def)
  have "\<not> length ?buf \<le> length pre" "\<not> length ?buf < length pre + 1 + length l"
    by (simp_all add: encode_label_def)
  with len nz sl u l IH [unfolded pre, folded buf] show ?case
    by (subst name_loop.simps)
      (simp add: Let_def plain_label_def utf8_lossy_as_bytes encode_label_def)
qed

text \<open>
  A question the builder writes is read back: for a name whose labels are valid text
  of at most 63 bytes, reading a name at offset 12 of the query gives the labels joined by
  dots and ends at the four bytes of type and class.
\<close>

theorem query_name_roundtrip:
  assumes "\<forall>l \<in> set (name_labels name). plain_label l"
  shows "read_name (build_query name qtype i) 12 =
     Some (Some (str_join ''.'' (name_labels name), length (build_query name qtype i) - 4))"
proof -
  let ?pre = "to_be_bytes 2 i @ to_be_bytes 2 (0x0100 :: u16) @ to_be_bytes 2 (1 :: u16)
     @ to_be_bytes 2 (0 :: u16) @ to_be_bytes 2 (0 :: u16) @ to_be_bytes 2 (0 :: u16)"
  let ?post = "to_be_bytes 2 qtype @ to_be_bytes 2 (1 :: u16)"
  have "build_query name qtype i = ?pre @ concat (map encode_label (name_labels name)) @ 0 # ?post"
    by (simp add: build_query_def)
  moreover have "length ?pre = 12" by simp
  ultimately show ?thesis
    using name_loop_labels [OF assms, of ?pre ?post "[]" False 12 0] by (simp add: read_name_def)
qed

theorem query_name_roundtrip_witness:
  "read_name (build_query ''example.com'' TYPE_A 7) 12 =
     Some (Some (''example.com'', length (build_query ''example.com'' TYPE_A 7) - 4))"
proof -
  have "name_labels ''example.com'' = [''example'', ''com'']" by code_simp
  moreover have "plain_label ''example'' \<and> plain_label ''com''"
    by (simp add: plain_label_def, intro conjI utf8_valid_ascii) (simp_all add: as_bytes_def unat_byte_of)
  ultimately show ?thesis using query_name_roundtrip [of "''example.com''" TYPE_A 7] by simp
qed

text \<open>
  The message a conforming server sends: the question echoed, and every answer naming it
  through a compression pointer to offset 12.
\<close>

definition answer_type :: "ip_addr \<Rightarrow> u16" where
  "answer_type ip = (case ip of V4 _ \<Rightarrow> TYPE_A | V6 _ \<Rightarrow> TYPE_AAAA)"

definition answer_data :: "ip_addr \<Rightarrow> u8 list" where
  "answer_data ip = (case ip of V4 a \<Rightarrow> v4_octets a | V6 a \<Rightarrow> v6_octets a)"

definition encode_answer :: "u32 \<times> ip_addr \<Rightarrow> u8 list" where
  "encode_answer a =
     (case a of (ttl, ip) \<Rightarrow>
        [0xC0, 0x0C] @ to_be_bytes 2 (answer_type ip) @ to_be_bytes 2 (1 :: u16) @ to_be_bytes 4 ttl
        @ to_be_bytes 2 (of_nat (length (answer_data ip)) :: u16) @ answer_data ip)"

definition response_head :: "u16 \<Rightarrow> nat \<Rightarrow> u8 list" where
  "response_head i n =
     to_be_bytes 2 i @ [0x81, 0x80] @ to_be_bytes 2 (1 :: u16) @ to_be_bytes 2 (of_nat n :: u16)
     @ to_be_bytes 2 (0 :: u16) @ to_be_bytes 2 (0 :: u16)"

definition encode_response :: "u16 \<Rightarrow> string \<Rightarrow> u16 \<Rightarrow> (u32 \<times> ip_addr) list \<Rightarrow> u8 list" where
  "encode_response i name qtype answers =
     response_head i (length answers)
     @ concat (map encode_label (name_labels name)) @ 0
     # to_be_bytes 2 qtype @ to_be_bytes 2 (1 :: u16) @ concat (map encode_answer answers)"

definition answer_record :: "string \<Rightarrow> u32 \<times> ip_addr \<Rightarrow> dns_record" where
  "answer_record name a =
     (case a of (ttl, ip) \<Rightarrow>
        \<lparr>dr_name = name, dr_qtype = answer_type ip, dr_ttl = ttl, dr_ip = Some ip\<rparr>)"

lemma length_response_head [simp]: "length (response_head i n) = 12"
  by (simp add: response_head_def)

lemma to_be_bytes_two: "to_be_bytes 2 (w :: u16) = [ucast (drop_bit 8 w), ucast w]"
  by (simp add: to_be_bytes_def upt_rec)

lemma pointer_to_question: "unat (from_be_bytes [0xC0 AND 0x3F, 0x0C] :: u16) = 12"
  by (simp add: from_be_bytes_def)

lemma record_ip_answer: "record_ip (answer_type ip) (answer_data ip) = Some ip"
proof (cases ip)
  case (V4 a)
  have "ipv4_new (v4_octets a ! 0) (v4_octets a ! 1) (v4_octets a ! 2) (v4_octets a ! 3) = a"
  proof -
    have "v4_octets a = [v4_octets a ! 0, v4_octets a ! 1, v4_octets a ! 2, v4_octets a ! 3]"
      by (rule nth_equalityI) (auto simp: nth_Cons' less_Suc_eq numeral_eq_Suc)
    then show ?thesis by (metis from_be_bytes_v4_octets ipv4_new_def)
  qed
  with V4 show ?thesis by (simp add: record_ip_def answer_type_def answer_data_def)
next
  case (V6 a)
  then show ?thesis
    by (simp add: record_ip_def answer_type_def answer_data_def TYPE_A_def TYPE_AAAA_def
        from_be_bytes_v6_octets)
qed

lemma length_answer_data: "length (answer_data ip) \<le> 16"
  by (cases ip) (simp_all add: answer_data_def)

lemma read_name_pointer:
  assumes "\<forall>l \<in> set ls. plain_label l" and "length head = 12"
    and buf: "buf = head @ concat (map encode_label ls) @ 0 # rest"
    and at: "offset + 1 < length buf" "buf ! offset = 0xC0" "buf ! (offset + 1) = 0x0C"
  shows "read_name buf offset = Some (Some (str_join ''.'' ls, offset + 2))"
proof -
  have jump: "name_loop buf 12 [] True (offset + 2) (0 + 1) = Some (Some (str_join ''.'' ls, offset + 2))"
    using name_loop_labels [OF assms(1), of head rest "[]" True "offset + 2" "0 + 1"] assms(2)
    unfolding buf by simp
  have "name_loop buf offset [] False offset 0 = name_loop buf 12 [] True (offset + 2) (0 + 1)"
    using at pointer_to_question by (subst name_loop.simps) (simp add: Let_def)
  with jump show ?thesis by (simp add: read_name_def)
qed

lemma read_answers_encoded:
  assumes "\<forall>l \<in> set ls. plain_label l" and "length head = 12"
    and "pre = head @ concat (map encode_label ls) @ 0 # mid"
  shows "read_answers (pre @ concat (map encode_answer as)) (length as) (length pre)
      = Some (Some (map (answer_record (str_join ''.'' ls)) as))"
  using assms(3)
proof (induction as arbitrary: pre mid)
  case Nil
  then show ?case by simp
next
  case (Cons a as)
  obtain ttl ip where a: "a = (ttl, ip)" by force
  let ?tail = "concat (map encode_answer as)"
  let ?buf = "pre @ concat (map encode_answer (a # as))"
  let ?o = "length pre + 2"
  have rec: "encode_answer a = 0xC0 # 0x0C # to_be_bytes 2 (answer_type ip) @ to_be_bytes 2 (1 :: u16)
      @ to_be_bytes 4 ttl @ to_be_bytes 2 (of_nat (length (answer_data ip)) :: u16) @ answer_data ip"
    by (simp add: encode_answer_def a)
  have name: "read_name ?buf (length pre) = Some (Some (str_join ''.'' ls, ?o))"
    by (rule read_name_pointer [OF assms(1,2), where rest = "mid @ concat (map encode_answer (a # as))"])
      (simp_all add: Cons.prems rec nth_append)
  have len: "length (encode_answer a) = 12 + length (answer_data ip)" by (simp add: rec)
  have rl: "unat (of_nat (length (answer_data ip)) :: u16) = length (answer_data ip)"
    using length_answer_data [of ip] by (simp add: unsigned_of_nat take_bit_nat_eq_self)
  have parts:
    "buf_slice ?buf ?o (?o + 2) = Some (to_be_bytes 2 (answer_type ip))"
    "buf_slice ?buf (?o + 4) (?o + 8) = Some (to_be_bytes 4 ttl)"
    "buf_slice ?buf (?o + 8) (?o + 10) = Some (to_be_bytes 2 (of_nat (length (answer_data ip)) :: u16))"
    "buf_slice ?buf (?o + 10) (?o + 10 + length (answer_data ip)) = Some (answer_data ip)"
    by (simp_all add: rec)
  have IH: "read_answers ((pre @ encode_answer a) @ ?tail) (length as) (length (pre @ encode_answer a))
      = Some (Some (map (answer_record (str_join ''.'' ls)) as))"
    by (rule Cons.IH [where mid = "mid @ encode_answer a"]) (simp add: Cons.prems)
  have nxt: "length (pre @ encode_answer a) = ?o + 10 + length (answer_data ip)" by (simp add: len)
  have rest: "read_answers ?buf (length as) (?o + 10 + length (answer_data ip))
      = Some (Some (map (answer_record (str_join ''.'' ls)) as))"
    using IH unfolding nxt by simp
  have "\<not> length ?buf < ?o + 10" "\<not> length ?buf < ?o + 10 + length (answer_data ip)" by (simp_all add: len)
  with name parts rest rl show ?case
    by (simp add: Let_def from_be_bytes_to_be_bytes record_ip_answer answer_record_def a)
qed

text \<open>
  C31. The parser inverts a conforming server: the answers that the message encodes, A and
  AAAA alike with their lifetimes, are returned in order under the name of the question that
  the compression pointers refer to.
\<close>

theorem response_roundtrip:
  assumes "\<forall>l \<in> set (name_labels name). plain_label l" and "length answers < 65536"
  shows "parse_response (encode_response i name qtype answers) =
     Some (Some (map (answer_record (str_join ''.'' (name_labels name))) answers))"
proof -
  let ?ls = "name_labels name" and ?buf = "encode_response i name qtype answers"
  let ?head = "response_head i (length answers)"
  let ?q = "concat (map encode_label ?ls)"
  let ?mid = "to_be_bytes 2 qtype @ to_be_bytes 2 (1 :: u16)"
  let ?pre = "?head @ ?q @ 0 # ?mid"
  have buf: "?buf = ?pre @ concat (map encode_answer answers)" by (simp add: encode_response_def)
  have q: "read_name ?buf 12 = Some (Some (str_join ''.'' ?ls, 12 + length ?q + 1))"
    using name_loop_labels [OF assms(1), of ?head "?mid @ concat (map encode_answer answers)" "[]" False 12 0]
    by (simp add: read_name_def encode_response_def)
  have an: "unat (of_nat (length answers) :: u16) = length answers"
    using assms(2) by (simp add: unsigned_of_nat take_bit_nat_eq_self)
  have flags: "buf_at ?buf 2 = Some 0x81" "buf_slice ?buf 4 6 = Some (to_be_bytes 2 (1 :: u16))"
    "buf_slice ?buf 6 8 = Some (to_be_bytes 2 (of_nat (length answers) :: u16))"
    by (simp_all add: encode_response_def response_head_def to_be_bytes_two buf_at_def)
  have end_q: "12 + length ?q + 1 + 4 = length ?pre" by simp
  have "skip_questions ?buf (Suc 0) 12 = Some (Some (length ?pre))"
    using q end_q by simp
  moreover have "read_answers ?buf (length answers) (length ?pre)
      = Some (Some (map (answer_record (str_join ''.'' ?ls)) answers))"
    unfolding buf by (rule read_answers_encoded [OF assms(1), where head = ?head and mid = ?mid]) simp_all
  moreover have "12 \<le> length ?buf" by (simp add: encode_response_def)
  ultimately show ?thesis
    using flags an by (simp add: parse_response_def from_be_bytes_to_be_bytes not_less)
qed

theorem response_roundtrip_witness:
  "parse_response (encode_response 7 ''example.com'' TYPE_A [(60, V4 0x01020304)]) =
     Some (Some [\<lparr>dr_name = ''example.com'', dr_qtype = TYPE_A, dr_ttl = 60, dr_ip = Some (V4 0x01020304)\<rparr>])"
proof -
  have "name_labels ''example.com'' = [''example'', ''com'']" by code_simp
  moreover have "plain_label ''example'' \<and> plain_label ''com''"
    by (simp add: plain_label_def, intro conjI utf8_valid_ascii) (simp_all add: as_bytes_def unat_byte_of)
  ultimately show ?thesis
    using response_roundtrip [of "''example.com''" "[(60, V4 0x01020304)]" 7 TYPE_A]
    by (simp add: answer_record_def answer_type_def)
qed

end
