(* ===== verification/Dns_Cache.thy ===== *)
theory Dns_Cache
  imports Common Hash_Map
begin

text \<open>
  \<^verbatim>\<open>dns/cache.rs\<close>: the bounded TTL cache.  The hash map is an association list with
  distinct keys, read in list order where the code iterates over it (\<^verbatim>\<open>min_by_key\<close>
  keeps the first of several minima).  Readings of the monotonic clock are arguments, in
  nanoseconds.
\<close>

record cache_entry =
  ce_ips :: "ip_addr list"
  ce_expire_at :: nat

record dns_cache =
  ch_inner :: "(string \<times> cache_entry) list"
  ch_max_size :: nat
  ch_enabled :: bool

definition secs :: "nat \<Rightarrow> nat" where
  "secs n = n * 1000000000"

definition cache_new :: "bool \<Rightarrow> nat \<Rightarrow> dns_cache" where
  "cache_new enabled max_size = \<lparr>ch_inner = [], ch_max_size = max max_size 16, ch_enabled = enabled\<rparr>"

definition cache_get :: "dns_cache \<Rightarrow> nat \<Rightarrow> string \<Rightarrow> dns_cache \<times> ip_addr list option" where
  "cache_get c now name =
     (if \<not> ch_enabled c then (c, None)
      else
        (let key = to_ascii_lowercase name
         in case map_of (ch_inner c) key of
              None \<Rightarrow> (c, None)
            | Some hit \<Rightarrow>
                if ce_expire_at hit \<le> now then (c\<lparr>ch_inner := map_remove key (ch_inner c)\<rparr>, None)
                else (c, Some (ce_ips hit))))"

fun soonest :: "(string \<times> cache_entry) list \<Rightarrow> string option" where
  "soonest [] = None"
| "soonest [(k, e)] = Some k"
| "soonest ((k, e) # (k', e') # m) =
     soonest ((if ce_expire_at e \<le> ce_expire_at e' then (k, e) else (k', e')) # m)"

definition evict :: "dns_cache \<Rightarrow> nat \<Rightarrow> (string \<times> cache_entry) list" where
  "evict c now =
     (if ch_max_size c \<le> length (ch_inner c) then
        (let kept = filter (\<lambda>(_, e). now < ce_expire_at e) (ch_inner c)
         in if ch_max_size c \<le> length kept then
              (case soonest kept of Some oldest \<Rightarrow> map_remove oldest kept | None \<Rightarrow> kept)
            else kept)
      else ch_inner c)"

definition clamp_ttl :: "u32 \<Rightarrow> nat" where
  "clamp_ttl ttl = min 600 (max 10 (unat ttl))"

definition cache_put :: "dns_cache \<Rightarrow> nat \<Rightarrow> nat \<Rightarrow> string \<Rightarrow> ip_addr list \<Rightarrow> u32 \<Rightarrow> dns_cache" where
  \<comment> \<open>the clock is read once for the eviction and once for the new entry\<close>
  "cache_put c now now' name ips min_ttl =
     (if \<not> ch_enabled c \<or> ips = [] then c
      else c\<lparr>ch_inner := map_insert (to_ascii_lowercase name)
               \<lparr>ce_ips = ips, ce_expire_at = now' + secs (clamp_ttl min_ttl)\<rparr> (evict c now)\<rparr>)"

definition cache_flush :: "dns_cache \<Rightarrow> dns_cache" where
  "cache_flush c = c\<lparr>ch_inner := []\<rparr>"

definition cache_len :: "dns_cache \<Rightarrow> nat" where
  "cache_len c = length (ch_inner c)"

section \<open>Invariant\<close>

definition cache_wf :: "dns_cache \<Rightarrow> bool" where
  "cache_wf c \<longleftrightarrow> distinct (map fst (ch_inner c)) \<and> length (ch_inner c) \<le> ch_max_size c \<and> 16 \<le> ch_max_size c"

lemma filter_same_length:
  assumes "length (filter P xs) = length xs"
  shows "filter P xs = xs"
proof (rule filter_True, rule ballI, rule ccontr)
  fix x assume "x \<in> set xs" "\<not> P x"
  from length_filter_less [of x xs P, OF this] assms show False by simp
qed

lemma soonest_mem: "m \<noteq> [] \<Longrightarrow> \<exists>k e. soonest m = Some k \<and> (k, e) \<in> set m \<and> (\<forall>(k', e') \<in> set m. ce_expire_at e \<le> ce_expire_at e')"
proof (induction m rule: soonest.induct)
  case (3 k e k' e' m)
  let ?x = "if ce_expire_at e \<le> ce_expire_at e' then (k, e) else (k', e')"
  from 3 obtain s t where "soonest (?x # m) = Some s" "(s, t) \<in> set (?x # m)"
    "\<forall>(k'', e'') \<in> set (?x # m). ce_expire_at t \<le> ce_expire_at e''" by blast
  then show ?case by (intro exI [of _ s] exI [of _ t]) (auto split: if_splits)
qed auto

lemma evict_length:
  assumes "cache_wf c"
  shows "length (evict c now) < ch_max_size c \<and> distinct (map fst (evict c now))
       \<and> set (evict c now) \<subseteq> set (ch_inner c)"
proof -
  have d: "distinct (map fst (ch_inner c))" and l: "length (ch_inner c) \<le> ch_max_size c"
    and pos: "0 < ch_max_size c" using assms by (auto simp: cache_wf_def)
  let ?kept = "filter (\<lambda>(_, e). now < ce_expire_at e) (ch_inner c)"
  have dk: "distinct (map fst ?kept)" using d by (rule distinct_filter_fst)
  have lk: "length ?kept \<le> ch_max_size c" using l length_filter_le order_trans by blast
  show ?thesis
  proof (cases "ch_max_size c \<le> length (ch_inner c) \<and> ch_max_size c \<le> length ?kept")
    case True
    with pos have "?kept \<noteq> []" by auto
    with soonest_mem obtain k e where k: "soonest ?kept = Some k" "(k, e) \<in> set ?kept" by blast
    from k(2) have "k \<in> fst ` set ?kept" by force
    with length_map_remove [OF dk] True lk have "length (map_remove k ?kept) < ch_max_size c" by fastforce
    with True k(1) dk show ?thesis
      by (auto simp: evict_def Let_def distinct_map_remove) (auto simp: map_remove_def)
  next
    case False
    with d dk show ?thesis by (auto simp: evict_def Let_def not_le)
  qed
qed

lemma cache_new_wf [inv_intros]: "cache_wf (cache_new b n)"
  by (simp add: cache_wf_def cache_new_def)

lemma cache_get_wf [inv_intros]: "cache_wf c \<Longrightarrow> cache_wf (fst (cache_get c now name))"
  using length_map_remove_le
  by (auto simp: cache_get_def Let_def cache_wf_def distinct_map_remove split: option.split
      intro: order_trans [OF length_map_remove_le])

lemma cache_put_wf [inv_intros]:
  assumes "cache_wf c"
  shows "cache_wf (cache_put c now now' name ips ttl)"
proof -
  have "length (map_insert k v (evict c now)) \<le> ch_max_size c" for k v
    using evict_length [OF assms, of now] length_map_remove_le [of k "evict c now"]
    by (simp add: map_insert_def)
  with assms evict_length [OF assms, of now] show ?thesis
    by (auto simp: cache_put_def cache_wf_def distinct_map_insert)
qed

lemma cache_flush_wf [inv_intros]: "cache_wf c \<Longrightarrow> cache_wf (cache_flush c)"
  by (simp add: cache_wf_def cache_flush_def)

section \<open>Traces\<close>

datatype cache_op = Get string nat | Put string "ip_addr list" u32 nat nat | Flush

fun apply_op :: "dns_cache \<Rightarrow> cache_op \<Rightarrow> dns_cache" where
  "apply_op c (Get name now) = fst (cache_get c now name)"
| "apply_op c (Put name ips ttl now now') = cache_put c now now' name ips ttl"
| "apply_op c Flush = cache_flush c"

definition run_cache :: "bool \<Rightarrow> nat \<Rightarrow> cache_op list \<Rightarrow> dns_cache" where
  "run_cache enabled limit ops = foldl apply_op (cache_new enabled limit) ops"

fun overwrites :: "string \<Rightarrow> cache_op \<Rightarrow> bool" where
  "overwrites k (Put name ips ttl now now') \<longleftrightarrow> to_ascii_lowercase name = k \<and> ips \<noteq> []"
| "overwrites k Flush \<longleftrightarrow> True"
| "overwrites k (Get name now) \<longleftrightarrow> False"

lemma run_cache_wf: "cache_wf (run_cache b n ops)"
  by (induction ops rule: rev_induct)
    (simp_all add: run_cache_def cache_new_wf, case_tac x, simp_all add: inv_intros)

lemma run_cache_const:
  "ch_max_size (run_cache b n ops) = max n 16 \<and> ch_enabled (run_cache b n ops) = b
   \<and> (b \<or> ch_inner (run_cache b n ops) = [])"
proof (induction ops rule: rev_induct)
  case Nil
  then show ?case by (simp add: run_cache_def cache_new_def)
next
  case (snoc x ops)
  then show ?case
    by (cases x) (auto simp: run_cache_def cache_get_def cache_put_def cache_flush_def Let_def split: option.split)
qed

lemma apply_op_lookup:
  assumes "cache_wf c" "ch_enabled c \<or> ch_inner c = []"
    and new: "map_of (ch_inner (apply_op c op)) k = Some e"
  shows "(\<not> overwrites k op \<and> map_of (ch_inner c) k = Some e)
       \<or> (\<exists>name ips ttl now now'. op = Put name ips ttl now now' \<and> overwrites k op
            \<and> e = \<lparr>ce_ips = ips, ce_expire_at = now' + secs (clamp_ttl ttl)\<rparr>)"
proof (cases op)
  case (Get name now)
  with assms(2) new show ?thesis
    by (auto simp: cache_get_def Let_def map_of_map_remove split: option.splits if_splits)
next
  case (Put name ips ttl now now')
  have sub: "map_of (ch_inner c) k = Some e" if "map_of (evict c now) k = Some e"
    using map_of_SomeD [OF that] evict_length [OF assms(1), of now] assms(1)
    by (auto simp: cache_wf_def intro!: map_of_is_SomeI)
  show ?thesis
  proof (cases "to_ascii_lowercase name = k")
    case True
    with Put assms(2) new show ?thesis by (auto simp: cache_put_def map_of_map_insert split: if_splits)
  next
    case False
    with Put assms(2) new sub show ?thesis by (auto simp: cache_put_def map_of_map_insert split: if_splits)
  qed
next
  case Flush
  with assms(2) new show ?thesis by (simp add: cache_flush_def)
qed

lemma run_cache_source:
  "map_of (ch_inner (run_cache b n ops)) k = Some e \<Longrightarrow>
     \<exists>pre name ips ttl now now' post. ops = pre @ Put name ips ttl now now' # post
       \<and> to_ascii_lowercase name = k \<and> ips \<noteq> [] \<and> (\<forall>op \<in> set post. \<not> overwrites k op)
       \<and> e = \<lparr>ce_ips = ips, ce_expire_at = now' + secs (clamp_ttl ttl)\<rparr>"
proof (induction ops rule: rev_induct)
  case Nil
  then show ?case by (simp add: run_cache_def cache_new_def)
next
  case (snoc op ops)
  from snoc.prems have "map_of (ch_inner (apply_op (run_cache b n ops) op)) k = Some e"
    by (simp add: run_cache_def)
  from apply_op_lookup [OF run_cache_wf _ this] run_cache_const [of b n ops]
  consider (old) "\<not> overwrites k op" "map_of (ch_inner (run_cache b n ops)) k = Some e"
    | (new) name ips ttl now now' where "op = Put name ips ttl now now'" "overwrites k op"
        "e = \<lparr>ce_ips = ips, ce_expire_at = now' + secs (clamp_ttl ttl)\<rparr>" by blast
  then show ?case
  proof cases
    case old
    from snoc.IH [OF old(2)] obtain pre name ips ttl now now' post where
      "ops = pre @ Put name ips ttl now now' # post" "to_ascii_lowercase name = k" "ips \<noteq> []"
      "\<forall>op \<in> set post. \<not> overwrites k op"
      "e = \<lparr>ce_ips = ips, ce_expire_at = now' + secs (clamp_ttl ttl)\<rparr>" by blast
    with old(1) show ?thesis
      by (intro exI [of _ pre] exI [of _ name] exI [of _ ips] exI [of _ ttl] exI [of _ now] exI [of _ now']
          exI [of _ "post @ [op]"]) auto
  next
    case new
    then show ?thesis
      by (intro exI [of _ ops] exI [of _ name] exI [of _ ips] exI [of _ ttl] exI [of _ now] exI [of _ now']
          exI [of _ "[]"]) auto
  qed
qed

text \<open>
  C17. A cache hit is genuine and fresh.  After any sequence of lookups, insertions and
  flushes, a hit returns the addresses of the last insertion for that name, compared without
  case, with no flush since, and before the end of its lifetime, which is never longer than
  ten minutes; the cache never holds more entries than its limit, nor two for one name.
\<close>

theorem cache_hit_fresh:
  "cache_len (run_cache b n ops) \<le> max n 16
 \<and> distinct (map fst (ch_inner (run_cache b n ops)))
 \<and> (case snd (cache_get (run_cache b n ops) now name) of
      None \<Rightarrow> True
    | Some ips \<Rightarrow>
        \<exists>pre name' ttl t t' post. ops = pre @ Put name' ips ttl t t' # post
          \<and> eq_ignore_ascii_case name' name
          \<and> (\<forall>op \<in> set post. \<not> overwrites (to_ascii_lowercase name) op)
          \<and> now < t' + secs (clamp_ttl ttl) \<and> clamp_ttl ttl \<le> 600)"
proof -
  let ?c = "run_cache b n ops" and ?k = "to_ascii_lowercase name"
  have wf: "cache_len ?c \<le> max n 16" "distinct (map fst (ch_inner ?c))"
    using run_cache_wf [of b n ops] run_cache_const [of b n ops] by (auto simp: cache_wf_def cache_len_def)
  show ?thesis
  proof (cases "snd (cache_get ?c now name)")
    case None
    with wf show ?thesis by simp
  next
    case (Some ips)
    then obtain e where e: "map_of (ch_inner ?c) ?k = Some e" "now < ce_expire_at e" "ips = ce_ips e"
      by (auto simp: cache_get_def Let_def split: if_splits option.splits)
    from run_cache_source [OF e(1)] obtain pre name' ips' ttl t t' post where
      s: "ops = pre @ Put name' ips' ttl t t' # post" "to_ascii_lowercase name' = ?k"
      "\<forall>op \<in> set post. \<not> overwrites ?k op"
      "e = \<lparr>ce_ips = ips', ce_expire_at = t' + secs (clamp_ttl ttl)\<rparr>" by blast
    have "clamp_ttl ttl \<le> 600" by (simp add: clamp_ttl_def)
    with e s have "\<exists>pre name' ttl t t' post. ops = pre @ Put name' ips ttl t t' # post
          \<and> eq_ignore_ascii_case name' name
          \<and> (\<forall>op \<in> set post. \<not> overwrites ?k op)
          \<and> now < t' + secs (clamp_ttl ttl) \<and> clamp_ttl ttl \<le> 600"
      by (intro exI [of _ pre] exI [of _ name'] exI [of _ ttl] exI [of _ t] exI [of _ t'] exI [of _ post])
        (simp add: eq_ignore_ascii_case_def)
    with Some wf show ?thesis by simp
  qed
qed

theorem cache_hit_fresh_witness:
  "snd (cache_get (run_cache True 4 [Put ''A.b'' [V4 1] 60 0 0]) 5 ''a.B'') = Some [V4 1]
   \<and> cache_len (run_cache True 4 [Put ''A.b'' [V4 1] 60 0 0]) \<le> 16"
proof
  have "to_ascii_lowercase ''A.b'' = ''a.b''" "to_ascii_lowercase ''a.B'' = ''a.b''" by code_simp+
  then show "snd (cache_get (run_cache True 4 [Put ''A.b'' [V4 1] 60 0 0]) 5 ''a.B'') = Some [V4 1]"
    by (simp add: run_cache_def cache_new_def cache_put_def cache_get_def evict_def map_insert_def
        map_remove_def clamp_ttl_def secs_def)
  show "cache_len (run_cache True 4 [Put ''A.b'' [V4 1] 60 0 0]) \<le> 16"
    using cache_hit_fresh [of True 4 "[Put ''A.b'' [V4 1] 60 0 0]"] by simp
qed

text \<open>
  What is put can be got: in an enabled cache, an insertion of a non-empty answer is
  found under any casing of the name for at least ten seconds, even when the cache was full,
  and the insertion displaces at most expired entries or, when all are alive, the single one
  that would have expired first.
\<close>

theorem cache_put_get:
  assumes "cache_wf c" "ch_enabled c" "ips \<noteq> []" "eq_ignore_ascii_case name name'"
  shows "(now2 < now' + secs 10 \<longrightarrow> snd (cache_get (cache_put c now now' name ips ttl) now2 name') = Some ips)
       \<and> (\<forall>k e. map_of (ch_inner c) k = Some e \<longrightarrow> now < ce_expire_at e \<longrightarrow> k \<noteq> to_ascii_lowercase name \<longrightarrow>
            map_of (ch_inner (cache_put c now now' name ips ttl)) k = Some e
            \<or> (ch_max_size c = length (ch_inner c) \<and>
               (\<forall>(k', e') \<in> set (ch_inner c). now < ce_expire_at e' \<and> ce_expire_at e \<le> ce_expire_at e')))"
proof (intro conjI allI impI)
  have "10 \<le> clamp_ttl ttl" by (simp add: clamp_ttl_def)
  then have ttl: "secs 10 \<le> secs (clamp_ttl ttl)" by (simp add: secs_def)
  assume "now2 < now' + secs 10"
  with ttl have "now2 < now' + secs (clamp_ttl ttl)" by simp
  with assms(2-4) show "snd (cache_get (cache_put c now now' name ips ttl) now2 name') = Some ips"
    by (simp add: cache_get_def cache_put_def map_of_map_insert eq_ignore_ascii_case_def)
next
  fix k e
  assume k: "map_of (ch_inner c) k = Some e" "now < ce_expire_at e" "k \<noteq> to_ascii_lowercase name"
  let ?kept = "filter (\<lambda>(_, e). now < ce_expire_at e) (ch_inner c)"
  have d: "distinct (map fst (ch_inner c))" and l: "length (ch_inner c) \<le> ch_max_size c"
    using assms(1) by (auto simp: cache_wf_def)
  have dk: "distinct (map fst ?kept)" using d by (rule distinct_filter_fst)
  have mem: "(k, e) \<in> set ?kept" using map_of_SomeD [OF k(1)] k(2) by simp
  then have kept: "map_of ?kept k = Some e" using dk by (simp add: map_of_is_SomeI)
  show "map_of (ch_inner (cache_put c now now' name ips ttl)) k = Some e
            \<or> (ch_max_size c = length (ch_inner c) \<and>
               (\<forall>(k', e') \<in> set (ch_inner c). now < ce_expire_at e' \<and> ce_expire_at e \<le> ce_expire_at e'))"
  proof (cases "ch_max_size c \<le> length (ch_inner c) \<and> ch_max_size c \<le> length ?kept")
    case False
    with k kept assms(2,3) show ?thesis
      by (auto simp: cache_put_def map_of_map_insert evict_def Let_def)
  next
    case full: True
    have "length ?kept \<le> length (ch_inner c)" by simp
    with full l have same: "length ?kept = length (ch_inner c)" by linarith
    then have all: "?kept = ch_inner c"
      by (rule filter_same_length)
    have "?kept \<noteq> []" using length_pos_if_in_set [OF mem] by (simp only: length_greater_0_conv not_False_eq_True)
    then obtain s t where s: "soonest ?kept = Some s" "(s, t) \<in> set ?kept"
      "\<forall>(k', e') \<in> set ?kept. ce_expire_at t \<le> ce_expire_at e'" using soonest_mem by blast
    show ?thesis
    proof (cases "k = s")
      case False
      with full s(1) k kept assms(2,3) show ?thesis
        by (simp add: cache_put_def map_of_map_insert evict_def Let_def map_of_map_remove)
    next
      case True
      with s(2) dk have "map_of ?kept k = Some t" by (simp add: map_of_is_SomeI)
      with kept have "e = t" by simp
      have "now < ce_expire_at e' \<and> ce_expire_at e \<le> ce_expire_at e'" if "(k', e') \<in> set (ch_inner c)" for k' e'
      proof -
        have "(k', e') \<in> set ?kept" unfolding all by (rule that)
        with s(3) \<open>e = t\<close> show ?thesis by auto
      qed
      then have "\<forall>(k', e') \<in> set (ch_inner c). now < ce_expire_at e' \<and> ce_expire_at e \<le> ce_expire_at e'"
        by blast
      with full l show ?thesis by simp
    qed
  qed
qed

theorem cache_put_get_witness:
  "snd (cache_get (cache_put (cache_new True 0) 5 5 ''A.com'' [V4 1] 60) 6 ''a.COM'') = Some [V4 1]"
proof -
  have "eq_ignore_ascii_case ''A.com'' ''a.COM''" by code_simp
  then show ?thesis
    using cache_put_get [of "cache_new True 0" "[V4 1]" "''A.com''" "''a.COM''" 6 5 5 60]
    by (simp add: cache_new_wf secs_def) (simp add: cache_new_def)
qed

end
