(* ===== verification/Dns_Manager.thy ===== *)
theory Dns_Manager
  imports Dns_Wire Dns_Cache Config
begin

text \<open>
  \<^verbatim>\<open>dns/resolver.rs\<close> and \<^verbatim>\<open>dns/manager.rs\<close>: the configured servers, one query over a
  transport, the policy that orders the servers, and resolution through the cache.  The
  transports (a UDP exchange, or the HTTP request of \<^verbatim>\<open>dns/doh.rs\<close>) are a function from the
  server and the query to the bytes that came back or the error, time-outs included.
\<close>

section \<open>Socket addresses\<close>

datatype sock_addr = Sock_V4 u32 u16 | Sock_V6 u128 u32 u16

definition read_port :: "string \<Rightarrow> (u16 \<times> string) option" where
  "read_port s =
     do { s \<leftarrow> read_char (CHR '':'') s;
          (p, s) \<leftarrow> read_number 10 (length s) True 65535 s;
          Some (of_nat p, s) }"

definition read_socket_v4 :: "string \<Rightarrow> (sock_addr \<times> string) option" where
  "read_socket_v4 s = do { (a, s) \<leftarrow> read_ipv4 s; (p, s) \<leftarrow> read_port s; Some (Sock_V4 a p, s) }"

definition read_scope_id :: "string \<Rightarrow> (u32 \<times> string) option" where
  "read_scope_id s =
     do { s \<leftarrow> read_char (CHR ''%'') s;
          (p, s) \<leftarrow> read_number 10 (length s) True 4294967295 s;
          Some (of_nat p, s) }"

definition read_socket_v6 :: "string \<Rightarrow> (sock_addr \<times> string) option" where
  "read_socket_v6 s =
     do { s \<leftarrow> read_char (CHR ''['') s;
          (a, s) \<leftarrow> read_ipv6 s;
          let (scope, s) = (case read_scope_id s of Some r \<Rightarrow> r | None \<Rightarrow> (0, s));
          s \<leftarrow> read_char (CHR '']'') s;
          (p, s) \<leftarrow> read_port s;
          Some (Sock_V6 a scope p, s) }"

definition parse_socket_addr :: "string \<Rightarrow> sock_addr option" where
  "parse_socket_addr s =
     (case (case read_socket_v4 s of Some r \<Rightarrow> Some r | None \<Rightarrow> read_socket_v6 s) of
        Some (a, []) \<Rightarrow> Some a
      | _ \<Rightarrow> None)"

section \<open>One query\<close>

datatype server = Udp sock_addr | Doh string

definition parse_server :: "dns_server \<Rightarrow> server option" where
  "parse_server s =
     (if ds_kind s = ''udp'' then
        map_option Udp
          (if CHR '':'' \<in> set (ds_url s) then parse_socket_addr (ds_url s)
           else parse_socket_addr (ds_url s @ '':53''))
      else if ds_kind s = ''doh'' then Some (Doh (ds_url s))
      else None)"

text \<open>
  What the surroundings answer to the queries of one resolution: the query id and the answer
  of the \<open>k\<close>-th query.
\<close>

record dns_net =
  nt_id :: "nat \<Rightarrow> u16"
  nt_send :: "nat \<Rightarrow> server \<Rightarrow> u8 list \<Rightarrow> svc_error + u8 list"

definition query_server :: "dns_net \<Rightarrow> nat \<Rightarrow> server \<Rightarrow> string \<Rightarrow> u16 \<Rightarrow> svc_error + dns_record list" where
  \<comment> \<open>the panic \<open>None\<close> of the parser never happens, by the totality shown with it\<close>
  "query_server net k server name qtype =
     (case nt_send net k server (build_query name qtype (nt_id net k)) of
        Inl e \<Rightarrow> Inl e
      | Inr resp \<Rightarrow>
          (case parse_response resp of
             Some (Some records) \<Rightarrow> Inr records
           | _ \<Rightarrow> Inl (Dns ''malformed DNS response'')))"

definition ping_server :: "dns_net \<Rightarrow> nat \<Rightarrow> server \<Rightarrow> string \<Rightarrow> nat \<Rightarrow> bool \<times> nat \<times> ip_addr list" where
  \<comment> \<open>the last argument is the time that went by\<close>
  "ping_server net k server name elapsed =
     (case query_server net k server name TYPE_A of
        Inr records \<Rightarrow> (let ips = List.map_filter dr_ip records in (ips \<noteq> [], elapsed, ips))
      | Inl _ \<Rightarrow> (False, elapsed, []))"

section \<open>The manager\<close>

datatype resolve_policy = Direct_only | Proxy_only | Any_server

record dns_manager =
  dm_cfg :: dns_config
  dm_cache :: dns_cache
  dm_changed :: nat

definition dns_load :: "(string \<Rightarrow> string + dns_config) \<Rightarrow> config_manager \<times> fs \<Rightarrow> dns_manager" where
  "dns_load de s =
     (let cfg = cm_dns de s
      in \<lparr>dm_cfg = cfg, dm_cache = cache_new (dc_cache cfg) (unat (dc_cache_size cfg)), dm_changed = 0\<rparr>)"

definition dns_set_config ::
  "(dns_config \<Rightarrow> string) \<Rightarrow> write_io \<Rightarrow> dns_manager \<times> config_manager \<times> fs \<Rightarrow> dns_config
     \<Rightarrow> (dns_manager \<times> config_manager \<times> fs) \<times> (svc_error + unit)" where
  "dns_set_config ser io s cfg =
     (case s of (m, cs) \<Rightarrow>
        (case save_dns ser io cs cfg of
           (cs, Inl e) \<Rightarrow> ((m, cs), Inl e)
         | (cs, Inr _) \<Rightarrow>
             (let cache = cache_new (dc_cache cfg) (unat (dc_cache_size cfg));
                  cache = (if \<not> dc_cache cfg then cache_flush cache else cache)
              in ((\<lparr>dm_cfg = cfg, dm_cache = cache, dm_changed = dm_changed m + 1\<rparr>, cs), Inr ()))))"

definition dns_flush_cache :: "dns_manager \<Rightarrow> dns_manager" where
  "dns_flush_cache m = m\<lparr>dm_cache := cache_flush (dm_cache m)\<rparr>"

definition policy_tag :: "resolve_policy \<Rightarrow> string \<Rightarrow> bool" where
  "policy_tag policy tag \<longleftrightarrow>
     (policy = Direct_only \<and> tag = ''direct'') \<or> (policy = Proxy_only \<and> tag = ''proxy'')"

definition usable :: "dns_server list \<Rightarrow> (dns_server \<Rightarrow> bool) \<Rightarrow> (string \<times> server) list" where
  \<comment> \<open>one loop over the servers, keeping those that parse and pass the test\<close>
  "usable servers ok =
     List.map_filter (\<lambda>s. if ok s then map_option (\<lambda>sv. (ds_url s, sv)) (parse_server s) else None) servers"

definition select_servers :: "dns_config \<Rightarrow> resolve_policy \<Rightarrow> (string \<times> server) list" where
  "select_servers cfg policy =
     (let picked = usable (dc_servers cfg) (\<lambda>s. policy_tag policy (ds_tag s))
               @ usable (dc_servers cfg) (\<lambda>s. \<not> policy_tag policy (ds_tag s) \<and> ds_tag s = [])
      in if picked = [] then usable (dc_servers cfg) (\<lambda>s. True) else picked)"

fun try_servers ::
  "dns_net \<Rightarrow> nat \<Rightarrow> string \<Rightarrow> (string \<times> server) list \<Rightarrow> svc_error option \<Rightarrow> svc_error + ip_addr list" where
  "try_servers net k name [] last_err =
     Inl (case last_err of None \<Rightarrow> Dns ''no dns server'' | Some e \<Rightarrow> e)"
| "try_servers net k name ((_, server) # rest) last_err =
     (let v4 = query_server net k server name TYPE_A;
          v6 = query_server net (k + 1) server name TYPE_AAAA
      in case v4 of
           Inr a \<Rightarrow>
             (let ips = List.map_filter dr_ip a @ (case v6 of Inr aaaa \<Rightarrow> List.map_filter dr_ip aaaa | Inl _ \<Rightarrow> [])
              in if ips = [] then try_servers net (k + 2) name rest (Some (Dns ''empty answer''))
                 else Inr ips)
         | Inl e \<Rightarrow> try_servers net (k + 2) name rest (Some e))"

text \<open>
  \<open>now\<close> gives the readings of the monotonic clock: of the look-up, and the two of the
  insertion.
\<close>

definition resolve ::
  "dns_net \<Rightarrow> (nat \<Rightarrow> nat) \<Rightarrow> resolve_policy \<Rightarrow> string \<Rightarrow> dns_manager \<Rightarrow> dns_manager \<times> (svc_error + ip_addr list)" where
  "resolve net now policy name m =
     (case parse_ip name of
        Some ip \<Rightarrow> (m, Inr [ip])
      | None \<Rightarrow>
          (case cache_get (dm_cache m) (now 0) name of
             (cache, Some hit) \<Rightarrow> (m\<lparr>dm_cache := cache\<rparr>, Inr hit)
           | (cache, None) \<Rightarrow>
               (case try_servers net 0 name (select_servers (dm_cfg m) policy) None of
                  Inr ips \<Rightarrow> (m\<lparr>dm_cache := cache_put cache (now 1) (now 2) name ips 60\<rparr>, Inr ips)
                | Inl e \<Rightarrow> (m\<lparr>dm_cache := cache\<rparr>, Inl e))))"

record server_test =
  st_server :: string
  st_ok :: bool
  st_latency :: nat
  st_ips :: "ip_addr list"

fun test_servers :: "dns_net \<Rightarrow> (nat \<Rightarrow> nat) \<Rightarrow> nat \<Rightarrow> string \<Rightarrow> dns_server list \<Rightarrow> server_test list" where
  "test_servers net elapsed k name [] = []"
| "test_servers net elapsed k name (s # rest) =
     (case parse_server s of
        None \<Rightarrow> test_servers net elapsed k name rest
      | Some server \<Rightarrow>
          (case ping_server net k server name (elapsed k) of
             (ok, ms, ips) \<Rightarrow>
               \<lparr>st_server = ds_url s, st_ok = ok, st_latency = ms, st_ips = ips\<rparr>
                 # test_servers net elapsed (k + 1) name rest))"

definition test_all :: "dns_net \<Rightarrow> (nat \<Rightarrow> nat) \<Rightarrow> string \<Rightarrow> dns_manager \<Rightarrow> server_test list" where
  "test_all net elapsed name m =
     test_servers net elapsed 0 (if name = [] then ''www.microsoft.com'' else name) (dc_servers (dm_cfg m))"

section \<open>Resolution\<close>

text \<open>The addresses one server gives, when its A query succeeds.\<close>

definition given :: "dns_net \<Rightarrow> nat \<Rightarrow> server \<Rightarrow> string \<Rightarrow> ip_addr list option" where
  "given net k sv name =
     (case query_server net k sv name TYPE_A of
        Inl _ \<Rightarrow> None
      | Inr a \<Rightarrow> Some (List.map_filter dr_ip a
          @ (case query_server net (k + 1) sv name TYPE_AAAA of Inr b \<Rightarrow> List.map_filter dr_ip b | Inl _ \<Rightarrow> [])))"

lemma try_servers_step:
  "try_servers net k name (us # rest) last_err =
     (case given net k (snd us) name of
        Some (ip # ips) \<Rightarrow> Inr (ip # ips)
      | Some [] \<Rightarrow> try_servers net (k + 2) name rest (Some (Dns ''empty answer''))
      | None \<Rightarrow> try_servers net (k + 2) name rest
          (Some (projl (query_server net k (snd us) name TYPE_A))))"
  by (cases us) (auto simp: given_def Let_def split: sum.split list.split)

definition first_given :: "dns_net \<Rightarrow> nat \<Rightarrow> string \<Rightarrow> (string \<times> server) list \<Rightarrow> nat \<Rightarrow> ip_addr list \<Rightarrow> bool" where
  "first_given net k name servers i ips \<longleftrightarrow>
     i < length servers \<and> ips \<noteq> [] \<and> given net (k + 2 * i) (snd (servers ! i)) name = Some ips
   \<and> (\<forall>j < i. given net (k + 2 * j) (snd (servers ! j)) name \<in> {None, Some []})"

lemma first_given_Cons:
  "first_given net k name (us # rest) i ips \<longleftrightarrow>
     (case i of
        0 \<Rightarrow> ips \<noteq> [] \<and> given net k (snd us) name = Some ips
      | Suc i' \<Rightarrow> given net k (snd us) name \<in> {None, Some []} \<and> first_given net (k + 2) name rest i' ips)"
proof (cases i)
  case 0
  then show ?thesis by (auto simp: first_given_def)
next
  case (Suc i')
  have "(\<forall>j < Suc i'. given net (k + 2 * j) (snd ((us # rest) ! j)) name \<in> {None, Some []}) \<longleftrightarrow>
      given net k (snd us) name \<in> {None, Some []}
    \<and> (\<forall>j < i'. given net (k + 2 + 2 * j) (snd (rest ! j)) name \<in> {None, Some []})"
    by (simp add: All_less_Suc2 add.assoc)
  then show ?thesis by (auto simp: first_given_def Suc add.assoc)
qed

lemma try_servers_first:
  "try_servers net k name servers last_err = Inr ips \<longleftrightarrow> (\<exists>i. first_given net k name servers i ips)"
proof (induction servers arbitrary: k last_err)
  case Nil
  then show ?case by (simp add: first_given_def)
next
  case (Cons us rest)
  have ex: "(\<exists>i. first_given net k name (us # rest) i ips) \<longleftrightarrow>
      (ips \<noteq> [] \<and> given net k (snd us) name = Some ips)
    \<or> (given net k (snd us) name \<in> {None, Some []} \<and> (\<exists>i. first_given net (k + 2) name rest i ips))"
  proof -
    have "(\<exists>i. F i) \<longleftrightarrow> F 0 \<or> (\<exists>i. F (Suc i))" for F :: "nat \<Rightarrow> bool" by (metis not0_implies_Suc)
    from this [of "\<lambda>i. first_given net k name (us # rest) i ips"] show ?thesis by (simp add: first_given_Cons)
  qed
  show ?case
    unfolding ex try_servers_step
    by (cases "given net k (snd us) name") (auto simp: Cons.IH split: list.split)
qed

text \<open>
  C26. A name that is neither an address nor cached is resolved by the first server, in policy
  order, whose A query succeeds and that gives an address at all; its A addresses come
  first.  A server whose A query fails is passed over even when its AAAA query succeeds.
  An address is its own resolution, and asks nobody.
\<close>

theorem resolve_asks_in_order:
  "case parse_ip name of
     Some ip \<Rightarrow> resolve net now policy name m = (m, Inr [ip])
   | None \<Rightarrow>
       (case snd (cache_get (dm_cache m) (now 0) name) of
          Some hit \<Rightarrow> snd (resolve net now policy name m) = Inr hit
        | None \<Rightarrow> snd (resolve net now policy name m) = Inr ips \<longleftrightarrow>
            (\<exists>i. first_given net 0 name (select_servers (dm_cfg m) policy) i ips))"
proof (cases "parse_ip name")
  case None
  obtain c r where c: "cache_get (dm_cache m) (now 0) name = (c, r)" by fastforce
  show ?thesis
  proof (cases r)
    case r: None
    have "snd (resolve net now policy name m) = Inr ips \<longleftrightarrow>
        try_servers net 0 name (select_servers (dm_cfg m) policy) None = Inr ips"
      using None c r by (auto simp: resolve_def split: sum.split)
    then show ?thesis using None c r by (simp add: try_servers_first)
  next
    case (Some hit)
    with None c show ?thesis by (simp add: resolve_def)
  qed
qed (simp add: resolve_def)

lemma cache_put_hit:
  assumes "ch_enabled c" "ips \<noteq> []" "eq_ignore_ascii_case name name'" "now2 < now' + secs 60"
  shows "snd (cache_get (cache_put c now now' name ips 60) now2 name') = Some ips"
proof -
  have "clamp_ttl 60 = 60" by (simp add: clamp_ttl_def)
  with assms show ?thesis
    by (simp add: cache_get_def cache_put_def Let_def map_of_map_insert eq_ignore_ascii_case_def)
qed

lemma cache_get_enabled: "ch_enabled (fst (cache_get c now name)) = ch_enabled c"
  by (simp add: cache_get_def Let_def split: option.split)

text \<open>
  What the network answered is answered again from the cache for a minute, whatever the
  case of the name, without asking any server; and whatever the policy of the second
  question, so that an answer obtained for proxied use is given to direct use too.
\<close>

theorem resolved_name_is_cached:
  assumes "ch_enabled (dm_cache m)" and "parse_ip name = None" and "parse_ip name' = None"
    and "eq_ignore_ascii_case name name'"
    and "snd (cache_get (dm_cache m) (now 0) name) = None"
    and "resolve net now policy name m = (m', Inr ips)" and "now' 0 < now 2 + secs 60"
  shows "snd (resolve net' now' policy' name' m') = Inr ips"
proof -
  obtain c where c: "cache_get (dm_cache m) (now 0) name = (c, None)"
    using assms(5) by (cases "cache_get (dm_cache m) (now 0) name") auto
  have en: "ch_enabled c" using cache_get_enabled [of "dm_cache m" "now 0" name] c assms(1) by simp
  from assms(2,6) c have t: "try_servers net 0 name (select_servers (dm_cfg m) policy) None = Inr ips"
    and m': "m' = m\<lparr>dm_cache := cache_put c (now 1) (now 2) name ips 60\<rparr>"
    by (auto simp: resolve_def split: sum.splits)
  from t have "ips \<noteq> []" by (auto simp: try_servers_first first_given_def)
  from cache_put_hit [OF en this assms(4,7), of "now 1"] obtain c' where
    "cache_get (dm_cache m') (now' 0) name' = (c', Some ips)"
    unfolding m' by (cases "cache_get (cache_put c (now 1) (now 2) name ips 60) (now' 0) name'") auto
  with assms(3) show ?thesis by (simp add: resolve_def)
qed

section \<open>Policies\<close>

lemma usable_mem:
  "(u, sv) \<in> set (usable servers ok) \<longleftrightarrow> (\<exists>s \<in> set servers. ok s \<and> ds_url s = u \<and> parse_server s = Some sv)"
  by (induction servers) (auto simp: usable_def List.map_filter_simps split: option.splits)

lemma usable_empty: "usable servers ok = [] \<longleftrightarrow> (\<forall>s \<in> set servers. ok s \<longrightarrow> parse_server s = None)"
  by (induction servers) (auto simp: usable_def List.map_filter_simps split: option.splits)

text \<open>
  The servers a policy asks: those tagged for it, then the untagged ones; when none of
  these can be used, every server of the configuration, those tagged for the other policy
  included.
\<close>

theorem policy_servers_exact:
  "(u, sv) \<in> set (select_servers cfg policy) \<longleftrightarrow>
     (\<exists>s \<in> set (dc_servers cfg). ds_url s = u \<and> parse_server s = Some sv
        \<and> (policy_tag policy (ds_tag s) \<or> ds_tag s = []
           \<or> (\<forall>t \<in> set (dc_servers cfg). parse_server t = None \<or> \<not> (policy_tag policy (ds_tag t) \<or> ds_tag t = []))))"
proof -
  let ?none = "\<forall>t \<in> set (dc_servers cfg). parse_server t = None \<or> \<not> (policy_tag policy (ds_tag t) \<or> ds_tag t = [])"
  have tag: "\<not> policy_tag policy []" by (simp add: policy_tag_def)
  have "select_servers cfg policy = (if ?none then usable (dc_servers cfg) (\<lambda>s. True)
      else usable (dc_servers cfg) (\<lambda>s. policy_tag policy (ds_tag s))
         @ usable (dc_servers cfg) (\<lambda>s. \<not> policy_tag policy (ds_tag s) \<and> ds_tag s = []))"
    unfolding select_servers_def Let_def by (auto simp: usable_empty)
  then show ?thesis by (cases ?none) (auto simp: usable_mem)
qed

section \<open>Bare IPv6 servers\<close>

lemma read_ipv6_bracket: "read_ipv6 (CHR ''['' # s) = None"
proof -
  have "to_digit 16 (CHR ''['') = None" "to_digit 10 (CHR ''['') = None" by code_simp+
  then have "read_groups 0 8 (CHR ''['' # s) = ([], False, CHR ''['' # s)"
    by (subst read_groups.simps) (simp add: read_separator_def read_number_def read_ipv4_def)
  then show ?thesis by (simp add: read_ipv6_def read_char_def)
qed

text \<open>
  A UDP server given as a plain IPv6 address, without brackets and port, is never used:
  it contains a colon, is therefore read as an address with a port, and is dropped, although
  the validation of the settings accepts it.
\<close>

theorem bare_ipv6_server_ignored:
  assumes "ds_kind s = ''udp''" and "parse_ip (ds_url s) = Some (V6 a)" and "CHR '':'' \<in> set (ds_url s)"
  shows "parse_server s = None \<and> (u, sv) \<notin> set (usable [s] ok)"
proof -
  from assms(2) have v4: "read_ipv4 (ds_url s) = None"
    by (auto simp: parse_ip_def split: option.splits list.splits)
  with assms(2) have v6: "read_ipv6 (ds_url s) \<noteq> None"
    by (cases "read_ipv6 (ds_url s)") (auto simp: parse_ip_def)
  then have "read_char (CHR ''['') (ds_url s) = None"
    using read_ipv6_bracket by (cases "ds_url s") (auto simp: read_char_def)
  with v4 have "parse_socket_addr (ds_url s) = None"
    by (simp add: parse_socket_addr_def read_socket_v4_def read_socket_v6_def)
  with assms show ?thesis by (simp add: parse_server_def usable_def List.map_filter_simps)
qed

section \<open>Witnesses\<close>

definition demo_answer :: "u8 list" where
  \<comment> \<open>a response with one A record for the root name\<close>
  "demo_answer = [0, 0, 0x80, 0, 0, 0, 0, 1, 0, 0, 0, 0,  0,  0, 1,  0, 1,  0, 0, 0, 9,  0, 4,  1, 2, 3, 4]"

definition demo_net :: dns_net where
  "demo_net = \<lparr>nt_id = of_nat, nt_send = (\<lambda>k sv q. if k = 0 then Inr demo_answer else Inl Timeout)\<rparr>"

definition demo_dns :: dns_manager where
  "demo_dns = \<lparr>dm_cfg = \<lparr>dc_mode = ''smart'', dc_servers = [\<lparr>ds_kind = ''doh'', ds_url = ''u'', ds_tag = ''proxy''\<rparr>],
     dc_cache = True, dc_cache_size = 16\<rparr>, dm_cache = cache_new True 16, dm_changed = 0\<rparr>"

lemma demo_parse: "parse_response demo_answer = Some (Some [\<lparr>dr_name = [], dr_qtype = 1, dr_ttl = 9, dr_ip = Some (V4 0x01020304)\<rparr>])"
proof -
  have "read_name demo_answer 12 = Some (Some ([], 13))"
    by (simp add: read_name_def name_loop.simps demo_answer_def buf_at_def)
  moreover have "length demo_answer = 27" "demo_answer ! 2 = 0x80" "take 2 (drop 4 demo_answer) = [0, 0]"
    "take 2 (drop 6 demo_answer) = [0, 1]" "take 2 (drop 13 demo_answer) = [0, 1]"
    "take 4 (drop 17 demo_answer) = [0, 0, 0, 9]" "take 2 (drop 21 demo_answer) = [0, 4]"
    "take 4 (drop 23 demo_answer) = [1, 2, 3, 4]"
    by (simp_all add: demo_answer_def)
  moreover have "from_be_bytes [0, 0] = (0 :: u16)" "from_be_bytes [0, 1] = (1 :: u16)" "from_be_bytes [0, 4] = (4 :: u16)"
    "from_be_bytes [0, 0, 0, 9] = (9 :: u32)" "from_be_bytes [1, 2, 3, 4] = (0x01020304 :: u32)"
    by (simp_all add: from_be_bytes_def)
  ultimately show ?thesis
    by (simp add: parse_response_def buf_at_def buf_slice_def record_ip_def ipv4_new_def TYPE_A_def)
qed

lemma demo_names: "parse_ip ''x.y'' = None" "parse_ip ''X.Y'' = None" "eq_ignore_ascii_case ''x.y'' ''X.Y''"
proof -
  show "parse_ip ''x.y'' = None" "parse_ip ''X.Y'' = None"
    by (simp_all add: read_ipv6_def read_groups.simps std_eval)
  show "eq_ignore_ascii_case ''x.y'' ''X.Y''" by code_simp
qed

lemma demo_resolves:
  "resolve demo_net (\<lambda>_. 0) Proxy_only ''x.y'' demo_dns
     = (demo_dns\<lparr>dm_cache := cache_put (cache_new True 16) 0 0 ''x.y'' [V4 0x01020304] 60\<rparr>, Inr [V4 0x01020304])"
proof -
  have "cache_get (cache_new True 16) 0 ''x.y'' = (cache_new True 16, None)"
    by (simp add: cache_get_def cache_new_def)
  then show ?thesis
    by (simp add: resolve_def demo_names demo_dns_def select_servers_def usable_def List.map_filter_simps
        policy_tag_def parse_server_def query_server_def demo_net_def demo_parse Let_def)
qed

theorem resolve_asks_in_order_witness:
  "\<exists>i. first_given demo_net 0 ''x.y'' (select_servers (dm_cfg demo_dns) Proxy_only) i [V4 0x01020304]"
  using resolve_asks_in_order [where name = "''x.y''" and net = demo_net and now = "\<lambda>_. 0" and policy = Proxy_only
      and m = demo_dns and ips = "[V4 0x01020304]"] demo_resolves demo_names(1)
  by (simp add: demo_dns_def cache_get_def cache_new_def)

theorem resolved_name_is_cached_witness:
  "snd (resolve demo_net (\<lambda>_. secs 30) Direct_only ''X.Y''
     (fst (resolve demo_net (\<lambda>_. 0) Proxy_only ''x.y'' demo_dns))) = Inr [V4 0x01020304]"
proof -
  have "ch_enabled (dm_cache demo_dns)" "snd (cache_get (dm_cache demo_dns) 0 ''x.y'') = None"
    by (simp_all add: demo_dns_def cache_new_def cache_get_def)
  from resolved_name_is_cached [where now' = "\<lambda>_. secs 30" and net' = demo_net and policy' = Direct_only,
      OF this(1) demo_names(1,2,3) this(2) demo_resolves]
  show ?thesis by (simp add: demo_resolves secs_def)
qed

theorem policy_servers_exact_witness:
  "(''u'', Doh ''u'') \<in> set (select_servers (dm_cfg demo_dns) Direct_only)"
  unfolding policy_servers_exact
  by (simp add: demo_dns_def parse_server_def policy_tag_def)

theorem bare_ipv6_server_ignored_witness:
  "parse_server \<lparr>ds_kind = ''udp'', ds_url = ''::1'', ds_tag = []\<rparr> = None"
proof -
  have "\<exists>a. parse_ip ''::1'' = Some (V6 a)"
    by (simp add: read_ipv6_def read_groups.simps std_eval)
  then obtain a where "parse_ip ''::1'' = Some (V6 a)" by blast
  with bare_ipv6_server_ignored [of "\<lparr>ds_kind = ''udp'', ds_url = ''::1'', ds_tag = []\<rparr>"] show ?thesis by simp
qed

end
