(* ===== verification/Sub_Parser.thy ===== *)
theory Sub_Parser
  imports Node_Manager Core_Builder
begin

text \<open>
  \<^verbatim>\<open>subscription/decoder.rs\<close> and \<^verbatim>\<open>subscription/parser\<close>: from the body of a subscription to
  nodes.  The crates the parsers call (base64, percent-encoding, url, the JSON reader) are the
  fields of a record; the laws assumed of them are hypotheses where they are used.
\<close>

section \<open>Crates\<close>

record url_parts =
  ur_host :: "string option"
  ur_port :: "u16 option"
  ur_user :: string
  ur_pass :: "string option"
  ur_fragment :: "string option"
  ur_query :: "(string \<times> string) list"

record crates =
  cr_url_safe :: "string \<Rightarrow> u8 list option"
  cr_standard :: "string \<Rightarrow> u8 list option"
  cr_percent :: "string \<Rightarrow> string"
  cr_url :: "string \<Rightarrow> url_parts option"
  cr_json :: "string \<Rightarrow> json option"

section \<open>The body\<close>

function pad_to_4 :: "string \<Rightarrow> string" where
  "pad_to_4 s = (if length s mod 4 \<noteq> 0 then pad_to_4 (s @ ''='') else s)"
  by pat_completeness auto
termination
  by (relation "measure (\<lambda>s. 3 - (length s + 3) mod 4)", simp)
     (simp, presburger)

declare pad_to_4.simps [simp del]

definition split_lines :: "string \<Rightarrow> string list" where
  "split_lines text =
     filter (\<lambda>l. l \<noteq> [] \<and> \<not> prefix ''#'' l) (map trim (str_lines text))"

definition uri_list :: "u8 list option \<Rightarrow> string list option" where
  \<comment> \<open>the text of one decoding attempt, when it is a list of URIs\<close>
  "uri_list bs =
     (case Option.bind bs from_utf8 of
        None \<Rightarrow> None
      | Some text \<Rightarrow> if str_contains text ''://'' then Some (split_lines text) else None)"

definition decode_body :: "crates \<Rightarrow> string \<Rightarrow> string list" where
  "decode_body cr body =
     (let trimmed = trim body
      in if trimmed = [] then []
         else if str_contains trimmed ''://'' then split_lines trimmed
         else case uri_list (cr_url_safe cr (pad_to_4 (trim trimmed))) of
                Some ls \<Rightarrow> ls
              | None \<Rightarrow>
                  (case uri_list (cr_standard cr (pad_to_4 (trim trimmed))) of
                     Some ls \<Rightarrow> ls
                   | None \<Rightarrow> []))"

section \<open>Shared by the protocols\<close>

definition fnv_step :: "u64 \<Rightarrow> u8 \<Rightarrow> u64" where
  "fnv_step hash b = (hash XOR ucast b) * 0x00000100000001b3"

definition stable_id :: "string \<Rightarrow> string \<Rightarrow> u16 \<Rightarrow> string \<Rightarrow> string" where
  "stable_id protocol host port identity =
     (let key = protocol @ ''|'' @ host @ ''|'' @ nat_str (unat port) @ ''|'' @ identity
      in ''node_'' @ hex16 (foldl fnv_step 0xcbf29ce484222325 (as_bytes key)))"

definition decode_name :: "crates \<Rightarrow> string option \<Rightarrow> string \<Rightarrow> string" where
  "decode_name cr fragment fallback =
     (case map_option (cr_percent cr) fragment of
        Some s \<Rightarrow> if s \<noteq> [] then s else fallback
      | None \<Rightarrow> fallback)"

definition split_hostport :: "string \<Rightarrow> u16 \<Rightarrow> (string \<times> u16) option" where
  "split_hostport s default_port =
     (let s = trim s
      in case strip_prefix_str s ''['' of
           Some rest \<Rightarrow>
             (case split_once (CHR '']'') rest of
                None \<Rightarrow> None
              | Some (v6, tail) \<Rightarrow>
                  Some (v6, case Option.bind (strip_prefix_str tail '':'') parse_u16 of
                              Some p \<Rightarrow> p | None \<Rightarrow> default_port))
         | None \<Rightarrow>
             (case rsplit_once (CHR '':'') s of
                Some (host, port) \<Rightarrow> map_option (\<lambda>p. (host, p)) (parse_u16 port)
              | None \<Rightarrow> Some (s, default_port)))"

definition build_node ::
  "string \<Rightarrow> string \<Rightarrow> string \<Rightarrow> u16 \<Rightarrow> json \<Rightarrow> json \<Rightarrow> tls_config \<Rightarrow> string \<Rightarrow> node" where
  "build_node protocol name host port authentication transport tls identity =
     \<lparr>nd_id = stable_id protocol host port identity, nd_name = name, nd_protocol = protocol,
      nd_endpoint = \<lparr>ep_host = host, ep_port = port\<rparr>, nd_authentication = authentication,
      nd_transport = transport, nd_tls = tls, nd_metadata = js_object [], nd_subscription_id = [],
      nd_enabled = True, nd_created_at = 0\<rparr>"

definition host_port_name :: "string \<Rightarrow> u16 \<Rightarrow> string" where
  "host_port_name host port = host @ '':'' @ nat_str (unat port)"

section \<open>Shadowsocks\<close>

definition ss_b64_either :: "crates \<Rightarrow> string \<Rightarrow> u8 list option" where
  "ss_b64_either cr input =
     (case cr_url_safe cr (pad_to_4 input) of Some b \<Rightarrow> Some b | None \<Rightarrow> cr_standard cr (pad_to_4 input))"

definition ss_node :: "crates \<Rightarrow> string option \<Rightarrow> string \<Rightarrow> string \<Rightarrow> node option" where
  \<comment> \<open>from the credentials and the host with its port on; the same in both forms\<close>
  "ss_node cr fragment creds hostport =
     do { (method, password) \<leftarrow> split_once (CHR '':'') creds;
          (host, port) \<leftarrow> split_hostport hostport 8388;
          Some (build_node SHADOWSOCKS (decode_name cr fragment (host_port_name host port)) host port
            (js_object [(''method'', JStr method), (''password'', JStr password)])
            (js_object []) tls_default (method @ '':'' @ password)) }"

definition ss_parse :: "crates \<Rightarrow> string \<Rightarrow> node option" where
  "ss_parse cr line =
     do { body \<leftarrow> strip_prefix_str line ''ss://'';
          let (main, fragment) =
            (case split_once (CHR ''#'') body of Some (m, f) \<Rightarrow> (m, Some f) | None \<Rightarrow> (body, None));
          if CHR ''@'' \<notin> set main then
            do { bytes \<leftarrow> ss_b64_either cr main;
                 decoded \<leftarrow> from_utf8 bytes;
                 let decoded = (case strip_suffix_str decoded ''/'' of Some d \<Rightarrow> d | None \<Rightarrow> decoded);
                 (creds, hostport) \<leftarrow> rsplit_once (CHR ''@'') decoded;
                 ss_node cr fragment creds hostport }
          else
            do { (userinfo, after) \<leftarrow> split_once (CHR ''@'') main;
                 let hostport = (case split_once (CHR ''?'') after of Some (h, _) \<Rightarrow> h | None \<Rightarrow> after);
                 bytes \<leftarrow> ss_b64_either cr userinfo;
                 creds \<leftarrow> from_utf8 bytes;
                 ss_node cr fragment creds hostport } }"

section \<open>Socks, Trojan and VLESS\<close>

definition socks_parse :: "crates \<Rightarrow> string \<Rightarrow> node option" where
  "socks_parse cr line =
     do { u \<leftarrow> cr_url cr line;
          host \<leftarrow> ur_host u;
          let port = (case ur_port u of Some p \<Rightarrow> p | None \<Rightarrow> 1080);
          let user = cr_percent cr (ur_user u);
          let pass = (case ur_pass u of Some p \<Rightarrow> cr_percent cr p | None \<Rightarrow> []);
          let auth = (if user = [] then js_object []
                      else js_object [(''username'', JStr user), (''password'', JStr pass)]);
          let name = decode_name cr (Some (case ur_fragment u of Some f \<Rightarrow> f | None \<Rightarrow> [])) (host_port_name host port);
          Some (build_node SOCKS name host port auth (js_object []) tls_default user) }"

definition url_query :: "url_parts \<Rightarrow> string \<Rightarrow> string option" where
  "url_query u key = map_of (ur_query u) key"

definition query_or :: "url_parts \<Rightarrow> string \<Rightarrow> string \<Rightarrow> string" where
  "query_or u key dflt = (case url_query u key of Some v \<Rightarrow> v | None \<Rightarrow> dflt)"

definition put_query :: "url_parts \<Rightarrow> string \<Rightarrow> json \<Rightarrow> json" where
  \<comment> \<open>a query parameter that is present and not empty goes into the object\<close>
  "put_query u key o' =
     (case url_query u key of
        Some v \<Rightarrow> if v \<noteq> [] then js_insert key (JStr v) o' else o'
      | None \<Rightarrow> o')"

definition transport_from_query :: "url_parts \<Rightarrow> string \<Rightarrow> json" where
  "transport_from_query u host =
     (let kind = query_or u ''type'' ''tcp''
      in if kind = ''ws'' then
           js_object [(''type'', JStr ''ws''), (''path'', JStr (query_or u ''path'' ''/'')),
             (''headers'', js_object [(''Host'', JStr (query_or u ''host'' host))])]
         else if kind = ''grpc'' then
           js_object [(''type'', JStr ''grpc''), (''service_name'', JStr (query_or u ''serviceName'' []))]
         else if kind = ''xhttp'' then
           put_query u ''host'' (put_query u ''path'' (put_query u ''mode''
             (js_insert ''type'' (JStr ''xhttp'') (js_object []))))
         else if kind = ''httpupgrade'' then
           js_object [(''type'', JStr ''httpupgrade''), (''host'', JStr (query_or u ''host'' host)),
             (''path'', JStr (query_or u ''path'' ''/''))]
         else js_object [])"

definition trojan_parse :: "crates \<Rightarrow> string \<Rightarrow> node option" where
  "trojan_parse cr line =
     do { u \<leftarrow> cr_url cr line;
          host \<leftarrow> ur_host u;
          let port = (case ur_port u of Some p \<Rightarrow> p | None \<Rightarrow> 443);
          let password = cr_percent cr (ur_user u);
          if password = [] then None
          else
            (let tls = \<lparr>tl_enabled = (query_or u ''security'' ''tls'' = ''tls''),
                   tl_server_name = query_or u ''sni'' host,
                   tl_insecure = (url_query u ''allowInsecure'' = Some ''1''), tl_alpn = []\<rparr>;
                 name = decode_name cr (Some (case ur_fragment u of Some f \<Rightarrow> f | None \<Rightarrow> [])) (host_port_name host port)
             in Some (build_node TROJAN name host port (js_object [(''password'', JStr password)])
                  (transport_from_query u host) tls password)) }"

definition vless_parse :: "crates \<Rightarrow> string \<Rightarrow> node option" where
  "vless_parse cr line =
     do { u \<leftarrow> cr_url cr line;
          host \<leftarrow> ur_host u;
          let port = (case ur_port u of Some p \<Rightarrow> p | None \<Rightarrow> 443);
          let uuid = cr_percent cr (ur_user u);
          if uuid = [] then None
          else
            (let security = query_or u ''security'' ''none'';
                 tls = \<lparr>tl_enabled = (security = ''tls'' \<or> security = ''reality''),
                   tl_server_name = query_or u ''sni'' host,
                   tl_insecure = (url_query u ''allowInsecure'' = Some ''1''),
                   tl_alpn = (case url_query u ''alpn'' of Some a \<Rightarrow> split_on (CHR '','') a | None \<Rightarrow> [])\<rparr>;
                 auth = js_object [(''uuid'', JStr uuid), (''flow'', JStr (query_or u ''flow'' []))];
                 auth = (if security = ''reality'' then
                           js_insert ''reality'' (js_object [(''public_key'', JStr (query_or u ''pbk'' [])),
                             (''short_id'', JStr (query_or u ''sid'' [])),
                             (''fingerprint'', JStr (query_or u ''fp'' []))]) auth
                         else auth);
                 name = decode_name cr (Some (case ur_fragment u of Some f \<Rightarrow> f | None \<Rightarrow> [])) (host_port_name host port)
             in Some (build_node VLESS name host port auth (transport_from_query u host) tls uuid)) }"

section \<open>VMess\<close>

definition vmess_b64_either :: "crates \<Rightarrow> string \<Rightarrow> u8 list option" where
  "vmess_b64_either cr input =
     (case cr_standard cr (pad_to_4 input) of Some b \<Rightarrow> Some b | None \<Rightarrow> cr_url_safe cr (pad_to_4 input))"

definition get_str :: "json \<Rightarrow> string \<Rightarrow> string" where
  "get_str v key =
     (case js_get v key of
        None \<Rightarrow> []
      | Some (JStr s) \<Rightarrow> s
      | Some other \<Rightarrow> trim_matches_char (CHR 0x22) (js_text other))"

definition vmess_transport :: "string \<Rightarrow> string \<Rightarrow> string \<Rightarrow> string \<Rightarrow> json" where
  "vmess_transport net path ws_host host =
     (if net = ''ws'' then
        js_object [(''type'', JStr ''ws''), (''path'', JStr (if path = [] then ''/'' else path)),
          (''headers'', js_object [(''Host'', JStr (if ws_host = [] then host else ws_host))])]
      else if net = ''grpc'' then js_object [(''type'', JStr ''grpc''), (''service_name'', JStr path)]
      else if net = ''h2'' then js_object [(''type'', JStr ''http''), (''path'', JStr path), (''host'', JStr ws_host)]
      else js_object [])"

definition vmess_parse :: "crates \<Rightarrow> string \<Rightarrow> node option" where
  "vmess_parse cr line =
     do { body \<leftarrow> strip_prefix_str line ''vmess://'';
          bytes \<leftarrow> vmess_b64_either cr (trim body);
          decoded \<leftarrow> from_utf8 bytes;
          v \<leftarrow> cr_json cr decoded;
          let host = get_str v ''add'';
          port \<leftarrow> parse_u16 (get_str v ''port'');
          let uuid = get_str v ''id'';
          if host = [] \<or> uuid = [] then None
          else
            (let scy = get_str v ''scy''; security = (if scy = [] then ''auto'' else scy);
                 ws_host = get_str v ''host''; sni = get_str v ''sni'';
                 tls = \<lparr>tl_enabled = eq_ignore_ascii_case (get_str v ''tls'') ''tls'',
                   tl_server_name = (if sni = [] then ws_host else sni), tl_insecure = False, tl_alpn = []\<rparr>
             in Some (build_node VMESS (decode_name cr None (get_str v ''ps'')) host port
                  (js_object [(''uuid'', JStr uuid), (''alter_id'', JStr (get_str v ''aid'')), (''security'', JStr security)])
                  (vmess_transport (get_str v ''net'') (get_str v ''path'') ws_host host) tls uuid)) }"

section \<open>Lines\<close>

definition parse_line :: "crates \<Rightarrow> string \<Rightarrow> node option" where
  "parse_line cr line =
     (let line = trim line
      in case find_str ''://'' line of
           None \<Rightarrow> None
         | Some i \<Rightarrow>
             (let scheme = to_ascii_lowercase (take i line)
              in if scheme = ''ss'' \<or> scheme = ''shadowsocks'' then ss_parse cr line
                 else if scheme = ''vmess'' then vmess_parse cr line
                 else if scheme = ''vless'' then vless_parse cr line
                 else if scheme = ''trojan'' then trojan_parse cr line
                 else if scheme = ''socks'' \<or> scheme = ''socks5'' then socks_parse cr line
                 else None))"

definition is_placeholder_host :: "string \<Rightarrow> bool" where
  "is_placeholder_host host \<longleftrightarrow> host = ''0.0.0.0'' \<or> host = ''::'' \<or> host = ''[::]''"

fun parse_all :: "crates \<Rightarrow> string list \<Rightarrow> node list \<Rightarrow> nat \<Rightarrow> node list \<times> nat" where
  "parse_all cr [] nodes skipped = (nodes, skipped)"
| "parse_all cr (line # rest) nodes skipped =
     (case parse_line cr line of
        Some n \<Rightarrow>
          if is_placeholder_host (ep_host (nd_endpoint n)) then parse_all cr rest nodes (skipped + 1)
          else parse_all cr rest (nodes @ [n]) skipped
      | None \<Rightarrow> parse_all cr rest nodes (skipped + 1))"

section \<open>Padding\<close>

text \<open>What the base64 crate documents of its two engines, as the parsers rely on it.\<close>

definition b64_laws :: "crates \<Rightarrow> bool" where
  "b64_laws cr \<longleftrightarrow>
     (\<forall>s. CHR ''='' \<in> set s \<longrightarrow> cr_url_safe cr s = None)
   \<and> (\<forall>s. CHR ''-'' \<in> set s \<or> CHR ''_'' \<in> set s \<longrightarrow> cr_standard cr s = None)
   \<and> (\<forall>s b. set s \<inter> {CHR ''-'', CHR ''_'', CHR ''=''} = {} \<longrightarrow> cr_url_safe cr s = Some b
        \<longrightarrow> cr_standard cr (pad_to_4 s) = Some b)"

lemma pad_to_4_id: "length s mod 4 = 0 \<Longrightarrow> pad_to_4 s = s"
  by (simp add: pad_to_4.simps)

lemma pad_to_4_extends: "prefix s (pad_to_4 s) \<and> (length s mod 4 \<noteq> 0 \<longrightarrow> CHR ''='' \<in> set (pad_to_4 s))"
proof (induction s rule: pad_to_4.induct)
  case (1 s)
  show ?case
  proof (cases "length s mod 4 = 0")
    case False
    then have e: "pad_to_4 s = pad_to_4 (s @ ''='')" by (subst pad_to_4.simps) simp
    from 1 [OF False] have p: "prefix (s @ ''='') (pad_to_4 s)" by (simp add: e)
    then have "prefix s (pad_to_4 s)" by (rule append_prefixD)
    moreover from p have "CHR ''='' \<in> set (pad_to_4 s)" by (auto simp: prefix_def)
    ultimately show ?thesis by simp
  qed (simp add: pad_to_4_id)
qed

lemma set_pad_to_4: "set s \<subseteq> set (pad_to_4 s)"
  using pad_to_4_extends [of s] set_mono_prefix by blast

definition padding_survives :: "string \<Rightarrow> bool" where
  \<comment> \<open>a URL-safe text that either engine still reads after padding\<close>
  "padding_survives u \<longleftrightarrow> length u mod 4 = 0 \<or> (CHR ''-'' \<notin> set u \<and> CHR ''_'' \<notin> set u)"

lemma engines_after_padding:
  assumes "b64_laws cr" "CHR ''='' \<notin> set u" "cr_url_safe cr u = Some b"
  shows "length u mod 4 = 0 \<Longrightarrow> cr_url_safe cr (pad_to_4 u) = Some b"
    and "length u mod 4 \<noteq> 0 \<Longrightarrow> cr_url_safe cr (pad_to_4 u) = None"
    and "length u mod 4 \<noteq> 0 \<Longrightarrow> cr_standard cr (pad_to_4 u) = (if padding_survives u then Some b else None)"
proof -
  show "length u mod 4 = 0 \<Longrightarrow> cr_url_safe cr (pad_to_4 u) = Some b"
    using assms(3) by (simp add: pad_to_4_id)
  show "length u mod 4 \<noteq> 0 \<Longrightarrow> cr_url_safe cr (pad_to_4 u) = None"
    using assms(1) pad_to_4_extends [of u] by (simp add: b64_laws_def)
  assume l: "length u mod 4 \<noteq> 0"
  show "cr_standard cr (pad_to_4 u) = (if padding_survives u then Some b else None)"
  proof (cases "padding_survives u")
    case True
    with l assms(2) have "set u \<inter> {CHR ''-'', CHR ''_'', CHR ''=''} = {}" by (auto simp: padding_survives_def)
    with assms(1,3) have "cr_standard cr (pad_to_4 u) = Some b" unfolding b64_laws_def by blast
    with True show ?thesis by simp
  next
    case False
    with l have "CHR ''-'' \<in> set (pad_to_4 u) \<or> CHR ''_'' \<in> set (pad_to_4 u)"
      using set_pad_to_4 [of u] by (auto simp: padding_survives_def)
    with assms(1) False show ?thesis by (auto simp: b64_laws_def)
  qed
qed

lemma ss_b64_either_exact:
  assumes "b64_laws cr" "CHR ''='' \<notin> set u" "cr_url_safe cr u = Some b"
  shows "ss_b64_either cr u = (if padding_survives u then Some b else None)"
proof (cases "length u mod 4 = 0")
  case True
  with engines_after_padding(1) [OF assms] show ?thesis by (simp add: ss_b64_either_def padding_survives_def)
next
  case False
  with engines_after_padding(2,3) [OF assms] show ?thesis by (simp add: ss_b64_either_def)
qed

text \<open>The same for a whole body in URL-safe base64, as providers ship it.\<close>

lemma decode_body_url_safe:
  assumes "b64_laws cr" "CHR ''='' \<notin> set u" "cr_url_safe cr u = Some (as_bytes text)"
    and "trim u = u" "u \<noteq> []" "\<not> str_contains u ''://''"
    and "utf8_valid (as_bytes text)" "str_contains text ''://''"
  shows "decode_body cr u = (if padding_survives u then split_lines text else [])"
proof -
  have t: "uri_list (Some (as_bytes text)) = Some (split_lines text)" "uri_list None = None"
    using assms(7,8) by (simp_all add: uri_list_def from_utf8_def as_bytes_def comp_def)
  show ?thesis
  proof (cases "length u mod 4 = 0")
    case True
    with engines_after_padding(1) [OF assms(1-3)] assms(4-6) t show ?thesis
      by (simp add: decode_body_def padding_survives_def)
  next
    case False
    with engines_after_padding(2,3) [OF assms(1-3)] assms(4-6) t show ?thesis
      by (simp add: decode_body_def)
  qed
qed

section \<open>Shadowsocks links\<close>

lemma nat_str_chars: "c \<in> set (nat_str n) \<Longrightarrow> 48 \<le> (of_char c :: nat) \<and> (of_char c :: nat) \<le> 57"
  using nat_str_radix_correct [of 10 n] by (auto simp: nat_str_def digit_char_def)

lemma nat_str_not_empty: "nat_str n \<noteq> []"
  using nat_str_radix_correct [of 10 n] by (simp add: nat_str_def)

lemma nat_str_clean:
  "CHR '':'' \<notin> set (nat_str n)" "CHR ''#'' \<notin> set (nat_str n)" "CHR ''?'' \<notin> set (nat_str n)"
  by (auto dest: nat_str_chars)

lemma parse_u16_nat_str: "parse_u16 (nat_str (unat p)) = Some p"
proof -
  have "unat p < 65536" using unsigned_less [of p] by simp
  then have "unat p \<le> 65535" by simp
  then show ?thesis by (simp add: parse_u16_def parse_uint_nat_str)
qed

definition plain_host :: "string \<Rightarrow> bool" where
  \<comment> \<open>a host name or IPv4 address as it stands in a link\<close>
  "plain_host h \<longleftrightarrow> h \<noteq> [] \<and> 32 < (of_char (hd h) :: nat) \<and> (of_char (hd h) :: nat) < 128
     \<and> hd h \<noteq> CHR ''['' \<and> CHR ''#'' \<notin> set h \<and> CHR ''?'' \<notin> set h"

lemma split_hostport_plain:
  assumes "plain_host h"
  shows "split_hostport (h @ '':'' @ nat_str (unat p)) d = Some (h, p)"
proof -
  let ?s = "h @ '':'' @ nat_str (unat p)"
  have hd: "hd ?s = hd h" using assms by (simp add: plain_host_def)
  have "last ?s = last (nat_str (unat p))" using nat_str_not_empty [of "unat p"] by simp
  then have last: "48 \<le> (of_char (last ?s) :: nat) \<and> (of_char (last ?s) :: nat) \<le> 57"
    using nat_str_chars [of "last (nat_str (unat p))" "unat p"] last_in_set [OF nat_str_not_empty] by simp
  have "trim ?s = ?s"
    by (rule trim_id) (use assms hd last in \<open>auto simp: plain_host_def\<close>)
  moreover have "\<not> prefix ''['' ?s" using assms by (cases h) (auto simp: plain_host_def)
  moreover have "rsplit_once (CHR '':'') ?s = Some (h, nat_str (unat p))"
    using rsplit_once_append [OF nat_str_clean(1)] by simp
  ultimately show ?thesis
    by (simp add: split_hostport_def strip_prefix_str_def parse_u16_nat_str Let_def)
qed


definition demo_crates :: crates where
  \<comment> \<open>engines that read one text, the credentials \<^verbatim>\<open>rc4:~~\<close>\<close>
  "demo_crates =
     \<lparr>cr_url_safe = (\<lambda>s. if s = ''cmM0On5-'' then Some (as_bytes ''rc4:~~'')
        else if s = ''cmM0OnB-fn4'' then Some (as_bytes ''rc4:p~~~'') else None),
      cr_standard = (\<lambda>_. None), cr_percent = id,
      cr_url = (\<lambda>_. Some \<lparr>ur_host = Some ''h'', ur_port = Some 80, ur_user = [], ur_pass = None,
        ur_fragment = Some ''N'', ur_query = []\<rparr>), cr_json = (\<lambda>_. None)\<rparr>"

lemma demo_crates_laws: "b64_laws demo_crates"
  by (auto simp: b64_laws_def demo_crates_def)


section \<open>Lists of lines\<close>

definition from_link :: "node \<Rightarrow> bool" where
  "from_link n \<longleftrightarrow> (\<exists>i. nd_id n = stable_id (nd_protocol n) (ep_host (nd_endpoint n)) (ep_port (nd_endpoint n)) i)
     \<and> nd_protocol n \<in> set SUPPORTED \<and> nd_subscription_id n = [] \<and> nd_enabled n"

lemma from_link_build_node: "p \<in> set SUPPORTED \<Longrightarrow> from_link (build_node p name h pt a t tls i)"
  by (auto simp: from_link_def build_node_def)

lemma protocols_supported:
  "SHADOWSOCKS \<in> set SUPPORTED" "VMESS \<in> set SUPPORTED" "VLESS \<in> set SUPPORTED"
  "TROJAN \<in> set SUPPORTED" "SOCKS \<in> set SUPPORTED"
  by (simp_all add: SUPPORTED_def)

lemmas built = from_link_build_node [OF protocols_supported(1)] from_link_build_node [OF protocols_supported(2)]
  from_link_build_node [OF protocols_supported(3)] from_link_build_node [OF protocols_supported(4)]
  from_link_build_node [OF protocols_supported(5)]

lemma ss_from_link: "ss_parse cr l = Some n \<Longrightarrow> from_link n"
  by (auto simp: ss_parse_def ss_node_def Let_def built split: bind_splits if_splits prod.splits option.splits)

lemma socks_from_link: "socks_parse cr l = Some n \<Longrightarrow> from_link n"
  by (auto simp: socks_parse_def Let_def built split: bind_splits if_splits)

lemma trojan_from_link: "trojan_parse cr l = Some n \<Longrightarrow> from_link n"
  by (auto simp: trojan_parse_def Let_def built split: bind_splits if_splits)

lemma vless_from_link: "vless_parse cr l = Some n \<Longrightarrow> from_link n"
  by (auto simp: vless_parse_def Let_def built split: bind_splits if_splits)

lemma vmess_from_link: "vmess_parse cr l = Some n \<Longrightarrow> from_link n"
  by (auto simp: vmess_parse_def Let_def built split: bind_splits if_splits)

lemma parse_line_from_link: "parse_line cr l = Some n \<Longrightarrow> from_link n"
  by (auto simp: parse_line_def Let_def ss_from_link socks_from_link trojan_from_link vless_from_link vmess_from_link
      split: option.splits if_splits)

text \<open>The long name of the scheme is dispatched to a parser that refuses it.\<close>

lemma ss_parse_scheme: "\<not> prefix ''ss://'' l \<Longrightarrow> ss_parse cr l = None"
  by (simp add: ss_parse_def strip_prefix_str_def)

lemma shadowsocks_scheme_never_parses:
  "prefix ''shadowsocks://'' (trim l) \<Longrightarrow> parse_line cr l = None"
proof -
  assume "prefix ''shadowsocks://'' (trim l)"
  then obtain r where t: "trim l = ''shadowsocks'' @ ''://'' @ r" by (auto simp: prefix_def)
  moreover have "find_str ''://'' (''shadowsocks'' @ ''://'' @ r) = Some 11"
    using find_str_sep [of "''shadowsocks''" r] by simp
  moreover have "ss_parse cr (''shadowsocks'' @ ''://'' @ r) = None"
    by (rule ss_parse_scheme) simp
  ultimately show ?thesis by (simp add: parse_line_def Let_def to_ascii_lowercase_def ascii_lower_char_def)
qed

definition usable_link :: "crates \<Rightarrow> string \<Rightarrow> node option" where
  \<comment> \<open>the node of a line that stands for a server\<close>
  "usable_link cr l = Option.bind (parse_line cr l) (\<lambda>n. if is_placeholder_host (ep_host (nd_endpoint n)) then None else Some n)"

lemma parse_all_acc:
  "parse_all cr ls ns k = (ns @ List.map_filter (usable_link cr) ls, k + length (filter (\<lambda>l. usable_link cr l = None) ls))"
  by (induction cr ls ns k rule: parse_all.induct)
    (auto simp: usable_link_def List.map_filter_simps split: option.split)

lemma map_filter_split: "length (List.map_filter f xs) + length (filter (\<lambda>x. f x = None) xs) = length xs"
  by (induction xs) (auto simp: List.map_filter_simps split: option.split)

lemma usable_from_link: "usable_link cr l = Some n \<Longrightarrow> from_link n \<and> \<not> is_placeholder_host (ep_host (nd_endpoint n))"
  by (auto simp: usable_link_def parse_line_from_link split: bind_splits if_splits)



end
