(* ===== verification/Secret_Store.thy ===== *)
theory Secret_Store
  imports Common
begin

text \<open>
  \<^verbatim>\<open>config/crypto.rs\<close>, as built for Windows: texts protected by the operating system before
  they reach the disk.  The two calls of the data protection interface, the base64 engine and
  the texts of their errors are the fields of a record.
\<close>

record vault =
  vt_protect :: "u8 list \<Rightarrow> string + u8 list"
  vt_unprotect :: "u8 list \<Rightarrow> string + u8 list"
  vt_encode :: "u8 list \<Rightarrow> string"
  vt_decode :: "string \<Rightarrow> string + u8 list"
  vt_utf8_error :: "u8 list \<Rightarrow> string"

definition WIN_PREFIX :: string where "WIN_PREFIX = ''dpapi:''"
definition DEV_PREFIX :: string where "DEV_PREFIX = ''devb64:''"

definition protect :: "vault \<Rightarrow> string \<Rightarrow> svc_error + string" where
  "protect vt plaintext =
     (if plaintext = [] then Inr []
      else case vt_protect vt (as_bytes plaintext) of
             Inl e \<Rightarrow> Inl (Other (''DPAPI protect failed: '' @ e))
           | Inr protected \<Rightarrow> Inr (WIN_PREFIX @ vt_encode vt protected))"

definition utf8_text :: "vault \<Rightarrow> u8 list \<Rightarrow> svc_error + string" where
  \<comment> \<open>\<^verbatim>\<open>String::from_utf8\<close> with its error\<close>
  "utf8_text vt bytes =
     (case from_utf8 bytes of Some s \<Rightarrow> Inr s | None \<Rightarrow> Inl (Other (vt_utf8_error vt bytes)))"

definition unprotect :: "vault \<Rightarrow> string \<Rightarrow> svc_error + string" where
  "unprotect vt stored =
     (if stored = [] then Inr []
      else case strip_prefix_str stored WIN_PREFIX of
             Some b64 \<Rightarrow>
               (case vt_decode vt b64 of
                  Inl e \<Rightarrow> Inl (Other (''corrupt protected payload: '' @ e))
                | Inr raw \<Rightarrow>
                    (case vt_unprotect vt raw of
                       Inl e \<Rightarrow> Inl (Other (''DPAPI unprotect failed: '' @ e))
                     | Inr bytes \<Rightarrow> utf8_text vt bytes))
           | None \<Rightarrow>
               (case strip_prefix_str stored DEV_PREFIX of
                  Some b64 \<Rightarrow>
                    (case vt_decode vt b64 of
                       Inl e \<Rightarrow> Inl (Other (''corrupt dev payload: '' @ e))
                     | Inr raw \<Rightarrow> utf8_text vt raw)
                | None \<Rightarrow> Inr stored))"

section \<open>Round trip\<close>

text \<open>What the two libraries document: each direction undoes the other.\<close>

definition vault_laws :: "vault \<Rightarrow> bool" where
  "vault_laws vt \<longleftrightarrow>
     (\<forall>b c. vt_protect vt b = Inr c \<longrightarrow> vt_unprotect vt c = Inr b) \<and> (\<forall>b. vt_decode vt (vt_encode vt b) = Inr b)"

lemma unprotect_protect:
  assumes "vault_laws vt" "utf8_valid (as_bytes p)" "protect vt p = Inr c"
  shows "unprotect vt c = Inr p"
proof (cases "p = []")
  case True
  with assms(3) show ?thesis by (simp add: protect_def unprotect_def)
next
  case False
  with assms(3) obtain b where b: "vt_protect vt (as_bytes p) = Inr b" "c = WIN_PREFIX @ vt_encode vt b"
    by (auto simp: protect_def split: sum.splits)
  have "from_utf8 (as_bytes p) = Some p"
    using assms(2) by (simp add: from_utf8_def as_bytes_def comp_def)
  with b assms(1) show ?thesis
    by (simp add: unprotect_def vault_laws_def strip_prefix_str_def utf8_text_def WIN_PREFIX_def)
qed

text \<open>A text without either prefix is taken as it is.\<close>

lemma unprotect_plain:
  "\<not> prefix WIN_PREFIX s \<Longrightarrow> \<not> prefix DEV_PREFIX s \<Longrightarrow> unprotect vt s = Inr s"
  by (simp add: unprotect_def strip_prefix_str_def)

end
