(* ===== verification/Sub_Manager.thy ===== *)
theory Sub_Manager
  imports Sub_Parser Secret_Store "HOL-Library.Option_ord"
begin

text \<open>
  \<^verbatim>\<open>subscription/manager.rs\<close> and \<^verbatim>\<open>subscription/downloader.rs\<close>: the subscriptions, their edits
  and the refresh that replaces the nodes of one.  A refresh gives up the executor while it
  downloads, so it is two steps, with any other operation possibly between them.
\<close>

fun and_then :: "'e + 'a \<Rightarrow> ('a \<Rightarrow> 'e + 'b) \<Rightarrow> 'e + 'b" where
  \<comment> \<open>the question mark after a call\<close>
  "and_then (Inl e) f = Inl e"
| "and_then (Inr x) f = f x"

section \<open>State\<close>

record update_policy =
  up_interval_secs :: int
  up_last_updated :: int

definition update_policy_default :: update_policy where
  "update_policy_default = \<lparr>up_interval_secs = 86400, up_last_updated = 0\<rparr>"

record subscription =
  sb_id :: string
  sb_name :: string
  sb_url :: string
  sb_enabled :: bool
  sb_update :: update_policy
  sb_node_ids :: "string list"

record subscription_input =
  si_name :: string
  si_url :: string
  si_enabled :: bool
  si_interval_secs :: int

datatype sub_event = SubscriptionUpdated string string u32 | SubscriptionFailed string string string

record sub_manager =
  sm_items :: "(string \<times> subscription) list"
  sm_in_flight :: "string set"
  sm_paths :: paths
  sm_events :: "sub_event list"

type_synonym sub_state = "sub_manager \<times> node_manager \<times> fs"

text \<open>The libraries the operations use: data protection, parsers and the two directions of JSON.\<close>

record sub_env =
  se_vault :: vault
  se_crates :: crates
  se_nodes_text :: "node list \<Rightarrow> string"
  se_subs_text :: "subscription list \<Rightarrow> string"

definition plaintext_url :: "vault \<Rightarrow> subscription \<Rightarrow> svc_error + string" where
  "plaintext_url vt s = unprotect vt (sb_url s)"

definition policy_json :: "update_policy \<Rightarrow> json" where
  \<comment> \<open>the derived serialisation\<close>
  "policy_json p =
     js_object [(''interval_secs'', JInt (up_interval_secs p)), (''last_updated'', JInt (up_last_updated p))]"

definition to_view :: "vault \<Rightarrow> subscription \<Rightarrow> json" where
  "to_view vt s =
     (let masked = (case plaintext_url vt s of Inr u \<Rightarrow> mask_url u | Inl _ \<Rightarrow> ''****'')
      in js_object [(''id'', JStr (sb_id s)), (''name'', JStr (sb_name s)), (''url'', JStr masked),
           (''enabled'', JBool (sb_enabled s)), (''update'', policy_json (sb_update s)),
           (''node_ids'', JArr (map JStr (sb_node_ids s)))])"

definition subs_load :: "(string \<Rightarrow> string + subscription list) \<Rightarrow> paths \<Rightarrow> fs \<Rightarrow> sub_manager" where
  "subs_load de ps disk =
     \<lparr>sm_items = foldl (\<lambda>m s. map_insert (sb_id s) s m) [] (read_json_or de [] disk (subscriptions_path ps)),
      sm_in_flight = {}, sm_paths = ps, sm_events = []\<rparr>"

definition list_views :: "vault \<Rightarrow> sub_manager \<Rightarrow> json list" where
  "list_views vt m = sort_key (\<lambda>v. js_str (js_at v ''name'')) (map (to_view vt \<circ> snd) (sm_items m))"

definition subs_persist :: "sub_env \<Rightarrow> write_io \<Rightarrow> sub_state \<Rightarrow> sub_state \<times> (svc_error + unit)" where
  "subs_persist env io s =
     (case s of (m, nm, disk) \<Rightarrow>
        (case atomic_write io disk (subscriptions_path (sm_paths m)) (se_subs_text env (map snd (sm_items m))) of
           (disk, r) \<Rightarrow> ((m, nm, disk), r)))"

section \<open>Editing\<close>

definition subs_add ::
  "sub_env \<Rightarrow> write_io \<Rightarrow> string \<Rightarrow> sub_state \<Rightarrow> subscription_input \<Rightarrow> sub_state \<times> (svc_error + subscription)" where
  "subs_add env io uuid s inp =
     (if trim (si_name inp) = [] \<or> trim (si_url inp) = [] then
        (s, Inl (ConfigInvalid ''subscription name/url required''))
      else case protect (se_vault env) (trim (si_url inp)) of
             Inl e \<Rightarrow> (s, Inl e)
           | Inr c \<Rightarrow>
               (let sub = \<lparr>sb_id = ''sub_'' @ uuid, sb_name = si_name inp, sb_url = c, sb_enabled = si_enabled inp,
                      sb_update = \<lparr>up_interval_secs = (if si_interval_secs inp > 0 then si_interval_secs inp else 86400),
                                   up_last_updated = 0\<rparr>,
                      sb_node_ids = []\<rparr>;
                    m = (fst s)\<lparr>sm_items := map_insert (sb_id sub) sub (sm_items (fst s))\<rparr>
                in case subs_persist env io (m, snd s) of
                     (s, Inl e) \<Rightarrow> (s, Inl e)
                   | (s, Inr _) \<Rightarrow> (s, Inr sub)))"

definition map_modify :: "'k \<Rightarrow> ('v \<Rightarrow> 'v) \<Rightarrow> ('k \<times> 'v) list \<Rightarrow> ('k \<times> 'v) list" where
  \<comment> \<open>\<^verbatim>\<open>get_mut\<close> and a change in place\<close>
  "map_modify k f m = map (\<lambda>(k', v). (k', if k' = k then f v else v)) m"

definition new_url :: "vault \<Rightarrow> string option \<Rightarrow> subscription \<Rightarrow> svc_error + subscription" where
  \<comment> \<open>an address that is given and not blank is protected and stored\<close>
  "new_url vt url sub =
     (case url of
        None \<Rightarrow> Inr sub
      | Some u \<Rightarrow>
          if trim u = [] then Inr sub
          else (case protect vt (trim u) of Inl e \<Rightarrow> Inl e | Inr c \<Rightarrow> Inr (sub\<lparr>sb_url := c\<rparr>)))"

definition update_fields ::
  "sub_env \<Rightarrow> write_io \<Rightarrow> sub_state \<Rightarrow> string \<Rightarrow> string option \<Rightarrow> string option \<Rightarrow> bool option \<Rightarrow> int option
     \<Rightarrow> sub_state \<times> (svc_error + unit)" where
  "update_fields env io s i name url enabled interval =
     (case map_of (sm_items (fst s)) i of
        None \<Rightarrow> (s, Inl (NotFound (''subscription '' @ i)))
      | Some sub \<Rightarrow>
          (let put = (\<lambda>sub. ((fst s)\<lparr>sm_items := map_modify i (\<lambda>_. sub) (sm_items (fst s))\<rparr>, snd s));
               sub = (case name of Some n \<Rightarrow> sub\<lparr>sb_name := n\<rparr> | None \<Rightarrow> sub)
           in case new_url (se_vault env) url sub of
                Inl e \<Rightarrow> (put sub, Inl e)
              | Inr sub \<Rightarrow>
                  (let sub = (case enabled of Some e \<Rightarrow> sub\<lparr>sb_enabled := e\<rparr> | None \<Rightarrow> sub);
                       sub = (case interval of
                                Some t \<Rightarrow> if t > 0 then sub\<lparr>sb_update := (sb_update sub)\<lparr>up_interval_secs := t\<rparr>\<rparr> else sub
                              | None \<Rightarrow> sub)
                   in subs_persist env io (put sub))))"

definition subs_delete ::
  "sub_env \<Rightarrow> write_io \<Rightarrow> write_io \<Rightarrow> sub_state \<Rightarrow> string \<Rightarrow> sub_state \<times> (svc_error + unit)" where
  "subs_delete env io_nodes io_subs s i =
     (if map_of (sm_items (fst s)) i = None then (s, Inl (NotFound (''subscription '' @ i)))
      else
        (let m = (fst s)\<lparr>sm_items := map_remove i (sm_items (fst s))\<rparr>
         in case replace_subscription_nodes (se_nodes_text env) io_nodes (snd s) i [] of
              (nodes, _) \<Rightarrow> subs_persist env io_subs (m, nodes)))"

section \<open>Refreshing\<close>

text \<open>The answer to a request: an error, or a status with its text and the body.\<close>

datatype http_reply = Http_error string | Http_reply nat string "string + string"

definition fetch :: "(string \<Rightarrow> http_reply) \<Rightarrow> string \<Rightarrow> svc_error + string" where
  "fetch net url =
     (if \<not> (prefix ''https://'' url \<or> prefix ''http://'' url) then
        Inl (Subscription ''subscription url must be http(s)'')
      else case net url of
             Http_error e \<Rightarrow> Inl (Http e)
           | Http_reply code status text \<Rightarrow>
               if \<not> (200 \<le> code \<and> code < 300) then Inl (Subscription (''http status '' @ status))
               else (case text of
                       Inl e \<Rightarrow> Inl (Http e)
                     | Inr body \<Rightarrow>
                         if trim body = [] then Inl (Subscription ''empty subscription body'') else Inr body))"

record refresh_io =
  ri_net :: "string \<Rightarrow> http_reply"
  ri_nodes :: write_io
  ri_subs :: write_io
  ri_now :: int

definition refresh_url :: "sub_env \<Rightarrow> sub_manager \<Rightarrow> string \<Rightarrow> svc_error + string" where
  "refresh_url env m i =
     (case map_of (sm_items m) i of
        None \<Rightarrow> Inl (NotFound (''subscription '' @ i))
      | Some sub \<Rightarrow> plaintext_url (se_vault env) sub)"

fun validate_all :: "node list \<Rightarrow> svc_error + unit" where
  "validate_all [] = Inr ()"
| "validate_all (n # ns) =
     (case node_validate n of Inl e \<Rightarrow> Inl (Subscription e) | Inr _ \<Rightarrow> validate_all ns)"

definition body_nodes :: "crates \<Rightarrow> string \<Rightarrow> svc_error + node list" where
  "body_nodes cr body =
     (let lines = decode_body cr body
      in if lines = [] then Inl (Subscription ''no parseable node URIs in subscription'')
         else case parse_all cr lines [] 0 of
                (nodes, skipped) \<Rightarrow>
                  if nodes = [] then Inl (Subscription ''all subscription lines failed to parse'')
                  else (case validate_all nodes of Inl e \<Rightarrow> Inl e | Inr _ \<Rightarrow> Inr nodes))"

definition store_nodes ::
  "sub_env \<Rightarrow> refresh_io \<Rightarrow> sub_state \<Rightarrow> string \<Rightarrow> node list \<Rightarrow> sub_state \<times> (svc_error + u32)" where
  "store_nodes env ro s i nodes =
     (case replace_subscription_nodes (se_nodes_text env) (ri_nodes ro) (snd s) i nodes of
        (nd, Inl e) \<Rightarrow> ((fst s, nd), Inl e)
      | (nd, Inr ids) \<Rightarrow>
          (let m = (fst s)\<lparr>sm_items := map_modify i
                     (\<lambda>sub. sub\<lparr>sb_node_ids := ids, sb_update := (sb_update sub)\<lparr>up_last_updated := ri_now ro\<rparr>\<rparr>)
                     (sm_items (fst s))\<rparr>
           in case subs_persist env (ri_subs ro) (m, nd) of
                (s, Inl e) \<Rightarrow> (s, Inl e)
              | (s, Inr _) \<Rightarrow> (s, Inr (of_nat (length ids)))))"

definition sub_name :: "sub_manager \<Rightarrow> string \<Rightarrow> string" where
  "sub_name m i = (case map_of (sm_items m) i of Some s \<Rightarrow> sb_name s | None \<Rightarrow> [])"

definition refresh_tail :: "sub_state \<Rightarrow> string \<Rightarrow> svc_error + u32 \<Rightarrow> sub_state" where
  "refresh_tail s i r =
     (let m = (fst s)\<lparr>sm_in_flight := sm_in_flight (fst s) - {i}\<rparr>;
          e = (case r of
                 Inr count \<Rightarrow> SubscriptionUpdated i (sub_name m i) count
               | Inl e \<Rightarrow> SubscriptionFailed i (sub_name m i) (err_display e))
      in (m\<lparr>sm_events := e # sm_events m\<rparr>, snd s))"

definition refresh_begin :: "sub_env \<Rightarrow> sub_state \<Rightarrow> string \<Rightarrow> sub_state \<times> (svc_error + (svc_error + string))" where
  \<comment> \<open>up to the download: refused, or the address to ask (or the error that ends the refresh)\<close>
  "refresh_begin env s i =
     (if i \<in> sm_in_flight (fst s) then (s, Inl (AlreadyRunning (''refresh '' @ i)))
      else (((fst s)\<lparr>sm_in_flight := insert i (sm_in_flight (fst s))\<rparr>, snd s), Inr (refresh_url env (fst s) i)))"

definition refresh_finish ::
  "sub_env \<Rightarrow> refresh_io \<Rightarrow> sub_state \<Rightarrow> string \<Rightarrow> svc_error + string \<Rightarrow> sub_state \<times> (svc_error + u32)" where
  \<comment> \<open>from the answer to the download on\<close>
  "refresh_finish env ro s i answer =
     (case (case and_then answer (body_nodes (se_crates env)) of
              Inl e \<Rightarrow> (s, Inl e)
            | Inr nodes \<Rightarrow> store_nodes env ro s i nodes) of
        (s, r) \<Rightarrow> (refresh_tail s i r, r))"

definition refresh :: "sub_env \<Rightarrow> refresh_io \<Rightarrow> sub_state \<Rightarrow> string \<Rightarrow> sub_state \<times> (svc_error + u32)" where
  "refresh env ro s i =
     (case refresh_begin env s i of
        (s, Inl e) \<Rightarrow> (s, Inl e)
      | (s, Inr url) \<Rightarrow> refresh_finish env ro s i (and_then url (fetch (ri_net ro))))"

definition sat_i64 :: "int \<Rightarrow> int" where
  "sat_i64 x = max (- (2 ^ 63)) (min (2 ^ 63 - 1) x)"

definition is_due :: "int \<Rightarrow> subscription \<Rightarrow> bool" where
  "is_due now s \<longleftrightarrow>
     (if \<not> sb_enabled s then False
      else if up_last_updated (sb_update s) = 0 then True
      else (let interval_ms = sat_i64 (max (up_interval_secs (sb_update s)) 60 * 1000)
            in sat_i64 (now - up_last_updated (sb_update s)) \<ge> interval_ms))"

definition refresh_due :: "sub_env \<Rightarrow> (string \<Rightarrow> refresh_io) \<Rightarrow> int \<Rightarrow> sub_state \<Rightarrow> sub_state" where
  "refresh_due env ros now s =
     foldl (\<lambda>s i. fst (refresh env (ros i) s i)) s
       (map (sb_id \<circ> snd) (filter (is_due now \<circ> snd) (sm_items (fst s))))"

end
