(* ===== verification/Sub_Refresh.thy ===== *)
theory Sub_Refresh
  imports Sub_Manager
begin

text \<open>
  What a refresh of a subscription does, for every failure of its stages, and which nodes the
  subscriptions own along any interleaving of downloads with edits.
\<close>

section \<open>Writes\<close>

definition io_ok :: "write_io \<Rightarrow> bool" where
  "io_ok io \<longleftrightarrow> io_mkdir io = None \<and> io_encode io = None \<and> io_write io = None \<and> io_rename io = None"

lemma atomic_write_is_ok: "is_ok (snd (atomic_write io disk p body)) \<longleftrightarrow> io_ok io"
  by (auto simp: atomic_write_def io_ok_def Let_def split: option.split)

lemma atomic_write_cases:
  obtains (written) disk' where "io_ok io" "atomic_write io disk p body = (disk', Inr ())"
  | (failed) disk' e where "\<not> io_ok io" "atomic_write io disk p body = (disk', Inl e)"
  using atomic_write_is_ok [of io disk p body]
  by (cases "atomic_write io disk p body"; cases "snd (atomic_write io disk p body)") auto

section \<open>The swap of the nodes\<close>

abbreviation owned_by :: "string \<Rightarrow> node \<Rightarrow> node" where
  "owned_by i n \<equiv> n\<lparr>nd_subscription_id := i\<rparr>"

definition swapped :: "(string \<times> node) list \<Rightarrow> string \<Rightarrow> node list \<Rightarrow> (string \<times> node) list" where
  "swapped g i ns =
     foldl (\<lambda>g n. map_insert (nd_id n) n g) (filter (\<lambda>(_, n). nd_subscription_id n \<noteq> i) g) (map (owned_by i) ns)"

definition refreshed :: "(string \<Rightarrow> node option) \<Rightarrow> string \<Rightarrow> node list \<Rightarrow> string \<Rightarrow> node option" where
  \<comment> \<open>the last of the new nodes with the id, else a node of somebody else\<close>
  "refreshed old i ns k =
     (case map_of (rev (map (\<lambda>n. (nd_id n, owned_by i n)) ns)) k of
        Some n \<Rightarrow> Some n
      | None \<Rightarrow> (case old k of Some n \<Rightarrow> if nd_subscription_id n = i then None else Some n | None \<Rightarrow> None))"

lemma map_of_filter_value:
  "distinct (map fst g) \<Longrightarrow>
     map_of (filter (\<lambda>(_, v). P v) g) k = (case map_of g k of Some v \<Rightarrow> if P v then Some v else None | None \<Rightarrow> None)"
proof (induction g)
  case (Cons a g)
  then have "fst a = k \<Longrightarrow> map_of g k = None" by (auto simp: map_of_eq_None_iff)
  with Cons show ?case by (auto split: option.split)
qed simp

lemma swapped_lookup:
  "nodes_ok g \<Longrightarrow> map_of (swapped g i ns) k = refreshed (map_of g) i ns k"
  by (auto simp: swapped_def map_of_foldl_insert comp_def refreshed_def nodes_ok_def map_of_filter_value
      map_add_def split: option.split)

lemma nodes_ok_swapped: "nodes_ok g \<Longrightarrow> nodes_ok (swapped g i ns)"
  unfolding swapped_def by (intro nodes_ok_foldl nodes_ok_filter)

lemma insert_incoming_valid:
  "\<forall>n \<in> set ns. node_valid n \<Longrightarrow>
     insert_incoming i g ids ns
     = (foldl (\<lambda>g n. map_insert (nd_id n) n g) g (map (owned_by i) ns), Inr (ids @ map nd_id ns))"
  by (induction ns arbitrary: g ids) (simp_all add: node_valid_def)

lemma replace_valid:
  assumes "\<forall>n \<in> set ns. node_valid n"
  shows "replace_subscription_nodes ser io (nm, disk) i ns =
           (case nodes_persist ser io (nm\<lparr>nm_nodes := swapped (nm_nodes nm) i ns\<rparr>, disk) of
              (s, Inl e) \<Rightarrow> (s, Inl e) | (s, Inr _) \<Rightarrow> (s, Inr (map nd_id ns)))"
  using insert_incoming_valid [OF assms] by (simp add: replace_subscription_nodes_def swapped_def Let_def)

text \<open>The outcome of storing valid nodes: a failed write, and which one, or none.\<close>

lemma replace_cases:
  assumes "\<forall>n \<in> set ns. node_valid n"
  obtains (written) disk' where "io_ok io"
      "replace_subscription_nodes ser io (nm, disk) i ns = ((nm\<lparr>nm_nodes := swapped (nm_nodes nm) i ns\<rparr>, disk'), Inr (map nd_id ns))"
  | (failed) disk' e where "\<not> io_ok io" "disk' (nodes_path (nm_paths nm)) = disk (nodes_path (nm_paths nm))"
      "replace_subscription_nodes ser io (nm, disk) i ns = ((nm\<lparr>nm_nodes := swapped (nm_nodes nm) i ns\<rparr>, disk'), Inl e)"
proof (cases rule: atomic_write_cases [of io disk "nodes_path (nm_paths nm)" "ser (nodes_list (nm\<lparr>nm_nodes := swapped (nm_nodes nm) i ns\<rparr>))"])
  case (written disk')
  then show ?thesis by (intro that(1)) (simp_all add: replace_valid [OF assms] nodes_persist_def)
next
  case (failed disk' e)
  moreover have "disk' (nodes_path (nm_paths nm)) = disk (nodes_path (nm_paths nm))"
    by (rule atomic_write_err [OF _ failed(2)]) (simp add: nodes_path_def)
  ultimately show ?thesis by (intro that(2)) (simp_all add: replace_valid [OF assms] nodes_persist_def)
qed

lemma subs_persist_cases:
  obtains (written) disk' where "io_ok io" "subs_persist env io (m, nm, disk) = ((m, nm, disk'), Inr ())"
  | (failed) disk' e where "\<not> io_ok io" "subs_persist env io (m, nm, disk) = ((m, nm, disk'), Inl e)"
  by (rule atomic_write_cases [of io disk "subscriptions_path (sm_paths m)" "se_subs_text env (map snd (sm_items m))"])
    (auto simp: subs_persist_def)

section \<open>The stages before the store\<close>

lemma validate_all_iff: "validate_all ns = Inr u \<longleftrightarrow> (\<forall>n \<in> set ns. node_valid n)"
  by (induction ns) (auto simp: node_valid_def split: sum.split)

lemma body_nodes_valid: "body_nodes cr body = Inr ns \<Longrightarrow> ns \<noteq> [] \<and> (\<forall>n \<in> set ns. node_valid n)"
  by (auto simp: body_nodes_def Let_def validate_all_iff split: if_splits prod.splits sum.splits)

definition wanted :: "sub_env \<Rightarrow> refresh_io \<Rightarrow> sub_manager \<Rightarrow> string \<Rightarrow> svc_error + node list" where
  \<comment> \<open>the address, the download, the decoding, the parsing and the validation\<close>
  "wanted env ro m i =
     and_then (and_then (refresh_url env m i) (fetch (ri_net ro))) (body_nodes (se_crates env))"

lemma and_then_Inr: "and_then r f = Inr y \<longleftrightarrow> (\<exists>x. r = Inr x \<and> f x = Inr y)"
  by (cases r) simp_all

lemma wanted_valid: "wanted env ro m i = Inr ns \<Longrightarrow> ns \<noteq> [] \<and> (\<forall>n \<in> set ns. node_valid n)"
  by (auto simp: wanted_def and_then_Inr dest: body_nodes_valid)

lemma map_modify_keys: "fst ` set (map_modify k f m) = fst ` set m"
  by (force simp: map_modify_def)

lemma map_of_map_modify: "map_of (map_modify k f m) k' = (if k' = k then map_option f (map_of m k) else map_of m k')"
  by (induction m) (auto simp: map_modify_def)

lemma store_cases:
  assumes "\<forall>n \<in> set ns. node_valid n"
  obtains (nodes) disk' e where "\<not> io_ok (ri_nodes ro)" "disk' (nodes_path (nm_paths nm)) = disk (nodes_path (nm_paths nm))"
      "store_nodes env ro (m, nm, disk) i ns = ((m, nm\<lparr>nm_nodes := swapped (nm_nodes nm) i ns\<rparr>, disk'), Inl e)"
  | (subs) m' disk' r where "io_ok (ri_nodes ro)"
      "m' = m\<lparr>sm_items := map_modify i
         (\<lambda>sub. sub\<lparr>sb_node_ids := map nd_id ns, sb_update := (sb_update sub)\<lparr>up_last_updated := ri_now ro\<rparr>\<rparr>) (sm_items m)\<rparr>"
      "store_nodes env ro (m, nm, disk) i ns = ((m', nm\<lparr>nm_nodes := swapped (nm_nodes nm) i ns\<rparr>, disk'), r)"
      "is_ok r \<longleftrightarrow> io_ok (ri_subs ro)" "is_ok r \<Longrightarrow> r = Inr (of_nat (length ns))"
  using assms
proof (cases rule: replace_cases [where ser = "se_nodes_text env" and io = "ri_nodes ro" and nm = nm and disk = disk and i = i])
  case (failed disk' e)
  then show ?thesis by (intro that(1)) (simp_all add: store_nodes_def)
next
  case (written disk')
  define m' where "m' = m\<lparr>sm_items := map_modify i
    (\<lambda>sub. sub\<lparr>sb_node_ids := map nd_id ns, sb_update := (sb_update sub)\<lparr>up_last_updated := ri_now ro\<rparr>\<rparr>) (sm_items m)\<rparr>"
  show ?thesis
    by (rule subs_persist_cases [of "ri_subs ro" env m' "nm\<lparr>nm_nodes := swapped (nm_nodes nm) i ns\<rparr>" disk'])
      (use written in \<open>auto simp: store_nodes_def m'_def intro!: that(2)\<close>)
qed

section \<open>A refresh\<close>

lemma refresh_tail_simps [simp]:
  "fst (snd (refresh_tail s i r)) = fst (snd s)" "snd (snd (refresh_tail s i r)) = snd (snd s)"
  "sm_items (fst (refresh_tail s i r)) = sm_items (fst s)"
  "sm_in_flight (fst (refresh_tail s i r)) = sm_in_flight (fst s) - {i}"
  by (simp_all add: refresh_tail_def Let_def)

lemma refresh_unfold:
  "i \<notin> sm_in_flight m \<Longrightarrow> refresh env ro (m, nm, disk) i =
     (let s = (m\<lparr>sm_in_flight := insert i (sm_in_flight m)\<rparr>, nm, disk)
      in case (case wanted env ro m i of Inl e \<Rightarrow> (s, Inl e) | Inr ns \<Rightarrow> store_nodes env ro s i ns) of
           (s, r) \<Rightarrow> (refresh_tail s i r, r))"
  by (simp add: refresh_def refresh_begin_def refresh_finish_def wanted_def Let_def)

text \<open>
  C12. A refresh, stage by stage.  A second refresh of the same subscription is refused and
  changes nothing.  If the address, the download, the decoding, the parsing or the validation
  fails, the refresh reports it and nothing but the event changes.  Otherwise the nodes in
  memory are the valid new ones and those of everybody else, and the refresh succeeds exactly
  when both files are written: a failed write of the nodes is reported, but leaves the new
  nodes in memory above the old ones on disk.
\<close>

theorem refresh_exact:
  assumes "refresh env ro (m, nm, disk) i = ((m', nm', disk'), r)" "nodes_ok (nm_nodes nm)"
  shows "if i \<in> sm_in_flight m then (m', nm', disk', r) = (m, nm, disk, Inl (AlreadyRunning (''refresh '' @ i)))
     else sm_in_flight m' = sm_in_flight m
       \<and> (case wanted env ro m i of
            Inl e \<Rightarrow> r = Inl e \<and> nm' = nm \<and> disk' = disk \<and> sm_items m' = sm_items m
              \<and> sm_events m' = SubscriptionFailed i (sub_name m i) (err_display e) # sm_events m
          | Inr ns \<Rightarrow> ns \<noteq> [] \<and> (\<forall>n \<in> set ns. node_valid n)
              \<and> (\<forall>k. map_of (nm_nodes nm') k = refreshed (map_of (nm_nodes nm)) i ns k)
              \<and> (is_ok r \<longleftrightarrow> io_ok (ri_nodes ro) \<and> io_ok (ri_subs ro))
              \<and> (is_ok r \<longrightarrow> r = Inr (of_nat (length ns)))
              \<and> (\<not> io_ok (ri_nodes ro) \<longrightarrow> sm_items m' = sm_items m
                   \<and> disk' (nodes_path (nm_paths nm)) = disk (nodes_path (nm_paths nm))))"
proof (cases "i \<in> sm_in_flight m")
  case True
  with assms(1) show ?thesis by (auto simp: refresh_def refresh_begin_def)
next
  case False
  let ?s = "(m\<lparr>sm_in_flight := insert i (sm_in_flight m)\<rparr>, nm, disk)"
  note un = refresh_unfold [OF False, of env ro nm disk, unfolded assms(1)]
  show ?thesis
  proof (cases "wanted env ro m i")
    case (Inl e)
    with un have "(m', nm', disk') = refresh_tail ?s i (Inl e)" "r = Inl e" by (simp_all add: Let_def)
    with Inl False show ?thesis
      by (simp add: refresh_tail_def Let_def sub_name_def insert_absorb)
  next
    case (Inr ns)
    then have valid: "ns \<noteq> []" "\<forall>n \<in> set ns. node_valid n" by (auto dest: wanted_valid)
    obtain s' where s': "store_nodes env ro ?s i ns = (s', r)" "(m', nm', disk') = refresh_tail s' i r"
      using un Inr by (auto simp: Let_def split: prod.splits)
    then have proj: "nm' = fst (snd s')" "disk' = snd (snd s')" "sm_items m' = sm_items (fst s')"
      "sm_in_flight m' = sm_in_flight (fst s') - {i}"
      by (metis fst_conv snd_conv refresh_tail_simps)+
    note look = swapped_lookup [OF assms(2)]
    from valid(2) show ?thesis
    proof (cases rule: store_cases [where env = env and ro = ro and nm = nm and disk = disk and i = i
          and m = "m\<lparr>sm_in_flight := insert i (sm_in_flight m)\<rparr>"])
      case (nodes d e)
      with s' have "s' = (m\<lparr>sm_in_flight := insert i (sm_in_flight m)\<rparr>,
        nm\<lparr>nm_nodes := swapped (nm_nodes nm) i ns\<rparr>, d)" "r = Inl e" by simp_all
      with nodes(1,2) False Inr valid show ?thesis by (simp add: proj look)
    next
      case (subs m2 d r2)
      with s' have "s' = (m2, nm\<lparr>nm_nodes := swapped (nm_nodes nm) i ns\<rparr>, d)" "r = r2" by simp_all
      with subs(1,2,4,5) False Inr valid show ?thesis by (simp add: proj look)
    qed
  qed
qed

section \<open>Owners along interleaved operations\<close>

text \<open>
  The operations clients and timers ask for.  A refresh is its two halves, so a list of
  operations is any interleaving of downloads with edits.
\<close>

datatype sub_op =
    SubAdd string subscription_input write_io
  | SubUpdate string "string option" "string option" "bool option" "int option" write_io
  | SubDelete string write_io write_io
  | SubBegin string
  | SubFinish string "svc_error + string" refresh_io

fun sub_do :: "sub_env \<Rightarrow> sub_state \<Rightarrow> sub_op \<Rightarrow> sub_state" where
  "sub_do env s (SubAdd uuid inp io) = fst (subs_add env io uuid s inp)"
| "sub_do env s (SubUpdate i name url enabled interval io) = fst (update_fields env io s i name url enabled interval)"
| "sub_do env s (SubDelete i io1 io2) = fst (subs_delete env io1 io2 s i)"
| "sub_do env s (SubBegin i) = fst (refresh_begin env s i)"
| "sub_do env s (SubFinish i answer ro) = fst (refresh_finish env ro s i answer)"

definition owners_listed :: "sub_state \<Rightarrow> bool" where
  "owners_listed s \<longleftrightarrow> nodes_ok (nm_nodes (fst (snd s)))
     \<and> (\<forall>k n. map_of (nm_nodes (fst (snd s))) k = Some n \<longrightarrow> nd_subscription_id n \<noteq> [] \<longrightarrow>
          map_of (sm_items (fst s)) (nd_subscription_id n) \<noteq> None)"

definition too_late :: "sub_state \<Rightarrow> sub_op \<Rightarrow> bool" where
  \<comment> \<open>a download that ends well after its subscription was deleted\<close>
  "too_late s op \<longleftrightarrow> (case op of SubFinish i (Inr _) _ \<Rightarrow> map_of (sm_items (fst s)) i = None | _ \<Rightarrow> False)"

lemma owners_listed_same:
  "owners_listed s \<Longrightarrow> fst (snd s') = fst (snd s) \<Longrightarrow>
     (\<And>i. map_of (sm_items (fst s)) i \<noteq> None \<Longrightarrow> map_of (sm_items (fst s')) i \<noteq> None) \<Longrightarrow> owners_listed s'"
  by (auto simp: owners_listed_def)

lemma subs_persist_state:
  "fst (fst (subs_persist env io s)) = fst s" "fst (snd (fst (subs_persist env io s))) = fst (snd s)"
  by (auto simp: subs_persist_def split: prod.split)

lemma fst_case_result:
  "fst (case p of (s, Inl e) \<Rightarrow> (s, Inl e) | (s, Inr y) \<Rightarrow> (s, Inr (f y))) = fst p"
  by (auto split: prod.split sum.split)

lemma subs_add_state:
  "fst (snd (fst (subs_add env io uuid s inp))) = fst (snd s)"
  "map_of (sm_items (fst s)) i \<noteq> None \<Longrightarrow> map_of (sm_items (fst (fst (subs_add env io uuid s inp)))) i \<noteq> None"
  by (simp_all add: subs_add_def Let_def fst_case_result subs_persist_state map_of_map_insert split: sum.split)

lemma update_fields_state:
  "fst (snd (fst (update_fields env io s i name url enabled interval))) = fst (snd s)"
  "map_of (sm_items (fst s)) j \<noteq> None
     \<Longrightarrow> map_of (sm_items (fst (fst (update_fields env io s i name url enabled interval)))) j \<noteq> None"
  by (auto simp: update_fields_def Let_def map_of_map_modify subs_persist_state split: sum.split option.split)

lemma subs_delete_state:
  assumes "map_of (sm_items (fst s)) i \<noteq> None"
  shows "sm_items (fst (fst (subs_delete env io1 io2 s i))) = map_remove i (sm_items (fst s))"
    and "nm_nodes (fst (snd (fst (subs_delete env io1 io2 s i)))) = swapped (nm_nodes (fst (snd s))) i []"
    and "sm_in_flight (fst (fst (subs_delete env io1 io2 s i))) = sm_in_flight (fst s)"
proof -
  obtain m nm disk where s: "s = (m, nm, disk)" by (cases s)
  obtain d r where r: "replace_subscription_nodes (se_nodes_text env) io1 (nm, disk) i [] =
      ((nm\<lparr>nm_nodes := swapped (nm_nodes nm) i []\<rparr>, d), r)"
    by (rule replace_cases [where ns = "[]" and ser = "se_nodes_text env" and io = io1 and nm = nm and disk = disk and i = i]) auto
  then show "sm_items (fst (fst (subs_delete env io1 io2 s i))) = map_remove i (sm_items (fst s))"
    "nm_nodes (fst (snd (fst (subs_delete env io1 io2 s i)))) = swapped (nm_nodes (fst (snd s))) i []"
    "sm_in_flight (fst (fst (subs_delete env io1 io2 s i))) = sm_in_flight (fst s)"
    using assms by (auto simp: s subs_delete_def subs_persist_state Let_def)
qed

lemma refresh_finish_state:
  obtains (kept) "fst (snd (fst (refresh_finish env ro s i answer))) = fst (snd s)"
      "sm_items (fst (fst (refresh_finish env ro s i answer))) = sm_items (fst s)"
  | (swap) body ns where "answer = Inr body" "body_nodes (se_crates env) body = Inr ns"
      "nm_nodes (fst (snd (fst (refresh_finish env ro s i answer)))) = swapped (nm_nodes (fst (snd s))) i ns"
      "fst ` set (sm_items (fst (fst (refresh_finish env ro s i answer)))) = fst ` set (sm_items (fst s))"
proof (cases "and_then answer (body_nodes (se_crates env))")
  case (Inl e)
  then show ?thesis by (intro kept) (simp_all add: refresh_finish_def)
next
  case (Inr ns)
  then obtain body where b: "answer = Inr body" "body_nodes (se_crates env) body = Inr ns"
    by (auto simp: and_then_Inr)
  then have valid: "\<forall>n \<in> set ns. node_valid n" by (auto dest: body_nodes_valid)
  obtain m nm disk where s: "s = (m, nm, disk)" by (cases s)
  from valid show ?thesis
  proof (cases rule: store_cases [where env = env and ro = ro and m = m and nm = nm and disk = disk and i = i])
    case nodes
    with b s show ?thesis by (intro swap [of body ns]) (simp_all add: refresh_finish_def)
  next
    case subs
    with b s show ?thesis by (intro swap [of body ns]) (simp_all add: refresh_finish_def map_modify_keys)
  qed
qed

lemma owners_listed_swapped:
  assumes "owners_listed (m, nm, disk)" "nm_nodes nm' = swapped (nm_nodes nm) i ns"
    and "\<And>j. j \<noteq> i \<Longrightarrow> map_of (sm_items m) j \<noteq> None \<Longrightarrow> map_of (sm_items m') j \<noteq> None"
    and "ns \<noteq> [] \<Longrightarrow> map_of (sm_items m') i \<noteq> None"
  shows "owners_listed (m', nm', disk')"
proof -
  have ok: "nodes_ok (nm_nodes nm)" using assms(1) by (simp add: owners_listed_def)
  have "map_of (sm_items m') (nd_subscription_id n) \<noteq> None"
    if "map_of (swapped (nm_nodes nm) i ns) k = Some n" "nd_subscription_id n \<noteq> []" for k n
  proof -
    from that(1) have look: "refreshed (map_of (nm_nodes nm)) i ns k = Some n" by (simp add: swapped_lookup [OF ok])
    show ?thesis
    proof (cases "map_of (rev (map (\<lambda>n. (nd_id n, owned_by i n)) ns)) k")
      case (Some x)
      from map_of_SomeD [OF this] have "nd_subscription_id x = i" "ns \<noteq> []" by auto
      with Some look assms(4) show ?thesis by (simp add: refreshed_def)
    next
      case None
      with look have "map_of (nm_nodes nm) k = Some n" "nd_subscription_id n \<noteq> i"
        by (auto simp: refreshed_def split: option.splits if_splits)
      with assms(1,3) that(2) show ?thesis by (auto simp: owners_listed_def)
    qed
  qed
  with ok assms(2) show ?thesis by (simp add: owners_listed_def nodes_ok_swapped)
qed

lemma owners_listed_step:
  assumes "owners_listed s" "\<not> too_late s op"
  shows "owners_listed (sub_do env s op)"
proof -
  obtain m nm disk where s: "s = (m, nm, disk)" by (cases s)
  show ?thesis
  proof (cases op)
    case (SubDelete i io1 io2)
    show ?thesis
    proof (cases "map_of (sm_items (fst s)) i")
      case None
      with assms(1) SubDelete show ?thesis by (simp add: subs_delete_def)
    next
      case (Some x)
      then have l: "map_of (sm_items (fst s)) i \<noteq> None" by simp
      obtain m' nm' disk' where s': "sub_do env s op = (m', nm', disk')" by (cases "sub_do env s op")
      have "owners_listed (m', nm', disk')"
        by (rule owners_listed_swapped [OF assms(1) [unfolded s], where i = i and ns = "[]"])
          (use s' SubDelete subs_delete_state [OF l, of env io1 io2] in \<open>auto simp: s map_of_map_remove\<close>)
      then show ?thesis by (simp only: s')
    qed
  next
    case (SubFinish i answer ro)
    show ?thesis
    proof (rule refresh_finish_state [of env ro s i answer])
      assume "fst (snd (fst (refresh_finish env ro s i answer))) = fst (snd s)"
        "sm_items (fst (fst (refresh_finish env ro s i answer))) = sm_items (fst s)"
      with assms(1) SubFinish show ?thesis by (auto intro: owners_listed_same)
    next
      fix body ns
      assume b: "answer = Inr body"
        and n: "nm_nodes (fst (snd (fst (refresh_finish env ro s i answer)))) = swapped (nm_nodes (fst (snd s))) i ns"
        and k: "fst ` set (sm_items (fst (fst (refresh_finish env ro s i answer)))) = fst ` set (sm_items (fst s))"
      obtain m' nm' disk' where s': "sub_do env s op = (m', nm', disk')" by (cases "sub_do env s op")
      have keys: "map_of (sm_items m') j \<noteq> None \<longleftrightarrow> map_of (sm_items m) j \<noteq> None" for j
        using k s' SubFinish by (simp add: s map_of_eq_None_iff)
      have "map_of (sm_items m) i \<noteq> None" using assms(2) SubFinish b by (simp add: too_late_def s)
      with keys have "owners_listed (m', nm', disk')"
        by (intro owners_listed_swapped [OF assms(1) [unfolded s], where i = i and ns = ns])
          (use s' SubFinish n in \<open>auto simp: s\<close>)
      then show ?thesis by (simp only: s')
    qed
  next
    case (SubBegin i)
    with assms(1) show ?thesis
      by (intro owners_listed_same [OF assms(1)]) (auto simp: refresh_begin_def)
  next
    case (SubAdd uuid inp io)
    show ?thesis unfolding SubAdd sub_do.simps
      by (rule owners_listed_same [OF assms(1) subs_add_state])
  next
    case (SubUpdate i name url enabled interval io)
    show ?thesis unfolding SubUpdate sub_do.simps
      by (rule owners_listed_same [OF assms(1) update_fields_state])
  qed
qed

fun in_time :: "sub_env \<Rightarrow> sub_state \<Rightarrow> sub_op list \<Rightarrow> bool" where
  "in_time env s [] \<longleftrightarrow> True"
| "in_time env s (op # ops) \<longleftrightarrow> \<not> too_late s op \<and> in_time env (sub_do env s op) ops"


definition demo_env :: sub_env where
  "demo_env = \<lparr>se_vault = \<lparr>vt_protect = Inr, vt_unprotect = Inr, vt_encode = map char_of_byte,
       vt_decode = (\<lambda>s. Inr (as_bytes s)), vt_utf8_error = (\<lambda>_. [])\<rparr>,
     se_crates = demo_crates, se_nodes_text = (\<lambda>_. ''[]''), se_subs_text = (\<lambda>_. ''[]'')\<rparr>"

definition demo_sub :: subscription where
  "demo_sub = \<lparr>sb_id = ''s'', sb_name = ''S'', sb_url = ''https://x'', sb_enabled = True,
     sb_update = update_policy_default, sb_node_ids = []\<rparr>"

definition demo_subs :: sub_state where
  "demo_subs = (\<lparr>sm_items = [(''s'', demo_sub)], sm_in_flight = {}, sm_paths = paths_with_root ''d'', sm_events = []\<rparr>,
     empty_nodes, Map.empty)"

definition demo_body :: string where "demo_body = ''socks://h''"

definition demo_refresh :: refresh_io where
  "demo_refresh = \<lparr>ri_net = (\<lambda>_. Http_reply 200 ''200 OK'' (Inr demo_body)),
     ri_nodes = io_good, ri_subs = io_good, ri_now = 7\<rparr>"

definition demo_link_node :: node where
  "demo_link_node = build_node SOCKS ''N'' ''h'' 80 (js_object []) (js_object []) tls_default []"

lemma demo_link_node_valid: "node_validate demo_link_node = Inr ()"
  by (simp add: demo_link_node_def build_node_def node_validate_def SUPPORTED_def trim_id)

lemma demo_body_nodes: "body_nodes (se_crates demo_env) demo_body = Inr [demo_link_node]"
proof -
  have t: "trim ''socks://h'' = ''socks://h''" by (rule trim_id) simp_all
  have lines: "str_lines ''socks://h'' = [''socks://h'']" by code_simp
  have d: "decode_body demo_crates demo_body = [demo_body]"
    by (simp add: decode_body_def demo_body_def str_contains_def split_lines_def t lines)
  have "parse_line demo_crates demo_body = Some demo_link_node"
    by (simp add: parse_line_def t demo_body_def to_ascii_lowercase_def ascii_lower_char_def
        socks_parse_def demo_crates_def decode_name_def demo_link_node_def)
  moreover have "\<not> is_placeholder_host (ep_host (nd_endpoint demo_link_node))"
    by (simp add: demo_link_node_def build_node_def is_placeholder_host_def)
  ultimately show ?thesis by (simp add: body_nodes_def demo_env_def d demo_link_node_valid)
qed

lemma demo_owners: "owners_listed demo_subs"
  by (simp add: owners_listed_def demo_subs_def empty_nodes_def nodes_ok_def)


text \<open>
  A subscription deleted while it downloads leaves nodes behind.  The refresh still
  stores its nodes, reports success and announces a subscription without a name; the nodes
  belong to an id that is listed nowhere, and neither a deletion nor a further refresh of
  that id can remove them.
\<close>

theorem deleted_during_download:
  assumes "map_of (sm_items m) i = Some sub" "i \<notin> sm_in_flight m" "nodes_ok (nm_nodes nm)"
    and "body_nodes (se_crates env) body = Inr ns" "io_ok (ri_nodes ro)" "io_ok (ri_subs ro)"
    and "refresh_finish env ro
           (foldl (sub_do env) (m, nm, disk) [SubBegin i, SubDelete i io1 io2]) i (Inr body) = ((m', nm', disk'), r)"
  shows "r = Inr (of_nat (length ns)) \<and> map_of (sm_items m') i = None
    \<and> (\<exists>k n. map_of (nm_nodes nm') k = Some n \<and> nd_subscription_id n = i)
    \<and> hd (sm_events m') = SubscriptionUpdated i [] (of_nat (length ns))
    \<and> subs_delete env io3 io4 (m', nm', disk') i = ((m', nm', disk'), Inl (NotFound (''subscription '' @ i)))
    \<and> snd (refresh env ro2 (m', nm', disk') i) = Inl (NotFound (''subscription '' @ i))"
proof -
  let ?s1 = "(m\<lparr>sm_in_flight := insert i (sm_in_flight m)\<rparr>, nm, disk)"
  obtain m2 nm2 disk2 where s2: "fst (subs_delete env io1 io2 ?s1 i) = (m2, nm2, disk2)"
    by (cases "fst (subs_delete env io1 io2 ?s1 i)")
  have "map_of (sm_items (fst ?s1)) i \<noteq> None" using assms(1) by simp
  note del = subs_delete_state [OF this, of env io1 io2, unfolded s2, simplified]
  then have gone: "map_of (sm_items m2) i = None" by (simp add: map_of_map_remove)
  have ok2: "nodes_ok (nm_nodes nm2)" using del(2) assms(3) by (simp add: nodes_ok_swapped)
  from assms(4) have valid: "ns \<noteq> []" "\<forall>n \<in> set ns. node_valid n" by (auto dest: body_nodes_valid)
  have "foldl (sub_do env) (m, nm, disk) [SubBegin i, SubDelete i io1 io2] = (m2, nm2, disk2)"
    using s2 assms(2) by (simp add: refresh_begin_def)
  with assms(7) have fin: "refresh_finish env ro (m2, nm2, disk2) i (Inr body) = ((m', nm', disk'), r)" by simp
  from valid(2) show ?thesis
  proof (cases rule: store_cases [where env = env and ro = ro and m = m2 and nm = nm2 and disk = disk2 and i = i])
    case nodes
    with assms(5) show ?thesis by simp
  next
    case (subs m3 d r2)
    with fin assms(4,6) have e: "(m', nm', disk') = refresh_tail (m3, nm2\<lparr>nm_nodes := swapped (nm_nodes nm2) i ns\<rparr>, d) i r"
      "r = Inr (of_nat (length ns))" by (auto simp: refresh_finish_def)
    have none: "map_of (sm_items m3) i = None" using subs(2) gone by (simp add: map_of_map_modify)
    with e have m': "map_of (sm_items m') i = None" "i \<notin> sm_in_flight m'"
      "nm_nodes nm' = swapped (nm_nodes nm2) i ns" "hd (sm_events m') = SubscriptionUpdated i [] (of_nat (length ns))"
      by (simp_all add: refresh_tail_def Let_def sub_name_def)
    obtain k n where "map_of (rev (map (\<lambda>n. (nd_id n, owned_by i n)) ns)) k = Some n"
    proof -
      obtain x where "x \<in> set ns" using valid(1) by (cases ns) auto
      then have "map_of (rev (map (\<lambda>n. (nd_id n, owned_by i n)) ns)) (nd_id x) \<noteq> None"
        by (simp add: map_of_eq_None_iff image_image)
      with that show ?thesis by blast
    qed
    moreover from map_of_SomeD [OF this] have "nd_subscription_id n = i" by auto
    moreover from calculation(1) have "map_of (nm_nodes nm') k = Some n"
      by (simp add: m'(3) swapped_lookup [OF ok2] refreshed_def)
    ultimately have "\<exists>k n. map_of (nm_nodes nm') k = Some n \<and> nd_subscription_id n = i" by blast
    with m' e(2) show ?thesis
      by (simp add: subs_delete_def refresh_unfold wanted_def refresh_url_def)
  qed
qed

theorem deleted_during_download_witness:
  "\<exists>k n. map_of (nm_nodes (fst (snd (fst (refresh_finish demo_env demo_refresh
       (foldl (sub_do demo_env) demo_subs [SubBegin ''s'', SubDelete ''s'' io_good io_good]) ''s'' (Inr demo_body)))))) k = Some n
     \<and> nd_subscription_id n = ''s''"
proof -
  let ?f = "refresh_finish demo_env demo_refresh
    (foldl (sub_do demo_env) demo_subs [SubBegin ''s'', SubDelete ''s'' io_good io_good]) ''s'' (Inr demo_body)"
  obtain m' nm' disk' r where f: "?f = ((m', nm', disk'), r)" by (metis prod.exhaust)
  have "io_ok (ri_nodes demo_refresh)" "io_ok (ri_subs demo_refresh)" by (simp_all add: demo_refresh_def io_ok_def io_good_def)
  moreover have "nodes_ok (nm_nodes empty_nodes)" by (simp add: empty_nodes_def nodes_ok_def)
  ultimately show ?thesis
    using deleted_during_download [OF _ _ _ demo_body_nodes, of _ "''s''" demo_sub empty_nodes demo_refresh,
        OF _ _ _ _ _ f [unfolded demo_subs_def]] f
    by (simp add: demo_subs_def)
qed

theorem refresh_exact_witness:
  "snd (refresh demo_env demo_refresh demo_subs ''s'') = Inr 1"
proof -
  obtain m' nm' disk' r where f: "refresh demo_env demo_refresh demo_subs ''s'' = ((m', nm', disk'), r)"
    by (metis prod.exhaust)
  have "unprotect (se_vault demo_env) ''https://x'' = Inr ''https://x''"
    by (rule unprotect_plain) (simp_all add: WIN_PREFIX_def DEV_PREFIX_def)
  moreover have "trim demo_body \<noteq> []" by (simp add: demo_body_def trim_id)
  ultimately have "wanted demo_env demo_refresh (fst demo_subs) ''s'' = Inr [demo_link_node]"
    by (simp add: wanted_def refresh_url_def demo_subs_def demo_sub_def plaintext_url_def fetch_def demo_refresh_def
        demo_body_nodes)
  moreover have "io_ok (ri_nodes demo_refresh)" "io_ok (ri_subs demo_refresh)" by (simp_all add: demo_refresh_def io_ok_def io_good_def)
  moreover have "nodes_ok (nm_nodes empty_nodes)" by (simp add: empty_nodes_def nodes_ok_def)
  ultimately show ?thesis
    using refresh_exact [OF f [unfolded demo_subs_def]] f by (simp add: demo_subs_def)
qed

section \<open>Addresses and deletions\<close>

text \<open>
  A stored address comes back.  After a successful addition a refresh asks exactly the
  address that was given, without the blanks around it, although only its protected form is
  kept and written; no other subscription is touched.
\<close>

theorem added_address_is_asked:
  assumes "vault_laws (se_vault env)" "utf8_valid (as_bytes (trim (si_url inp)))"
    and "subs_add env io uuid s inp = (s', Inr sub)"
  shows "refresh_url env (fst s') (sb_id sub) = Inr (trim (si_url inp))
       \<and> protect (se_vault env) (trim (si_url inp)) = Inr (sb_url sub)
       \<and> (\<forall>j. j \<noteq> sb_id sub \<longrightarrow> map_of (sm_items (fst s')) j = map_of (sm_items (fst s)) j)"
proof -
  from assms(3) obtain c where c: "protect (se_vault env) (trim (si_url inp)) = Inr c"
    by (auto simp: subs_add_def split: if_splits sum.splits)
  define m where "m = (fst s)\<lparr>sm_items := map_insert (sb_id sub) sub (sm_items (fst s))\<rparr>"
  from assms(3) c have sub: "sb_url sub = c" and "subs_persist env io (m, snd s) = (s', Inr ())"
    by (auto simp: subs_add_def Let_def m_def split: if_splits prod.splits sum.splits)
  then have "fst s' = m" using subs_persist_state(1) [of env io "(m, snd s)"] by simp
  with c sub unprotect_protect [OF assms(1,2) c] show ?thesis
    by (simp add: m_def refresh_url_def map_of_map_insert plaintext_url_def)
qed

theorem added_address_is_asked_witness:
  "\<exists>s' sub. subs_add demo_env io_good ''u'' demo_subs \<lparr>si_name = ''N'', si_url = ''http://h'', si_enabled = True, si_interval_secs = 0\<rparr>
       = (s', Inr sub) \<and> refresh_url demo_env (fst s') (sb_id sub) = Inr ''http://h''"
proof -
  let ?inp = "\<lparr>si_name = ''N'', si_url = ''http://h'', si_enabled = True, si_interval_secs = 0\<rparr>"
  have t: "trim ''http://h'' = ''http://h''" "trim ''N'' = ''N''" by (simp_all add: trim_id)
  obtain s' r where a: "subs_add demo_env io_good ''u'' demo_subs ?inp = (s', r)" by fastforce
  moreover have "is_ok r"
    using a by (auto simp: subs_add_def t protect_def demo_env_def demo_subs_def subs_persist_def atomic_write_def
        io_good_def Let_def)
  then obtain sub where "r = Inr sub" by (auto simp: is_ok_iff)
  moreover have "vault_laws (se_vault demo_env)"
    by (simp add: vault_laws_def demo_env_def as_bytes_def comp_def)
  moreover have "utf8_valid (as_bytes ''http://h'')"
    by (simp add: utf8_valid.simps utf8_step_def as_bytes_def byte_of_def)
  ultimately show ?thesis using added_address_is_asked [of demo_env ?inp io_good "''u''" demo_subs s' sub] t by auto
qed

text \<open>
  A deletion whose write of the nodes fails reports success: the nodes are back after a
  restart, and their subscription is not.
\<close>

lemma delete_hides_failed_write:
  assumes "map_of (sm_items m) i = Some sub" "\<not> io_ok io1" "io_ok io2"
  obtains m' disk' where
    "subs_delete env io1 io2 (m, nm, disk) i = ((m', nm\<lparr>nm_nodes := swapped (nm_nodes nm) i []\<rparr>, disk'), Inr ())"
    "map_of (sm_items m') i = None" "disk' (nodes_path (nm_paths nm)) = disk (nodes_path (nm_paths nm))"
proof -
  have "\<forall>n \<in> set []. node_valid n" by simp
  then show ?thesis
  proof (cases rule: replace_cases [where ser = "se_nodes_text env" and io = io1 and nm = nm and disk = disk and i = i])
    case (failed d e)
    define m' where "m' = m\<lparr>sm_items := map_remove i (sm_items m)\<rparr>"
    obtain d' where w: "atomic_write io2 d (subscriptions_path (sm_paths m')) (se_subs_text env (map snd (sm_items m'))) = (d', Inr ())"
      using assms(3) by (rule_tac atomic_write_cases [of io2 d "subscriptions_path (sm_paths m')"
        "se_subs_text env (map snd (sm_items m'))"]) auto
    have "d' (nodes_path (nm_paths nm)) = d (nodes_path (nm_paths nm))"
      by (rule atomic_write_other [OF w]) (auto simp: nodes_path_def subscriptions_path_def tmp_path_def file_stem_def
          split_file_at_dot_def rsplit_once_def split_once_def)
    with failed w assms(1) show ?thesis
      by (intro that [of m' d']) (simp_all add: subs_delete_def subs_persist_def m'_def map_of_map_remove)
  next
    case (written d)
    with assms(2) show ?thesis by simp
  qed
qed

text \<open>An update whose new address cannot be protected keeps the new name in memory only.\<close>

lemma update_fields_half_done:
  assumes "map_of (sm_items m) i = Some sub" "trim u \<noteq> []" "protect (se_vault env) (trim u) = Inl e"
  shows "update_fields env io (m, nd) i (Some n) (Some u) enabled interval =
     ((m\<lparr>sm_items := map_modify i (\<lambda>_. sub\<lparr>sb_name := n\<rparr>) (sm_items m)\<rparr>, nd), Inl e)"
  using assms by (simp add: update_fields_def new_url_def Let_def)

end
