(* ===== verification/Sub_Again.thy ===== *)
theory Sub_Again
  imports Sub_Refresh
begin

text \<open>
  Refreshing over and over: what a subscription's nodes, their statistics and the selection are
  when the provider answers what it answered before, and what becomes of a node that two
  subscriptions carry.
\<close>

section \<open>The nodes after a refresh\<close>

text \<open>Only the list of nodes changes in the manager of the nodes, whatever the writes do.\<close>

definition marked :: "string list \<Rightarrow> int \<Rightarrow> subscription \<Rightarrow> subscription" where
  \<comment> \<open>a subscription with the nodes and the time of its last refresh\<close>
  "marked ids now sub = sub\<lparr>sb_node_ids := ids, sb_update := (sb_update sub)\<lparr>up_last_updated := now\<rparr>\<rparr>"

lemma marked_eq: "(\<lambda>sub. sub\<lparr>sb_node_ids := ids, sb_update := (sb_update sub)\<lparr>up_last_updated := now\<rparr>\<rparr>) = marked ids now"
  by (simp add: marked_def fun_eq_iff)

lemma refresh_state:
  assumes "i \<notin> sm_in_flight m" "wanted env ro m i = Inr ns" "refresh env ro (m, nm, disk) i = ((m', nm', disk'), r)"
  shows "nm' = nm\<lparr>nm_nodes := swapped (nm_nodes nm) i ns\<rparr> \<and> sm_in_flight m' = sm_in_flight m
    \<and> (sm_items m' = sm_items m \<or> (\<exists>ids now. sm_items m' = map_modify i (marked ids now) (sm_items m)))"
proof -
  let ?s = "(m\<lparr>sm_in_flight := insert i (sm_in_flight m)\<rparr>, nm, disk)"
  obtain s2 r2 where st: "store_nodes env ro ?s i ns = (s2, r2)" by (cases "store_nodes env ro ?s i ns")
  with assms have tail: "(m', nm', disk') = refresh_tail s2 i r2" by (auto simp: refresh_unfold Let_def)
  then have proj: "nm' = fst (snd s2)" "sm_items m' = sm_items (fst s2)" "sm_in_flight m' = sm_in_flight (fst s2) - {i}"
    by (metis fst_conv snd_conv refresh_tail_simps)+
  from assms(2) have "\<forall>n \<in> set ns. node_valid n" by (auto dest: wanted_valid)
  then show ?thesis
  proof (cases rule: store_cases [where env = env and ro = ro and nm = nm and disk = disk and i = i
        and m = "m\<lparr>sm_in_flight := insert i (sm_in_flight m)\<rparr>"])
    case (nodes d e)
    with st assms(1) show ?thesis by (auto simp: proj)
  next
    case (subs m2 d r3)
    from st subs(3) have "s2 = (m2, nm\<lparr>nm_nodes := swapped (nm_nodes nm) i ns\<rparr>, d)" by simp
    moreover from subs(2) have "sm_items m2 = map_modify i (marked (map nd_id ns) (ri_now ro)) (sm_items m)"
      unfolding marked_eq by simp
    moreover from subs(2) assms(1) have "sm_in_flight m2 - {i} = sm_in_flight m" by simp
    ultimately show ?thesis unfolding proj by (metis fst_conv snd_conv)
  qed
qed

text \<open>The address of a subscription does not move with the refreshes.\<close>

lemma refresh_url_modify:
  "sm_items m' = sm_items m \<or> (\<exists>ids now. sm_items m' = map_modify i (marked ids now) (sm_items m)) \<Longrightarrow>
   refresh_url env m' i = refresh_url env m i"
  by (auto simp: marked_def refresh_url_def map_of_map_modify plaintext_url_def split: option.split)

lemma refreshed_again: "refreshed (refreshed old i ns) i ns = refreshed old i ns"
  by (rule ext) (auto simp: refreshed_def split: option.split)

text \<open>
  C14. A refresh that brings nothing new changes nothing.  When the provider answers what it
  answered before, refreshing again, after a success or after a failed write, leaves every
  node as it was, its id, its owner and its settings included; and no refresh, the first
  included, touches the statistics of the nodes or the selected one.
\<close>

theorem refresh_again_changes_nothing:
  assumes "refresh env ro (m, nm, disk) i = ((m1, nm1, disk1), r1)"
    and "refresh env ro2 (m1, nm1, disk1) i = ((m2, nm2, disk2), r2)"
    and "i \<notin> sm_in_flight m" "nodes_ok (nm_nodes nm)" "wanted env ro m i = Inr ns" "ri_net ro2 = ri_net ro"
  shows "map_of (nm_nodes nm2) = map_of (nm_nodes nm1)
     \<and> nm_stats nm2 = nm_stats nm \<and> nm_selected nm2 = nm_selected nm \<and> nodes_ok (nm_nodes nm2)"
proof -
  note a = refresh_state [OF assms(3,5,1)]
  from a have free: "i \<notin> sm_in_flight m1" using assms(3) by simp
  have "refresh_url env m1 i = refresh_url env m i" using a by (intro refresh_url_modify) simp
  then have "wanted env ro2 m1 i = Inr ns" using assms(5,6) by (simp add: wanted_def)
  note b = refresh_state [OF free this assms(2)]
  have ok: "nodes_ok (nm_nodes nm1)" using a assms(4) by (simp add: nodes_ok_swapped)
  have "map_of (nm_nodes nm1) = refreshed (map_of (nm_nodes nm)) i ns" using a by (auto simp: swapped_lookup [OF assms(4)])
  moreover have "map_of (nm_nodes nm2) = refreshed (map_of (nm_nodes nm1)) i ns" using b by (auto simp: swapped_lookup [OF ok])
  ultimately show ?thesis using a b ok by (simp add: refreshed_again nodes_ok_swapped)
qed

theorem refresh_again_changes_nothing_witness:
  "map_of (nm_nodes (fst (snd (fst (refresh demo_env (demo_refresh\<lparr>ri_now := 9\<rparr>)
       (fst (refresh demo_env demo_refresh demo_subs ''s'')) ''s'')))))
   = map_of (nm_nodes (fst (snd (fst (refresh demo_env demo_refresh demo_subs ''s'')))))"
proof -
  obtain m1 nm1 d1 r1 where f: "refresh demo_env demo_refresh demo_subs ''s'' = ((m1, nm1, d1), r1)"
    by (metis prod.exhaust)
  obtain m2 nm2 d2 r2 where g: "refresh demo_env (demo_refresh\<lparr>ri_now := 9\<rparr>) (m1, nm1, d1) ''s'' = ((m2, nm2, d2), r2)"
    by (metis prod.exhaust)
  have "unprotect (se_vault demo_env) ''https://x'' = Inr ''https://x''"
    by (rule unprotect_plain) (simp_all add: WIN_PREFIX_def DEV_PREFIX_def)
  moreover have "trim demo_body \<noteq> []" by (simp add: demo_body_def trim_id)
  ultimately have "wanted demo_env demo_refresh (fst demo_subs) ''s'' = Inr [demo_link_node]"
    by (simp add: wanted_def refresh_url_def demo_subs_def demo_sub_def plaintext_url_def fetch_def demo_refresh_def
        demo_body_nodes)
  moreover have "nodes_ok (nm_nodes empty_nodes)" by (simp add: empty_nodes_def nodes_ok_def)
  ultimately show ?thesis
    using refresh_again_changes_nothing [OF f [unfolded demo_subs_def] g] f g by (simp add: demo_subs_def)
qed

section \<open>A node of two subscriptions\<close>

text \<open>
  The id of a node is that of its link, so a link that two subscriptions carry is one node, and
  the subscription refreshed last owns it.  When that one is emptied, as deleting it does, the
  node is gone although the other subscription carries it as well.
\<close>

lemma shared_link_moves:
  assumes "n \<in> set ns" "n \<in> set ns2" "distinct (map nd_id ns)" "distinct (map nd_id ns2)" "i \<noteq> j"
  shows "refreshed (refreshed old i ns) j ns2 (nd_id n) = Some (owned_by j n)"
    and "refreshed (refreshed (refreshed old i ns) j ns2) j [] (nd_id n) = None"
proof -
  have "map_of (rev (map (\<lambda>n. (nd_id n, owned_by j n)) ns2)) (nd_id n) = Some (owned_by j n)"
    using assms(2,4) by (intro map_of_is_SomeI) (auto simp: rev_map [symmetric] comp_def)
  then show "refreshed (refreshed old i ns) j ns2 (nd_id n) = Some (owned_by j n)"
    by (simp add: refreshed_def)
  then show "refreshed (refreshed (refreshed old i ns) j ns2) j [] (nd_id n) = None"
    by (subst refreshed_def) simp
qed

end
