(* ===== verification/Diagnostics.thy ===== *)
theory Diagnostics
  imports Dns_Manager Node_Health Json
begin

text \<open>
  \<^verbatim>\<open>diagnostics/ping.rs\<close>, \<^verbatim>\<open>diagnostics/engine.rs\<close> and the guard of \<^verbatim>\<open>app/context.rs\<close> that starts
  and cancels a run: six probes in order, reported one by one.  The answers of the network and
  of the foreign functions are arguments.
\<close>

section \<open>Probes\<close>

record route_row =
  rr_dest :: u32
  rr_mask :: u32
  rr_next_hop :: u32

definition default_gateway :: "route_row list option \<Rightarrow> u32 option" where
  \<comment> \<open>the table as the system gives it; its addresses are in network order\<close>
  "default_gateway table =
     Option.bind table (\<lambda>rows.
       map_option (\<lambda>r. from_be_bytes (to_le_bytes 4 (rr_next_hop r)))
         (find (\<lambda>r. rr_dest r = 0 \<and> rr_mask r = 0 \<and> rr_next_hop r \<noteq> 0) rows))"

text \<open>One echo: no handle, or the number of replies with the status and time of the first.\<close>

datatype echo = No_handle | Echo u32 u32 u32

definition ping_once :: "echo \<Rightarrow> u32 option" where
  "ping_once e =
     (case e of
        No_handle \<Rightarrow> None
      | Echo sent status rtt \<Rightarrow> if sent = 0 then None else if status \<noteq> 0 then None else Some rtt)"

definition ping_loss :: "nat \<Rightarrow> (nat \<Rightarrow> echo) \<Rightarrow> rat \<times> u32 option" where
  "ping_loss count echoes =
     (let (ok, total) = foldl (\<lambda>(ok, total) k.
            case ping_once (echoes k) of Some rtt \<Rightarrow> (ok + 1, total + rtt) | None \<Rightarrow> (ok, total))
          (0 :: u32, 0 :: u32) [0..<count];
          rate = of_nat (unat ok) / of_nat count
      in (rate, if ok > 0 then Some (total div ok) else None))"

section \<open>The engine\<close>

record diag_item =
  di_name :: string
  di_status :: string
  di_latency_ms :: u64
  di_detail :: string

record diag_report =
  dr_started_at :: int
  dr_finished_at :: int
  dr_items :: "diag_item list"

text \<open>A progress event has the step, its index and the total, the status and the detail.\<close>

datatype diag_event =
    DiagProgress string nat nat string string
  | DiagCompleted diag_report

record diag_engine =
  de_dns :: dns_manager
  de_rows :: "(int \<times> diag_item) list option"
  de_events :: "diag_event list"

text \<open>
  The surroundings of a run: the clock at the start, at each insertion and at the end, the
  failing insertions, the probes, and whether the token is cancelled when it is looked at after
  a step.  A reply to a request is its status with the text of it.
\<close>

record diag_io =
  dg_started :: int
  dg_finished :: int
  dg_insert_now :: "nat \<Rightarrow> int"
  dg_insert_fails :: "nat \<Rightarrow> bool"
  dg_ping :: echo
  dg_routes :: "route_row list option"
  dg_gateway_ping :: "u32 \<Rightarrow> echo"
  dg_net :: dns_net
  dg_clock :: "nat \<Rightarrow> nat"
  dg_elapsed :: "nat \<Rightarrow> u64"
  dg_client :: "string option"
  dg_reply :: "string + (nat \<times> string)"
  dg_echoes :: "nat \<Rightarrow> echo"
  dg_speed_client :: "string option"
  dg_download :: "string + nat"
  dg_speed_secs :: rat
  dg_cancelled :: "nat \<Rightarrow> bool"

definition DIAG_TOTAL :: nat where "DIAG_TOTAL = 6"

definition item :: "string \<Rightarrow> string \<Rightarrow> u64 \<Rightarrow> string \<Rightarrow> diag_item" where
  "item name status ms detail =
     \<lparr>di_name = name, di_status = status, di_latency_ms = ms, di_detail = detail\<rparr>"

definition emit_running :: "nat \<Rightarrow> string \<Rightarrow> diag_engine \<Rightarrow> diag_engine" where
  "emit_running k step s =
     s\<lparr>de_events := de_events s @ [DiagProgress step k DIAG_TOTAL ''running'' []]\<rparr>"

definition insert_diagnostic :: "bool \<Rightarrow> (int \<times> diag_item) list \<Rightarrow> int \<Rightarrow> diag_item \<Rightarrow> (int \<times> diag_item) list" where
  "insert_diagnostic fails rows ts i = (if fails then rows else rows @ [(ts, i)])"

definition finish_step :: "diag_io \<Rightarrow> nat \<Rightarrow> diag_item \<Rightarrow> diag_engine \<Rightarrow> diag_engine" where
  "finish_step io k i s =
     (let s = s\<lparr>de_events := de_events s @ [DiagProgress (di_name i) k DIAG_TOTAL (di_status i) (di_detail i)]\<rparr>
      in s\<lparr>de_rows := map_option (\<lambda>rows. insert_diagnostic (dg_insert_fails io k) rows (dg_insert_now io k) i) (de_rows s)\<rparr>)"

definition ipv4_str :: "u32 \<Rightarrow> string" where
  \<comment> \<open>\<^verbatim>\<open>Ipv4Addr::to_string\<close>\<close>
  "ipv4_str a =
     (case map (nat_str \<circ> unat) (to_be_bytes 4 a) of
        [w, x, y, z] \<Rightarrow> w @ ''.'' @ x @ ''.'' @ y @ ''.'' @ z
      | _ \<Rightarrow> [])"

definition network_item :: "diag_io \<Rightarrow> diag_item" where
  "network_item io =
     (case ping_once (dg_ping io) of
        Some ms \<Rightarrow> item ''network'' ''ok'' (ucast ms) ''223.5.5.5 reachable''
      | None \<Rightarrow> item ''network'' ''fail'' 0 ''223.5.5.5 ICMP unreachable'')"

definition gateway_item :: "diag_io \<Rightarrow> diag_item" where
  "gateway_item io =
     (case default_gateway (dg_routes io) of
        Some addr \<Rightarrow>
          (case ping_once (dg_gateway_ping io addr) of
             Some ms \<Rightarrow> item ''gateway'' ''ok'' (ucast ms) (''gateway '' @ ipv4_str addr @ '' reachable'')
           | None \<Rightarrow> item ''gateway'' ''warn'' 0 (''gateway '' @ ipv4_str addr @ '' does not answer ICMP''))
      | None \<Rightarrow> item ''gateway'' ''warn'' 0 ''no IPv4 default route'')"

definition dns_item :: "diag_io \<Rightarrow> svc_error + ip_addr list \<Rightarrow> diag_item" where
  "dns_item io r =
     (case r of
        Inr ips \<Rightarrow> item ''dns'' ''ok'' (dg_elapsed io 3) (''resolved '' @ nat_str (length ips) @ '' addresses'')
      | Inl e \<Rightarrow> item ''dns'' ''fail'' (dg_elapsed io 3) (err_display e))"

definition proxy_probe :: "diag_io \<Rightarrow> diag_item" where
  "proxy_probe io =
     (case dg_client io of
        Some e \<Rightarrow> item ''proxy'' ''fail'' 0 (''client build failed: '' @ e)
      | None \<Rightarrow>
          (case dg_reply io of
             Inr (code, status) \<Rightarrow>
               if code = 204 then item ''proxy'' ''ok'' (dg_elapsed io 4) ''HTTP 204 via proxy''
               else item ''proxy'' ''warn'' (dg_elapsed io 4) (''unexpected HTTP '' @ status)
           | Inl e \<Rightarrow> item ''proxy'' ''fail'' (dg_elapsed io 4) e))"

definition loss_item :: "diag_io \<Rightarrow> diag_item" where
  "loss_item io =
     (case ping_loss 5 (dg_echoes io) of
        (rate, avg) \<Rightarrow>
          (let status = (if rate \<ge> 999 / 1000 then ''ok'' else if rate > 0 then ''warn'' else ''fail'')
           in item ''packet_loss'' status (case avg of Some ms \<Rightarrow> ucast ms | None \<Rightarrow> 0)
                (nat_str (nat (round_half_away (rate * 100))) @ ''% success'')))"

definition speed_probe :: "diag_io \<Rightarrow> diag_item" where
  "speed_probe io =
     (case dg_speed_client io of
        Some e \<Rightarrow> item ''speed'' ''fail'' 0 e
      | None \<Rightarrow>
          (case dg_download io of
             Inr bytes \<Rightarrow>
               (let secs = max (dg_speed_secs io) (1 / 1000);
                    mbps = nat (round_half_away (of_nat bytes * 8 / secs / 1000000))
                in item ''speed'' ''ok'' (dg_elapsed io 6)
                     (nat_str mbps @ '' Mbps ('' @ nat_str bytes @ '' bytes)''))
           | Inl e \<Rightarrow> item ''speed'' ''warn'' (dg_elapsed io 6) (''speed probe failed: '' @ e)))"

definition through_proxy :: "bool \<Rightarrow> string \<Rightarrow> diag_item \<Rightarrow> diag_item" where
  \<comment> \<open>a probe that needs the port of a running core\<close>
  "through_proxy running name probe =
     (if running then probe else item name ''skipped'' 0 ''proxy core not running'')"

text \<open>A step: the running event, the probe on the state of the engine, the finished event.\<close>

definition step_of ::
  "diag_io \<Rightarrow> nat \<Rightarrow> string \<Rightarrow> (diag_engine \<Rightarrow> diag_engine \<times> diag_item) \<Rightarrow> diag_engine \<Rightarrow> diag_engine \<times> diag_item" where
  "step_of io k name probe s =
     (case probe (emit_running k name s) of (s, i) \<Rightarrow> (finish_step io k i s, i))"

definition diag_steps :: "diag_io \<Rightarrow> bool \<Rightarrow> (nat \<times> (diag_engine \<Rightarrow> diag_engine \<times> diag_item)) list" where
  "diag_steps io running =
     [(1, step_of io 1 ''network'' (\<lambda>s. (s, network_item io))),
      (2, step_of io 2 ''gateway'' (\<lambda>s. (s, gateway_item io))),
      (3, step_of io 3 ''dns'' (\<lambda>s.
            case resolve (dg_net io) (dg_clock io) Any_server ''www.microsoft.com'' (de_dns s) of
              (dns, r) \<Rightarrow> (s\<lparr>de_dns := dns\<rparr>, dns_item io r))),
      (4, step_of io 4 ''proxy'' (\<lambda>s. (s, through_proxy running ''proxy'' (proxy_probe io)))),
      (5, step_of io 5 ''packet_loss'' (\<lambda>s. (s, loss_item io))),
      (6, step_of io 6 ''speed'' (\<lambda>s. (s, through_proxy running ''speed'' (speed_probe io))))]"

fun run_steps ::
  "diag_io \<Rightarrow> (nat \<times> (diag_engine \<Rightarrow> diag_engine \<times> diag_item)) list \<Rightarrow> diag_engine \<Rightarrow> diag_item list
     \<Rightarrow> diag_engine \<times> diag_item list \<times> bool" where
  \<comment> \<open>whether all steps were taken; the token is looked at after each but the last\<close>
  "run_steps io [] s items = (s, items, True)"
| "run_steps io ((k, step) # rest) s items =
     (case step s of
        (s, i) \<Rightarrow>
          if rest \<noteq> [] \<and> dg_cancelled io k then (s, items @ [i], False)
          else run_steps io rest s (items @ [i]))"

definition diag_run :: "diag_io \<Rightarrow> bool \<Rightarrow> diag_engine \<Rightarrow> diag_engine \<times> diag_report" where
  \<comment> \<open>with whether there is a proxy port to probe\<close>
  "diag_run io running s =
     (case run_steps io (diag_steps io running) s [] of
        (s, items, finished) \<Rightarrow>
          (let report = \<lparr>dr_started_at = dg_started io, dr_finished_at = dg_finished io, dr_items = items\<rparr>
           in (if finished then s\<lparr>de_events := de_events s @ [DiagCompleted report]\<rparr> else s, report)))"

section \<open>Starting and cancelling\<close>

text \<open>
  The slot holds the token of the run that may be cancelled; the tasks are the runs that have
  not ended, each with its token.
\<close>

record diag_control =
  dk_slot :: "nat option"
  dk_tasks :: "nat list"
  dk_cancelled :: "nat set"
  dk_fresh :: nat

definition diagnostics_run :: "diag_control \<Rightarrow> diag_control \<times> (svc_error + unit)" where
  "diagnostics_run c =
     (if dk_slot c \<noteq> None then (c, Inl (AlreadyRunning ''diagnostics''))
      else (c\<lparr>dk_slot := Some (dk_fresh c), dk_tasks := dk_fresh c # dk_tasks c, dk_fresh := dk_fresh c + 1\<rparr>, Inr ()))"

definition diagnostics_cancel :: "diag_control \<Rightarrow> diag_control" where
  "diagnostics_cancel c =
     (case dk_slot c of
        Some t \<Rightarrow> c\<lparr>dk_slot := None, dk_cancelled := insert t (dk_cancelled c)\<rparr>
      | None \<Rightarrow> c)"

definition task_end :: "nat \<Rightarrow> diag_control \<Rightarrow> diag_control" where
  \<comment> \<open>the last line of the spawned task\<close>
  "task_end t c = c\<lparr>dk_tasks := removeAll t (dk_tasks c), dk_slot := None\<rparr>"

section \<open>A run\<close>

definition DIAG_NAMES :: "string list" where
  "DIAG_NAMES = [''network'', ''gateway'', ''dns'', ''proxy'', ''packet_loss'', ''speed'']"

definition steps_taken :: "diag_io \<Rightarrow> nat" where
  \<comment> \<open>up to the first look at a cancelled token\<close>
  "steps_taken io = (case find (dg_cancelled io) [1, 2, 3, 4, 5] of Some k \<Rightarrow> k | None \<Rightarrow> 6)"

definition progress :: "nat \<times> diag_item \<Rightarrow> diag_event list" where
  "progress p =
     (case p of (k, i) \<Rightarrow>
        [DiagProgress (di_name i) k 6 ''running'' [], DiagProgress (di_name i) k 6 (di_status i) (di_detail i)])"

definition logged :: "diag_io \<Rightarrow> (nat \<times> diag_item) list \<Rightarrow> (int \<times> diag_item) list" where
  "logged io ps = map (\<lambda>(k, i). (dg_insert_now io k, i)) (filter (\<lambda>(k, _). \<not> dg_insert_fails io k) ps)"

definition item_of :: "string \<Rightarrow> diag_item \<Rightarrow> bool" where
  "item_of name i \<longleftrightarrow> di_name i = name \<and> di_status i \<in> {''ok'', ''warn'', ''fail'', ''skipped''}"

lemma item_of_item: "status \<in> {''ok'', ''warn'', ''fail'', ''skipped''} \<Longrightarrow> item_of name (item name status ms detail)"
  by (simp add: item_of_def item_def)

lemma items_ok:
  "item_of ''network'' (network_item io)" "item_of ''gateway'' (gateway_item io)" "item_of ''dns'' (dns_item io r)"
  "item_of ''proxy'' (through_proxy running ''proxy'' (proxy_probe io))"
  "item_of ''packet_loss'' (loss_item io)" "item_of ''speed'' (through_proxy running ''speed'' (speed_probe io))"
  by (auto simp: network_item_def gateway_item_def dns_item_def through_proxy_def proxy_probe_def loss_item_def
      speed_probe_def Let_def intro!: item_of_item split: option.split sum.split prod.split)

text \<open>What every step does, whatever it probes.\<close>

definition good_step :: "diag_io \<Rightarrow> string \<Rightarrow> nat \<times> (diag_engine \<Rightarrow> diag_engine \<times> diag_item) \<Rightarrow> bool" where
  "good_step io name p \<longleftrightarrow>
     (\<forall>s s' i. snd p s = (s', i) \<longrightarrow> item_of name i \<and> de_events s' = de_events s @ progress (fst p, i)
        \<and> de_rows s' = map_option (\<lambda>rows. rows @ logged io [(fst p, i)]) (de_rows s))"

lemma good_step_of:
  assumes "\<And>s s' i. probe s = (s', i) \<Longrightarrow> item_of name i \<and> de_events s' = de_events s \<and> de_rows s' = de_rows s"
  shows "good_step io name (k, step_of io k name probe)"
  unfolding good_step_def
proof (intro allI impI)
  fix s s' i
  assume st: "snd (k, step_of io k name probe) s = (s', i)"
  obtain s2 i2 where p: "probe (emit_running k name s) = (s2, i2)" by force
  from assms [OF p] st p show "item_of name i \<and> de_events s' = de_events s @ progress (fst (k, step_of io k name probe), i)
      \<and> de_rows s' = map_option (\<lambda>rows. rows @ logged io [(fst (k, step_of io k name probe), i)]) (de_rows s)"
    by (auto simp: step_of_def finish_step_def emit_running_def progress_def DIAG_TOTAL_def item_of_def logged_def
        insert_diagnostic_def option.map_comp comp_def intro!: option.map_cong0)
qed

lemma diag_steps_good: "list_all2 (good_step io) DIAG_NAMES (diag_steps io running)"
  by (auto simp: DIAG_NAMES_def diag_steps_def items_ok intro!: good_step_of split: prod.splits)

fun taken :: "diag_io \<Rightarrow> nat list \<Rightarrow> nat list" where
  "taken io [] = []"
| "taken io (k # ks) = (if ks \<noteq> [] \<and> dg_cancelled io k then [k] else k # taken io ks)"

lemma run_steps_exact:
  assumes "list_all2 (good_step io) names steps" "run_steps io steps s items = (s', items', finished)"
  obtains ps where "items' = items @ map snd ps" "map fst ps = taken io (map fst steps)"
    "list_all2 item_of (take (length ps) names) (map snd ps)"
    "de_events s' = de_events s @ concat (map progress ps)"
    "de_rows s' = map_option (\<lambda>rows. rows @ logged io ps) (de_rows s)"
    "finished \<longleftrightarrow> length ps = length steps"
  using assms
proof (induction names steps arbitrary: s items thesis rule: list_all2_induct)
  case Nil
  then show ?case using Nil.prems(1) [of "[]"] by (simp add: logged_def option.map_ident)
next
  case (Cons name names p steps)
  obtain k f where p: "p = (k, f)" by force
  obtain s1 i where f: "f s = (s1, i)" by force
  with Cons.hyps(1) p have g: "item_of name i" "de_events s1 = de_events s @ progress (k, i)"
      "de_rows s1 = map_option (\<lambda>rows. rows @ logged io [(k, i)]) (de_rows s)"
    by (auto simp: good_step_def)
  show ?case
  proof (cases "steps \<noteq> [] \<and> dg_cancelled io k")
    case True
    with Cons.prems(2) p f g show ?thesis by (intro Cons.prems(1) [of "[(k, i)]"]) auto
  next
    case False
    with Cons.prems(2) p f have "run_steps io steps s1 (items @ [i]) = (s', items', finished)" by auto
    from Cons.IH [OF _ this] obtain ps where "items' = items @ i # map snd ps" "map fst ps = taken io (map fst steps)"
      "list_all2 item_of (take (length ps) names) (map snd ps)"
      "de_events s' = de_events s1 @ concat (map progress ps)"
      "de_rows s' = map_option (\<lambda>rows. rows @ logged io ps) (de_rows s1)"
      "finished \<longleftrightarrow> length ps = length steps" by (metis append.assoc append_Cons append_Nil)
    with False p g show ?thesis
      by (intro Cons.prems(1) [of "(k, i) # ps"]) (auto simp: option.map_comp comp_def logged_def intro!: option.map_cong0)
  qed
qed

lemma diag_steps_keys: "map fst (diag_steps io running) = [1, 2, 3, 4, 5, 6]"
  by (simp add: diag_steps_def)

lemma length_diag_steps: "length (diag_steps io running) = 6"
  by (simp add: diag_steps_def)

lemma taken_keys: "taken io [1, 2, 3, 4, 5, 6] = take (steps_taken io) [1, 2, 3, 4, 5, 6]"
  by (simp add: steps_taken_def)

lemma steps_taken_bounds: "1 \<le> steps_taken io \<and> steps_taken io \<le> 6"
  by (simp add: steps_taken_def)

text \<open>
  C38. A diagnostic run takes its six steps in order and stops at the first cancellation it
  sees.  Its report has one item per step taken, under the names of the steps; each was
  announced as running and then with its result, and the table got each item whose insertion
  did not fail, in the same order.  The report itself is announced exactly when no
  cancellation cut the run.
\<close>

theorem diag_run_exact:
  assumes "diag_run io running s = (s', report)"
  shows "length (dr_items report) = steps_taken io
    \<and> list_all2 item_of (take (steps_taken io) DIAG_NAMES) (dr_items report)
    \<and> de_events s' = de_events s @ concat (map progress (zip [1, 2, 3, 4, 5, 6] (dr_items report)))
        @ (if steps_taken io = 6 then [DiagCompleted report] else [])
    \<and> de_rows s' = map_option (\<lambda>rows. rows @ logged io (zip [1, 2, 3, 4, 5, 6] (dr_items report))) (de_rows s)"
proof -
  obtain s1 items fin where r: "run_steps io (diag_steps io running) s [] = (s1, items, fin)"
    by (metis prod.exhaust)
  with assms have report: "dr_items report = items"
    "s' = (if fin then s1\<lparr>de_events := de_events s1 @ [DiagCompleted report]\<rparr> else s1)"
    by (auto simp: diag_run_def Let_def)
  obtain ps where ps: "items = map snd ps" "map fst ps = taken io [1, 2, 3, 4, 5, 6]"
    "list_all2 item_of (take (length ps) DIAG_NAMES) (map snd ps)"
    "de_events s1 = de_events s @ concat (map progress ps)"
    "de_rows s1 = map_option (\<lambda>rows. rows @ logged io ps) (de_rows s)" "fin \<longleftrightarrow> length ps = 6"
    by (rule run_steps_exact [OF diag_steps_good r, unfolded diag_steps_keys], rule that)
      (simp_all only: append_Nil length_diag_steps)
  have "length ps = length (taken io [1, 2, 3, 4, 5, 6])" using ps(2) by (metis length_map)
  also have "\<dots> = min (length [1, 2, 3, 4, 5, 6 :: nat]) (steps_taken io)" by (simp only: taken_keys length_take)
  also have "\<dots> = steps_taken io" using steps_taken_bounds [of io] by simp
  finally have n: "length ps = steps_taken io" .
  have "ps = zip (map fst ps) (map snd ps)" by (simp add: zip_map_fst_snd)
  also have "\<dots> = zip (take (length items) [1, 2, 3, 4, 5, 6]) items"
    by (simp only: ps(1,2) taken_keys n length_map)
  also have "\<dots> = zip [1, 2, 3, 4, 5, 6] items"
    using take_zip [of "length items" "[1, 2, 3, 4, 5, 6 :: nat]" items] by simp
  finally have z: "zip [1, 2, 3, 4, 5, 6] items = ps" by (rule sym)
  have "length items = steps_taken io" "list_all2 item_of (take (steps_taken io) DIAG_NAMES) items"
    using ps(1,3) n by (simp_all only: length_map)
  moreover have "fin \<longleftrightarrow> steps_taken io = 6" using ps(6) n by simp
  ultimately show ?thesis using ps(4,5) unfolding report(1) z by (simp add: report(2))
qed

text \<open>The packet loss is \<^verbatim>\<open>ok\<close> when every echo came back, and \<^verbatim>\<open>fail\<close> when none did.\<close>

definition answered :: "nat \<Rightarrow> (nat \<Rightarrow> echo) \<Rightarrow> nat" where
  "answered count echoes = length (filter (\<lambda>k. ping_once (echoes k) \<noteq> None) [0..<count])"

lemma ping_loss_rate:
  assumes "count < 2 ^ 32"
  shows "fst (ping_loss count echoes) = of_nat (answered count echoes) / of_nat count"
proof -
  have "unat (fst (foldl (\<lambda>(ok, total) k. case ping_once (echoes k) of Some rtt \<Rightarrow> (ok + 1, total + rtt) | None \<Rightarrow> (ok, total))
      (ok, total) ks)) = unat ok + length (filter (\<lambda>k. ping_once (echoes k) \<noteq> None) ks)"
    if "unat ok + length ks < 2 ^ 32" for ok total :: u32 and ks
    using that
  proof (induction ks arbitrary: ok total)
    case (Cons k ks)
    have "unat (ok + 1) = unat ok + 1" using Cons.prems by (simp add: unat_add_lem [THEN iffD1])
    with Cons show ?case by (auto split: option.split)
  qed simp
  note n = this [of 0 "[0..<count]" 0]
  obtain ok total where f: "foldl (\<lambda>(ok, total) k. case ping_once (echoes k) of Some rtt \<Rightarrow> (ok + 1, total + rtt)
      | None \<Rightarrow> (ok, total)) (0 :: u32, 0) [0..<count] = (ok, total)" by (rule prod.exhaust)
  with n assms have "unat ok = answered count echoes" by (simp add: answered_def)
  moreover have "fst (ping_loss count echoes) = of_nat (unat ok) / of_nat count"
    using f by (simp add: ping_loss_def Let_def)
  ultimately show ?thesis by (simp only:)
qed

lemma loss_status:
  "di_status (loss_item io) =
     (if answered 5 (dg_echoes io) = 5 then ''ok'' else if answered 5 (dg_echoes io) = 0 then ''fail'' else ''warn'')"
proof -
  have "answered 5 (dg_echoes io) \<le> 5"
    unfolding answered_def by (rule order_trans [OF length_filter_le]) simp
  then have "answered 5 (dg_echoes io) \<in> {0, 1, 2, 3, 4, 5}" by auto
  with ping_loss_rate [of 5 "dg_echoes io"] show ?thesis
    by (auto simp: loss_item_def item_def Let_def split: prod.split)
qed

section \<open>One run at a time\<close>

text \<open>The requests and ends of tasks, in any order.\<close>

datatype diag_op = Run_requested | Cancel_requested | Task_ended nat

fun diag_do :: "diag_control \<Rightarrow> diag_op \<Rightarrow> diag_control" where
  "diag_do c Run_requested = fst (diagnostics_run c)"
| "diag_do c Cancel_requested = diagnostics_cancel c"
| "diag_do c (Task_ended t) = (if t \<in> set (dk_tasks c) then task_end t c else c)"

definition idle_control :: diag_control where
  "idle_control = \<lparr>dk_slot = None, dk_tasks = [], dk_cancelled = {}, dk_fresh = 0\<rparr>"

lemma run_without_cancel:
  assumes "Cancel_requested \<notin> set ops" "dk_tasks c = (case dk_slot c of None \<Rightarrow> [] | Some t \<Rightarrow> [t])"
  shows "dk_tasks (foldl diag_do c ops) = (case dk_slot (foldl diag_do c ops) of None \<Rightarrow> [] | Some t \<Rightarrow> [t])"
  using assms
proof (induction ops arbitrary: c)
  case (Cons op ops)
  have "dk_tasks (diag_do c op) = (case dk_slot (diag_do c op) of None \<Rightarrow> [] | Some t \<Rightarrow> [t])"
    using Cons.prems by (cases op) (auto simp: diagnostics_run_def task_end_def split: option.splits)
  with Cons show ?case by simp
qed simp

text \<open>
  Diagnostics run one at a time, until one is cancelled.  Without a cancellation the guard
  holds the token of the only run.  After a cancellation the slot is free while the cancelled
  run still works on its step; a second run may start, the end of the first empties the slot
  of the second, and then a third runs beside the second, which no request can cancel.
\<close>

theorem diagnostics_overlap_after_cancel:
  "(Cancel_requested \<notin> set ops \<longrightarrow> length (dk_tasks (foldl diag_do idle_control ops)) \<le> 1)
 \<and> (let c = foldl diag_do idle_control [Run_requested, Cancel_requested, Run_requested, Task_ended 0, Run_requested]
    in dk_tasks c = [2, 1] \<and> 1 \<notin> dk_cancelled c \<and> dk_slot c = Some 2)"
proof
  have start: "dk_tasks idle_control = (case dk_slot idle_control of None \<Rightarrow> [] | Some t \<Rightarrow> [t])"
    by (simp add: idle_control_def)
  show "Cancel_requested \<notin> set ops \<longrightarrow> length (dk_tasks (foldl diag_do idle_control ops)) \<le> 1"
    using run_without_cancel [OF _ start, of ops] by (auto split: option.splits)
  show "let c = foldl diag_do idle_control [Run_requested, Cancel_requested, Run_requested, Task_ended 0, Run_requested]
    in dk_tasks c = [2, 1] \<and> 1 \<notin> dk_cancelled c \<and> dk_slot c = Some 2"
    by (simp add: idle_control_def diagnostics_run_def diagnostics_cancel_def task_end_def)
qed

theorem diagnostics_overlap_after_cancel_witness:
  "length (dk_tasks (foldl diag_do idle_control [Run_requested, Run_requested, Task_ended 0, Run_requested])) \<le> 1"
  using diagnostics_overlap_after_cancel [of "[Run_requested, Run_requested, Task_ended 0, Run_requested]"] by simp

definition demo_diag :: diag_io where
  "demo_diag = \<lparr>dg_started = 1, dg_finished = 2, dg_insert_now = int, dg_insert_fails = (\<lambda>_. False),
     dg_ping = No_handle, dg_routes = None, dg_gateway_ping = (\<lambda>_. No_handle),
     dg_net = \<lparr>nt_id = (\<lambda>_. 0), nt_send = (\<lambda>_ _ _. Inl Timeout)\<rparr>, dg_clock = id, dg_elapsed = (\<lambda>_. 0),
     dg_client = None, dg_reply = Inl ''e'', dg_echoes = (\<lambda>_. No_handle), dg_speed_client = None,
     dg_download = Inl ''e'', dg_speed_secs = 1, dg_cancelled = (\<lambda>k. k = 2)\<rparr>"

definition demo_engine_state :: diag_engine where
  "demo_engine_state = \<lparr>de_dns = demo_dns, de_rows = Some [], de_events = []\<rparr>"

theorem diag_run_exact_witness:
  "length (dr_items (snd (diag_run demo_diag False demo_engine_state))) = 2"
proof -
  obtain s' report where r: "diag_run demo_diag False demo_engine_state = (s', report)" by force
  have "steps_taken demo_diag = 2" by (simp add: steps_taken_def demo_diag_def)
  with diag_run_exact [OF r] show ?thesis by (simp add: r)
qed

end
