(* ===== verification/Ipc_Frame.thy ===== *)
theory Ipc_Frame
  imports Common
begin

text \<open>
  \<^verbatim>\<open>ipc/frame.rs\<close>: length-prefixed framing over the pipe.  A stream is the bytes still
  to come; a reader returns its result and the bytes after it.
\<close>

definition MAX_FRAME :: nat where
  "MAX_FRAME = 16 * 1024 * 1024"

definition read_exact :: "nat \<Rightarrow> u8 list \<Rightarrow> (svc_error + u8 list) \<times> u8 list" where
  "read_exact n s =
     (if n \<le> length s then (Inr (take n s), drop n s) else (Inl (Io ''early eof''), []))"

definition read_frame :: "u8 list \<Rightarrow> (svc_error + u8 list) \<times> u8 list" where
  "read_frame s =
     (case read_exact 4 s of
        (Inl e, s) \<Rightarrow> (Inl e, s)
      | (Inr len_buf, s) \<Rightarrow>
          (let len = unat (from_le_bytes len_buf :: u32)
           in if len = 0 then (Inl (Other ''empty frame''), s)
              else if MAX_FRAME < len then (Inl (Other (''frame too large: '' @ nat_str len)), s)
              else read_exact len s))"

text \<open>A write that fails has put some prefix of the bytes on the wire.\<close>

definition write_all :: "(string \<times> nat) option \<Rightarrow> u8 list \<Rightarrow> u8 list \<times> (svc_error + unit)" where
  "write_all fault bytes =
     (case fault of None \<Rightarrow> (bytes, Inr ()) | Some (e, n) \<Rightarrow> (take n bytes, Inl (Io e)))"

definition write_frame ::
  "(string \<times> nat) option \<Rightarrow> (string \<times> nat) option \<Rightarrow> u8 list \<Rightarrow> u8 list \<times> (svc_error + unit)" where
  "write_frame fault1 fault2 bytes =
     (let len = of_nat (length bytes) :: u32
      in case write_all fault1 (to_le_bytes 4 len) of
           (out, Inl e) \<Rightarrow> (out, Inl e)
         | (out, Inr _) \<Rightarrow>
             (case write_all fault2 bytes of (out2, r) \<Rightarrow> (out @ out2, r)))"

definition frame :: "u8 list \<Rightarrow> u8 list" where
  "frame bytes = fst (write_frame None None bytes)"

primrec read_frames :: "nat \<Rightarrow> u8 list \<Rightarrow> (svc_error + u8 list list) \<times> u8 list" where
  "read_frames 0 s = (Inr [], s)"
| "read_frames (Suc n) s =
     (case read_frame s of
        (Inl e, s) \<Rightarrow> (Inl e, s)
      | (Inr f, s) \<Rightarrow>
          (case read_frames n s of (Inl e, s) \<Rightarrow> (Inl e, s) | (Inr fs, s) \<Rightarrow> (Inr (f # fs), s)))"

definition sendable :: "u8 list \<Rightarrow> bool" where
  "sendable f \<longleftrightarrow> f \<noteq> [] \<and> length f \<le> MAX_FRAME"

lemma frame_eq: "frame f = to_le_bytes 4 (of_nat (length f) :: u32) @ f"
  by (simp add: frame_def write_frame_def write_all_def Let_def)

lemma frame_length_word: "length f < 2 ^ 32 \<Longrightarrow> unat (of_nat (length f) :: u32) = length f"
  by (simp add: unsigned_of_nat take_bit_nat_eq_self)

lemma read_frame_header:
  "read_frame (to_le_bytes 4 w @ s) =
     (if w = 0 then (Inl (Other ''empty frame''), s)
      else if MAX_FRAME < unat w then (Inl (Other (''frame too large: '' @ nat_str (unat w))), s)
      else read_exact (unat w) s)" for w :: u32
  by (simp add: read_frame_def read_exact_def Let_def from_le_bytes_to_le_bytes unat_eq_zero)

lemma read_frame_frame: "sendable f \<Longrightarrow> read_frame (frame f @ s) = (Inr f, s)"
proof -
  assume f: "sendable f"
  then have "length f < 2 ^ 32" by (simp add: sendable_def MAX_FRAME_def)
  note u = frame_length_word [OF this]
  have "(of_nat (length f) :: u32) \<noteq> 0" using u f by (auto simp: sendable_def)
  with u f show ?thesis
    by (simp add: frame_eq read_frame_header sendable_def read_exact_def)
qed

lemma read_frames_concat:
  "\<forall>f \<in> set fs. sendable f \<Longrightarrow> read_frames (length fs) (concat (map frame fs) @ rest) = (Inr fs, rest)"
  by (induction fs) (simp_all add: read_frame_frame)

text \<open>
  What one side frames the other side reads: a sequence of non-empty messages of at most
  16 MiB, framed one after the other, is read back message by message, leaving exactly the
  bytes that follow.
\<close>

theorem frames_roundtrip:
  assumes "\<forall>f \<in> set fs. sendable f"
  shows "read_frames (length fs) (concat (map frame fs) @ rest) = (Inr fs, rest)"
  using assms by (rule read_frames_concat)

theorem frames_roundtrip_witness:
  "read_frames 2 (concat (map frame [[1, 2], [3]]) @ [9]) = (Inr [[1, 2], [3]], [9])"
  using frames_roundtrip [of "[[1, 2], [3]]" "[9]"] by (simp add: sendable_def MAX_FRAME_def numeral_2_eq_2)

text \<open>
  The reader accepts nothing else: a message it returns is not empty, is no longer than
  16 MiB, and was preceded by its own frame header on the stream; so the memory that a
  header can make it allocate is bounded, and framing is unambiguous.
\<close>

theorem read_frame_exact:
  "case read_frame s of
     (Inr f, rest) \<Rightarrow> sendable f \<and> s = frame f @ rest
   | (Inl e, rest) \<Rightarrow> \<exists>eaten. s = eaten @ rest \<and> (\<forall>f rest'. sendable f \<longrightarrow> s \<noteq> frame f @ rest')"
proof (cases "read_frame s")
  case (Pair r rest)
  have only: "\<forall>f rest'. sendable f \<longrightarrow> s \<noteq> frame f @ rest'" if "r = Inl e" for e
    using that Pair read_frame_frame by auto
  have "rest = [] \<or> (\<exists>n. rest = drop n s)"
    using Pair by (auto simp: read_frame_def read_exact_def Let_def split: if_splits)
  then have sub: "\<exists>eaten. s = eaten @ rest"
    by (metis append_Nil2 append_take_drop_id)
  show ?thesis
  proof (cases r)
    case (Inl e)
    with Pair sub only show ?thesis by simp
  next
    case (Inr f)
    with Pair have len: "4 \<le> length s" by (auto simp: read_frame_def read_exact_def split: if_splits)
    let ?w = "from_le_bytes (take 4 s) :: u32"
    from Inr Pair len have w: "?w \<noteq> 0" "unat ?w \<le> MAX_FRAME" "unat ?w \<le> length s - 4"
      "f = take (unat ?w) (drop 4 s)" "rest = drop (unat ?w) (drop 4 s)"
      by (auto simp: read_frame_def read_exact_def Let_def unat_eq_zero split: if_splits)
    have lf: "length f = unat ?w" using w(3,4) by simp
    have "to_le_bytes 4 (of_nat (length f) :: u32) = take 4 s"
    proof -
      have "(of_nat (length f) :: u32) = ?w" by (simp add: lf)
      then show ?thesis using len by (simp add: to_le_bytes_from_le_bytes)
    qed
    then have "frame f @ rest = take 4 s @ f @ rest" by (simp only: frame_eq append.assoc)
    also have "f @ rest = drop 4 s" unfolding w(4,5) by (rule append_take_drop_id)
    finally have "frame f @ rest = take 4 s @ drop 4 s" .
    moreover have "sendable f" using w(1,2) lf by (auto simp: sendable_def unat_eq_zero)
    ultimately show ?thesis using Pair Inr by simp
  qed
qed

theorem read_frame_exact_witness:
  "sendable (projr (fst (read_frame (frame [7] @ [1, 2]))))"
  using read_frame_exact [of "frame [7] @ [1, 2]"] read_frame_frame [of "[7]" "[1, 2]"]
  by (simp add: sendable_def MAX_FRAME_def)

text \<open>
  The writer enforces no limit: a message between 16 MiB and 4 GiB is written without
  an error and then refused by the reader, and so is an empty one.
\<close>

theorem writer_limit_missing:
  assumes "f = [] \<or> (MAX_FRAME < length f \<and> length f < 2 ^ 32)"
  shows "snd (write_frame None None f) = Inr () \<and> \<not> is_ok (fst (read_frame (frame f @ s)))"
proof -
  from assms have lt: "length f < 2 ^ 32" by (auto simp: MAX_FRAME_def)
  note u = frame_length_word [OF lt]
  have "(of_nat (length f) :: u32) = 0 \<or> MAX_FRAME < unat (of_nat (length f) :: u32)"
    using assms u by auto
  then show ?thesis
    by (auto simp: write_frame_def write_all_def Let_def frame_eq read_frame_header)
qed

theorem writer_limit_missing_witness: "\<not> is_ok (fst (read_frame (frame [] @ [1])))"
  using writer_limit_missing [of "[]" "[1]"] by simp

end
