(* ===== verification/Ipc_Server.thy ===== *)
theory Ipc_Server
  imports Ipc_Frame "HOL-Library.Multiset"
begin

text \<open>
  \<^verbatim>\<open>ipc/server.rs\<close>: one connection of a client.  The loop reads frames, decodes them and
  spawns a task per request; a task answers with one response, a panic included.  The protobuf
  encodings and the method table are arguments; the pipe is the bytes that arrive on it.
\<close>

section \<open>Messages\<close>

record request =
  rq_id :: string
  rq_method :: string
  rq_payload :: "u8 list"
  rq_version :: u32

record response =
  rs_id :: string
  rs_code :: int
  rs_message :: string
  rs_payload :: "u8 list"

text \<open>A handler returns, or panics with a payload of one of the usual types or another.\<close>

datatype outcome = Returned "svc_error + u8 list" | Panicked_str string | Panicked_string string | Panicked_other

definition wrap :: "('m \<Rightarrow> u8 list) \<Rightarrow> 'm \<Rightarrow> u8 list" where
  "wrap enc msg =
     (let body = enc msg in to_le_bytes 4 (of_nat (length body) :: u32) @ body)"

definition panic_response :: "request \<Rightarrow> string \<Rightarrow> response" where
  "panic_response rq detail =
     \<lparr>rs_id = rq_id rq, rs_code = 500, rs_message = ''internal handler panic: '' @ detail, rs_payload = []\<rparr>"

definition respond :: "request \<Rightarrow> outcome \<Rightarrow> response" where
  "respond rq out =
     (case out of
        Returned (Inr payload) \<Rightarrow> \<lparr>rs_id = rq_id rq, rs_code = 0, rs_message = ''ok'', rs_payload = payload\<rparr>
      | Returned (Inl e) \<Rightarrow> \<lparr>rs_id = rq_id rq, rs_code = err_code e, rs_message = err_display e, rs_payload = []\<rparr>
      | Panicked_str s \<Rightarrow> panic_response rq s
      | Panicked_string s \<Rightarrow> panic_response rq s
      | Panicked_other \<Rightarrow> panic_response rq ''handler panicked'')"

definition bad_request :: "string \<Rightarrow> response" where
  "bad_request e = \<lparr>rs_id = [], rs_code = 422, rs_message = ''bad request: '' @ e, rs_payload = []\<rparr>"

section \<open>The request loop\<close>

text \<open>
  What the loop does with the bytes that arrive: an immediate reply, or a task for a request.
  The \<open>closed\<close> argument tells whether the writer is gone when the \<open>k\<close>-th frame is dealt with.
\<close>

datatype loop_action = Reply_now response | Spawn request

function request_loop ::
  "(u8 list \<Rightarrow> string + request) \<Rightarrow> (nat \<Rightarrow> bool) \<Rightarrow> nat \<Rightarrow> u8 list \<Rightarrow> loop_action list" where
  "request_loop dec closed k s =
     (if length s < 4 then []
      else
        (let len = unat (from_le_bytes (take 4 s) :: u32); s = drop 4 s
         in if len = 0 \<or> MAX_FRAME < len then []
            else if length s < len then []
            else case dec (take len s) of
                   Inl e \<Rightarrow>
                     if closed k then []
                     else Reply_now (bad_request e) # request_loop dec closed (k + 1) (drop len s)
                 | Inr rq \<Rightarrow> Spawn rq # request_loop dec closed (k + 1) (drop len s)))"
  by pat_completeness auto
termination
  by (relation "measure (\<lambda>(dec, closed, k, s). length s)") auto

declare request_loop.simps [simp del]

definition reply_of :: "(request \<Rightarrow> outcome) \<Rightarrow> loop_action \<Rightarrow> response" where
  "reply_of handler a = (case a of Reply_now r \<Rightarrow> r | Spawn rq \<Rightarrow> respond rq (handler rq))"

section \<open>Requests and replies\<close>

lemma wrap_frame: "wrap enc m = frame (enc m)"
  by (simp add: wrap_def frame_eq Let_def)

lemma map_wrap: "map (wrap enc) ms = map frame (map enc ms)"
  by (simp add: wrap_frame)

definition action_of :: "(u8 list \<Rightarrow> string + request) \<Rightarrow> u8 list \<Rightarrow> loop_action" where
  "action_of dec b = (case dec b of Inl e \<Rightarrow> Reply_now (bad_request e) | Inr rq \<Rightarrow> Spawn rq)"

lemma request_loop_frame:
  assumes "sendable b" "\<not> closed k"
  shows "request_loop dec closed k (frame b @ s) = action_of dec b # request_loop dec closed (k + 1) s"
proof -
  have len: "length b < 2 ^ 32" using assms(1) by (simp add: sendable_def MAX_FRAME_def)
  have "unat (from_le_bytes (to_le_bytes 4 (of_nat (length b) :: u32)) :: u32) = length b"
    using frame_length_word [OF len] by (simp add: from_le_bytes_to_le_bytes)
  with assms show ?thesis
    by (subst request_loop.simps) (auto simp: frame_eq sendable_def action_of_def split: sum.split)
qed

lemma request_loop_frames:
  assumes "\<forall>b \<in> set bodies. sendable b" "\<And>k. \<not> closed k"
  shows "request_loop dec closed k (concat (map frame bodies) @ s)
       = map (action_of dec) bodies @ request_loop dec closed (k + length bodies) s"
  using assms(1) by (induction bodies arbitrary: k) (simp_all add: request_loop_frame [OF _ assms(2)])

lemma request_loop_stops:
  "length s < 4 \<Longrightarrow> request_loop dec closed k s = []"
  by (simp add: request_loop.simps)

lemma err_code_nonzero: "err_code e \<noteq> 0"
  using err_code_pos [of e] by simp

lemma respond_code: "rs_code (respond rq out) = 0 \<longleftrightarrow> (\<exists>p. out = Returned (Inr p))"
  by (auto simp: respond_def panic_response_def err_code_nonzero split: outcome.split sum.split)

lemma respond_id: "rs_id (respond rq out) = rq_id rq"
  by (simp add: respond_def panic_response_def split: outcome.split sum.split)



section \<open>Events\<close>

text \<open>\<^verbatim>\<open>ipc/events.rs\<close>: what was sent on the bus, in order.  The encoder of a message may fail.\<close>

record event_message =
  em_type :: string
  em_payload :: "u8 list"
  em_timestamp :: int

record event_bus =
  eb_capacity :: nat
  eb_sent :: "event_message list"

definition event_bus_new :: "nat \<Rightarrow> event_bus" where
  "event_bus_new capacity = \<lparr>eb_capacity = max capacity 16, eb_sent = []\<rparr>"

definition emit_raw :: "event_message \<Rightarrow> event_bus \<Rightarrow> event_bus" where
  "emit_raw msg bus = bus\<lparr>eb_sent := eb_sent bus @ [msg]\<rparr>"

definition emit :: "('m \<Rightarrow> u8 list option) \<Rightarrow> int \<Rightarrow> string \<Rightarrow> 'm \<Rightarrow> event_bus \<Rightarrow> event_bus" where
  "emit enc now ty payload bus =
     (case enc payload of
        Some buf \<Rightarrow> emit_raw \<lparr>em_type = ty, em_payload = buf, em_timestamp = now\<rparr> bus
      | None \<Rightarrow> bus)"

definition emit_empty :: "int \<Rightarrow> string \<Rightarrow> event_bus \<Rightarrow> event_bus" where
  \<comment> \<open>the empty message has an empty encoding\<close>
  "emit_empty now ty bus = emit (\<lambda>_. Some []) now ty () bus"

text \<open>
  The forwarder of a connection: what the receiver gives it, one message after the other, and
  whether the queue of the writer is gone when the \<open>k\<close>-th frame is to be sent.
\<close>

datatype received = Received event_message | Lagged nat | Bus_closed

fun forward_events ::
  "(event_message \<Rightarrow> u8 list) \<Rightarrow> (nat \<Rightarrow> bool) \<Rightarrow> nat \<Rightarrow> received list \<Rightarrow> u8 list list" where
  "forward_events enc closed k [] = []"
| "forward_events enc closed k (Received msg # rest) =
     (if closed k then [] else wrap enc msg # forward_events enc closed (k + 1) rest)"
| "forward_events enc closed k (Lagged _ # rest) = forward_events enc closed k rest"
| "forward_events enc closed k (Bus_closed # rest) = []"

text \<open>The writer: a frame may fail to be written, with some bytes of it out; then it stops.\<close>

fun writer_loop :: "(nat \<Rightarrow> nat option) \<Rightarrow> nat \<Rightarrow> u8 list list \<Rightarrow> u8 list" where
  "writer_loop fails k [] = []"
| "writer_loop fails k (f # rest) =
     (case fails k of Some n \<Rightarrow> take n f | None \<Rightarrow> f @ writer_loop fails (k + 1) rest)"

fun delivered :: "received list \<Rightarrow> event_message list" where
  \<comment> \<open>the messages up to the end of the bus, without those a slow receiver lost\<close>
  "delivered [] = []"
| "delivered (Received msg # rest) = msg # delivered rest"
| "delivered (Lagged _ # rest) = delivered rest"
| "delivered (Bus_closed # rest) = []"

lemma forward_events_open:
  "(\<And>k. \<not> closed k) \<Longrightarrow> forward_events enc closed k rs = map (wrap enc) (delivered rs)"
  by (induction rs arbitrary: k rule: delivered.induct) simp_all

lemma writer_loop_concat: "(\<And>k. fails k = None) \<Longrightarrow> writer_loop fails k frames = concat frames"
  by (induction frames arbitrary: k) simp_all

lemma map_shuffles: "map f ` shuffles xs ys = shuffles (map f xs) (map f ys)"
proof (induction xs ys rule: shuffles.induct)
  case (3 x xs y ys)
  have "map f ` (#) z ` A = (#) (f z) ` map f ` A" for z A by (simp add: image_image)
  with 3 show ?case by (simp add: image_Un)
qed simp_all

lemma shuffles_frames:
  "queue \<in> shuffles (map (wrap enc) xs) (map (wrap enc2) ys) \<Longrightarrow>
     \<exists>bodies. queue = map frame bodies \<and> bodies \<in> shuffles (map enc xs) (map enc2 ys)"
proof -
  assume "queue \<in> shuffles (map (wrap enc) xs) (map (wrap enc2) ys)"
  then have "queue \<in> shuffles (map frame (map enc xs)) (map frame (map enc2 ys))" by (simp only: map_wrap)
  then show ?thesis unfolding map_shuffles [symmetric] by auto
qed

text \<open>
  A client reads whole messages.  However the writer's queue mixes the responses of the
  handlers with the pushed events, and whatever a slow receiver lost, reading frames from the
  pipe gives every response and every event that was received, each once; the responses in the
  order they were queued and the events in the order they were sent.
\<close>

theorem replies_and_events_arrive:
  assumes "queue \<in> shuffles (map (wrap enc) replies) (forward_events enc_event closed 0 rs)"
    and "\<And>k. \<not> closed k" "\<And>k. fails k = None"
    and "\<forall>r \<in> set replies. sendable (enc r)" "\<forall>e \<in> set (delivered rs). sendable (enc_event e)"
  shows "\<exists>bodies. read_frames (length replies + length (delivered rs)) (writer_loop fails 0 queue) = (Inr bodies, [])
    \<and> bodies \<in> shuffles (map enc replies) (map enc_event (delivered rs))"
proof -
  from assms(1) shuffles_frames obtain bodies where
    q: "queue = map frame bodies" and b: "bodies \<in> shuffles (map enc replies) (map enc_event (delivered rs))"
    unfolding forward_events_open [OF assms(2)] by metis
  have n: "length bodies = length replies + length (delivered rs)" using length_shuffles [OF b] by simp
  have "\<forall>x \<in> set bodies. sendable x" using set_shuffles [OF b] assms(4,5) by auto
  with read_frames_concat [of bodies "[]"] have "read_frames (length bodies) (concat (map frame bodies)) = (Inr bodies, [])" by simp
  with q n b show ?thesis unfolding writer_loop_concat [OF assms(3)] by metis
qed

theorem replies_and_events_arrive_witness:
  "\<exists>bodies. read_frames 3 (writer_loop (\<lambda>_. None) 0
        [wrap id [9], wrap em_payload \<lparr>em_type = ''t'', em_payload = [1], em_timestamp = 0\<rparr>,
         wrap em_payload \<lparr>em_type = ''t'', em_payload = [2], em_timestamp = 1\<rparr>]) = (Inr bodies, [])
     \<and> bodies \<in> shuffles [[9]] [[1], [2]]"
  using replies_and_events_arrive [where closed = "\<lambda>_. False" and fails = "\<lambda>_. None" and enc = id and replies = "[[9]]"
      and enc_event = em_payload
      and rs = "[Received \<lparr>em_type = ''t'', em_payload = [1], em_timestamp = 0\<rparr>, Lagged 2,
         Received \<lparr>em_type = ''t'', em_payload = [2], em_timestamp = 1\<rparr>, Bus_closed]"
      and queue = "[wrap id [9], wrap em_payload \<lparr>em_type = ''t'', em_payload = [1], em_timestamp = 0\<rparr>,
         wrap em_payload \<lparr>em_type = ''t'', em_payload = [2], em_timestamp = 1\<rparr>]"]
  by (simp add: sendable_def MAX_FRAME_def numeral_3_eq_3)

end
