(* ===== verification/App_Context.thy ===== *)
theory App_Context
  imports Lifecycle Sub_Manager Dns_Manager Diagnostics Ipc_Server
begin

text \<open>
  \<^verbatim>\<open>app/context.rs\<close>: the method table of the service over the states of all managers.  A reply
  is the value that is encoded; the protobuf and JSON encodings are arguments, and so are the
  answers of the surroundings to the one call that a request makes.
\<close>

section \<open>State and surroundings\<close>

text \<open>
  The connection manager's record has the nodes, the rules, the statistics, the core, the
  settings and the disk.  Refreshes that were asked for run as tasks of their own, and so do
  diagnostics, each with its token and the proxy port it probes.
\<close>

record 'r app =
  ap_conn :: "'r conn_manager"
  ap_subs :: sub_manager
  ap_dns :: dns_manager
  ap_diag :: diag_control
  ap_refreshes :: "string list"
  ap_probes :: "(nat \<times> u16 option) list"

record 'r app_env =
  ae_rx :: "'r regex_crate"
  ae_json :: lc_json
  ae_sub :: sub_env
  ae_dns_text :: "dns_config \<Rightarrow> string"
  ae_version :: string
  ae_connect :: "u8 list \<Rightarrow> string + (string \<times> string)"
  ae_text :: "u8 list \<Rightarrow> string + string"
  ae_node :: "string \<Rightarrow> string + node"
  ae_input :: "string \<Rightarrow> string + subscription_input"
  ae_rule :: "string \<Rightarrow> string + rule"
  ae_dns :: "string \<Rightarrow> string + dns_config"
  ae_value :: "string \<Rightarrow> string + json"

record app_io =
  ai_now :: int
  ai_connect :: connect_io
  ai_disconnect :: disconnect_io
  ai_pending :: "(recover_io \<times> node \<times> u32) option"
  ai_pending2 :: "(recover_io \<times> node \<times> u32) option"
  ai_write :: write_io
  ai_write2 :: write_io
  ai_uuid :: string
  ai_net :: "string \<Rightarrow> connect_outcome"
  ai_dns_net :: dns_net
  ai_dns_elapsed :: "nat \<Rightarrow> nat"
  ai_dns_clock :: "nat \<Rightarrow> nat"
  ai_stats :: stats_env
  ai_range_fault :: "svc_error option"
  ai_ping :: "string \<Rightarrow> u16 \<Rightarrow> connect_outcome"
  ai_health :: health_io
  ai_diag :: diag_io
  ai_log :: "string option option"

datatype reply =
    R_version u32 string string
  | R_state conn_payload
  | R_empty
  | R_nodes "node list"
  | R_node node
  | R_node_stats node_stats
  | R_batch "(string \<times> node_stats) list"
  | R_json json
  | R_routing routing_config
  | R_rules "rule list"
  | R_rule rule
  | R_match match_test
  | R_dns dns_config
  | R_dns_tests "server_test list"
  | R_traffic traffic_payload
  | R_text string
  | R_item diag_item
  | R_loss rat "u32 option"
  | R_addresses "ip_addr list"

type_synonym 'r answered_app = "'r app \<times> (svc_error + reply)"

section \<open>Payloads\<close>

definition decode_connect :: "'r app_env \<Rightarrow> u8 list \<Rightarrow> svc_error + (string \<times> string)" where
  "decode_connect env bytes =
     (case ae_connect env bytes of Inl e \<Rightarrow> Inl (ConfigInvalid (''bad payload: '' @ e)) | Inr r \<Rightarrow> Inr r)"

definition text_payload :: "'r app_env \<Rightarrow> u8 list \<Rightarrow> svc_error + string" where
  "text_payload env bytes =
     (case ae_text env bytes of Inl e \<Rightarrow> Inl (ConfigInvalid (''bad TextPayload: '' @ e)) | Inr t \<Rightarrow> Inr t)"

definition text_or :: "'r app_env \<Rightarrow> u8 list \<Rightarrow> string" where
  \<comment> \<open>\<^verbatim>\<open>unwrap_or_default\<close>\<close>
  "text_or env bytes = (case text_payload env bytes of Inr t \<Rightarrow> t | Inl _ \<Rightarrow> [])"

definition from_text :: "'r app_env \<Rightarrow> (string \<Rightarrow> string + 'a) \<Rightarrow> u8 list \<Rightarrow> svc_error + 'a" where
  \<comment> \<open>\<^verbatim>\<open>serde_json::from_str(&text_payload(payload)?)?\<close>\<close>
  "from_text env de bytes =
     and_then (text_payload env bytes) (\<lambda>t. case de t of Inl e \<Rightarrow> Inl (Json e) | Inr v \<Rightarrow> Inr v)"

definition js_as_bool :: "json \<Rightarrow> bool option" where
  "js_as_bool v = (case v of JBool b \<Rightarrow> Some b | _ \<Rightarrow> None)"

definition js_as_i64 :: "json \<Rightarrow> int option" where
  "js_as_i64 v = (case v of JInt i \<Rightarrow> if - (2 ^ 63) \<le> i \<and> i < 2 ^ 63 then Some i else None | _ \<Rightarrow> None)"

definition js_as_u64 :: "json \<Rightarrow> u64 option" where
  "js_as_u64 v = (case v of JInt i \<Rightarrow> if 0 \<le> i \<and> i < 2 ^ 64 then Some (of_int i) else None | _ \<Rightarrow> None)"

definition state_payload :: "int \<Rightarrow> 'r app \<Rightarrow> conn_payload" where
  "state_payload now s = snapshot_payload now (lc_state (ap_conn s))"

section \<open>Calls on one manager\<close>

definition fails :: "'r app \<Rightarrow> svc_error \<Rightarrow> 'r answered_app" where
  "fails s e = (s, Inl e)"

definition with_value :: "'r app \<Rightarrow> svc_error + 'a \<Rightarrow> ('a \<Rightarrow> 'r answered_app) \<Rightarrow> 'r answered_app" where
  \<comment> \<open>the question mark on a value that changes no state\<close>
  "with_value s r f = (case r of Inl e \<Rightarrow> fails s e | Inr x \<Rightarrow> f x)"

definition query :: "'r app \<Rightarrow> svc_error + reply \<Rightarrow> 'r answered_app" where
  "query s r = (s, r)"

definition replied :: "('a \<Rightarrow> reply) \<Rightarrow> svc_error + 'a \<Rightarrow> svc_error + reply" where
  "replied f r = map_sum id f r"

definition on_conn :: "('r conn_manager \<Rightarrow> 'r conn_manager \<times> 'a) \<Rightarrow> 'r app \<Rightarrow> 'r app \<times> 'a" where
  "on_conn f s = (case f (ap_conn s) of (c, r) \<Rightarrow> (s\<lparr>ap_conn := c\<rparr>, r))"

definition on_node_memory :: "(node_manager \<Rightarrow> node_manager \<times> 'a) \<Rightarrow> 'r app \<Rightarrow> 'r app \<times> 'a" where
  "on_node_memory f = on_conn (\<lambda>c. case f (lc_nodes c) of (m, r) \<Rightarrow> (c\<lparr>lc_nodes := m\<rparr>, r))"

definition on_nodes :: "(nodes_state \<Rightarrow> nodes_state \<times> 'a) \<Rightarrow> 'r app \<Rightarrow> 'r app \<times> 'a" where
  "on_nodes f = on_conn (\<lambda>c. case f (lc_nodes c, lc_disk c) of ((m, disk), r) \<Rightarrow> (c\<lparr>lc_nodes := m, lc_disk := disk\<rparr>, r))"

definition on_routing :: "('r engine_state \<Rightarrow> 'r engine_state \<times> 'a) \<Rightarrow> 'r app \<Rightarrow> 'r app \<times> 'a" where
  "on_routing f =
     on_conn (\<lambda>c. case f (lc_routing c, lc_disk c) of ((e, disk), r) \<Rightarrow> (c\<lparr>lc_routing := e, lc_disk := disk\<rparr>, r))"

definition on_subs :: "(sub_state \<Rightarrow> sub_state \<times> 'a) \<Rightarrow> 'r app \<Rightarrow> 'r app \<times> 'a" where
  "on_subs f s =
     (case f (ap_subs s, lc_nodes (ap_conn s), lc_disk (ap_conn s)) of
        ((m, nm, disk), r) \<Rightarrow>
          (s\<lparr>ap_subs := m, ap_conn := (ap_conn s)\<lparr>lc_nodes := nm, lc_disk := disk\<rparr>\<rparr>, r))"

definition on_dns :: "(dns_manager \<times> config_manager \<times> fs \<Rightarrow> (dns_manager \<times> config_manager \<times> fs) \<times> 'a) \<Rightarrow> 'r app \<Rightarrow> 'r app \<times> 'a" where
  "on_dns f s =
     (case f (ap_dns s, lc_config (ap_conn s), lc_disk (ap_conn s)) of
        ((m, cm, disk), r) \<Rightarrow>
          (s\<lparr>ap_dns := m, ap_conn := (ap_conn s)\<lparr>lc_config := cm, lc_disk := disk, lc_dns := dm_cfg m\<rparr>\<rparr>, r))"

section \<open>The method table\<close>

text \<open>One definition per section of the table; \<open>None\<close> is a method of another section.\<close>

definition PROTOCOL_VERSION :: u32 where "PROTOCOL_VERSION = 1"

definition reconnect_target :: "'r app \<Rightarrow> string \<times> string \<Rightarrow> string \<times> string" where
  \<comment> \<open>what the request leaves open is taken from the last snapshot\<close>
  "reconnect_target s req =
     (case req of (node_id, mode) \<Rightarrow>
        (if node_id = [] then ss_node_id (lc_state (ap_conn s)) else node_id,
         if mode = [] then ss_mode (lc_state (ap_conn s)) else mode))"

definition then_state :: "app_io \<Rightarrow> 'r app \<times> (svc_error + unit) \<Rightarrow> 'r answered_app" where
  \<comment> \<open>a call with a question mark, then the snapshot as the reply\<close>
  "then_state io p =
     (case p of (s, Inl e) \<Rightarrow> fails s e | (s, Inr _) \<Rightarrow> (s, Inr (R_state (state_payload (ai_now io) s))))"

definition dispatch_connection ::
  "'r app_env \<Rightarrow> app_io \<Rightarrow> string \<Rightarrow> u8 list \<Rightarrow> 'r app \<Rightarrow> 'r answered_app option" where
  "dispatch_connection env io method payload s =
     (if method = ''system.getVersion'' then
        Some (query s (Inr (R_version PROTOCOL_VERSION (ae_version env) (cc_kind (core_cfg (ap_conn s))))))
      else if method = ''connection.getStatus'' then
        Some (query s (Inr (R_state (state_payload (ai_now io) s))))
      else if method = ''connection.connect'' then
        Some (with_value s (decode_connect env payload) (\<lambda>(node_id, mode).
          then_state io (on_conn (connect (ae_json env) (ai_connect io) (ai_pending io) node_id
            (if mode = [] then ''smart'' else mode)) s)))
      else if method = ''connection.disconnect'' then
        Some (then_state io (on_conn (disconnect (ae_json env) (ai_disconnect io) (ai_pending io)) s))
      else if method = ''connection.reconnect'' then
        Some (with_value s (decode_connect env payload) (\<lambda>req.
          case reconnect_target s req of
            (node_id, mode) \<Rightarrow>
              (case on_conn (disconnect (ae_json env) (ai_disconnect io) (ai_pending io)) s of
                 (s, Inl e) \<Rightarrow> fails s e
               | (s, Inr _) \<Rightarrow>
                   then_state io (on_conn (connect (ae_json env) (ai_connect io) (ai_pending2 io) node_id mode) s))))
      else None)"

definition dispatch_nodes ::
  "'r app_env \<Rightarrow> app_io \<Rightarrow> string \<Rightarrow> u8 list \<Rightarrow> 'r app \<Rightarrow> 'r answered_app option" where
  "dispatch_nodes env io method payload s =
     (let ser = se_nodes_text (ae_sub env)
      in if method = ''node.list'' then Some (query s (Inr (R_nodes (nodes_list (lc_nodes (ap_conn s))))))
         else if method = ''node.get'' then
           Some (with_value s (text_payload env payload) (\<lambda>i. query s (replied R_node (nodes_get (lc_nodes (ap_conn s)) i))))
         else if method = ''node.add'' then
           Some (with_value s (from_text env (ae_node env) payload) (\<lambda>n.
             apsnd (replied R_node) (on_nodes (\<lambda>t. nodes_add ser (ai_write io) (ai_uuid io) (ai_now io) t n) s)))
         else if method = ''node.update'' then
           Some (with_value s (from_text env (ae_node env) payload) (\<lambda>n.
             apsnd (replied R_node) (on_nodes (\<lambda>t. nodes_update ser (ai_write io) t n) s)))
         else if method = ''node.delete'' then
           Some (with_value s (text_payload env payload) (\<lambda>i.
             apsnd (replied (\<lambda>_. R_empty)) (on_nodes (\<lambda>t. nodes_delete ser (ai_write io) t i) s)))
         else if method = ''node.select'' then
           Some (with_value s (text_payload env payload) (\<lambda>i.
             apsnd (replied (\<lambda>_. R_empty)) (on_node_memory (\<lambda>m. nodes_select m i) s)))
         else if method = ''node.test'' then
           Some (with_value s (text_payload env payload) (\<lambda>i.
             apsnd (replied R_node_stats) (on_node_memory (\<lambda>m. test_node (ai_net io i) (ai_now io) m i) s)))
         else if method = ''node.batchTest'' then
           Some (apsnd (\<lambda>b. Inr (R_batch b)) (on_node_memory (batch_test (ai_net io) (ai_now io)) s))
         else None)"

definition dispatch_subscriptions ::
  "'r app_env \<Rightarrow> app_io \<Rightarrow> string \<Rightarrow> u8 list \<Rightarrow> 'r app \<Rightarrow> 'r answered_app option" where
  "dispatch_subscriptions env io method payload s =
     (let vt = se_vault (ae_sub env)
      in if method = ''subscription.list'' then Some (query s (Inr (R_json (JArr (list_views vt (ap_subs s))))))
         else if method = ''subscription.add'' then
           Some (with_value s (from_text env (ae_input env) payload) (\<lambda>inp.
             apsnd (replied (\<lambda>sub. R_json (to_view vt sub)))
               (on_subs (\<lambda>t. subs_add (ae_sub env) (ai_write io) (ai_uuid io) t inp) s)))
         else if method = ''subscription.update'' then
           Some (with_value s (from_text env (ae_value env) payload) (\<lambda>v.
             case Option.bind (js_get v ''id'') js_str of
               None \<Rightarrow> fails s (ConfigInvalid ''subscription.id required'')
             | Some i \<Rightarrow>
                 apsnd (replied (\<lambda>_. R_empty))
                   (on_subs (\<lambda>t. update_fields (ae_sub env) (ai_write io) t i
                      (Option.bind (js_get v ''name'') js_str) (Option.bind (js_get v ''url'') js_str)
                      (Option.bind (js_get v ''enabled'') js_as_bool)
                      (Option.bind (js_get v ''interval_secs'') js_as_i64)) s)))
         else if method = ''subscription.delete'' then
           Some (with_value s (text_payload env payload) (\<lambda>i.
             apsnd (replied (\<lambda>_. R_empty))
               (on_subs (\<lambda>t. subs_delete (ae_sub env) (ai_write io) (ai_write2 io) t i) s)))
         else if method = ''subscription.refresh'' then
           Some (with_value s (text_payload env payload) (\<lambda>i.
             (s\<lparr>ap_refreshes := ap_refreshes s @ [i]\<rparr>, Inr R_empty)))
         else None)"

definition dispatch_routing ::
  "'r app_env \<Rightarrow> app_io \<Rightarrow> string \<Rightarrow> u8 list \<Rightarrow> 'r app \<Rightarrow> 'r answered_app option" where
  "dispatch_routing env io method payload s =
     (let js = lj_rules (ae_json env)
      in if method = ''routing.getConfig'' then Some (query s (Inr (R_routing (re_cfg (lc_routing (ap_conn s))))))
         else if method = ''routing.setMode'' then
           Some (with_value s (from_text env (ae_value env) payload) (\<lambda>v.
             case Option.bind (js_get v ''mode'') js_str of
               None \<Rightarrow> fails s (ConfigInvalid ''mode required'')
             | Some mode \<Rightarrow>
                 (case on_routing (\<lambda>t. set_mode js (ai_write io) t (parse_mode mode)) s of
                    (s, r) \<Rightarrow> (s, replied (\<lambda>_. R_routing (re_cfg (lc_routing (ap_conn s)))) r))))
         else if method = ''routing.listRules'' then Some (query s (Inr (R_rules (re_rules (lc_routing (ap_conn s))))))
         else if method = ''routing.addRule'' then
           Some (with_value s (from_text env (ae_rule env) payload) (\<lambda>rule.
             apsnd (replied R_rule) (on_routing (\<lambda>t. add_rule (ae_rx env) js (ai_write io) (ai_uuid io) t rule) s)))
         else if method = ''routing.updateRule'' then
           Some (with_value s (from_text env (ae_rule env) payload) (\<lambda>rule.
             apsnd (replied (\<lambda>_. R_empty)) (on_routing (\<lambda>t. update_rule (ae_rx env) js (ai_write io) t rule) s)))
         else if method = ''routing.deleteRule'' then
           Some (with_value s (text_payload env payload) (\<lambda>i.
             apsnd (replied (\<lambda>_. R_empty)) (on_routing (\<lambda>t. delete_rule (ae_rx env) js (ai_write io) t i) s)))
         else if method = ''routing.test'' then
           Some (with_value s (text_payload env payload) (\<lambda>input.
             query s (replied R_match (test_match (ae_rx env) (lc_routing (ap_conn s)) input))))
         else None)"

definition dispatch_dns ::
  "'r app_env \<Rightarrow> app_io \<Rightarrow> string \<Rightarrow> u8 list \<Rightarrow> 'r app \<Rightarrow> 'r answered_app option" where
  "dispatch_dns env io method payload s =
     (if method = ''dns.getConfig'' then Some (query s (Inr (R_dns (dm_cfg (ap_dns s)))))
      else if method = ''dns.setConfig'' then
        Some (with_value s (from_text env (ae_dns env) payload) (\<lambda>cfg.
          case on_dns (\<lambda>t. dns_set_config (ae_dns_text env) (ai_write io) t cfg) s of
            (s, r) \<Rightarrow> (s, replied (\<lambda>_. R_dns (dm_cfg (ap_dns s))) r)))
      else if method = ''dns.test'' then
        Some (query s (Inr (R_dns_tests (test_all (ai_dns_net io) (ai_dns_elapsed io) (text_or env payload) (ap_dns s)))))
      else if method = ''dns.flushCache'' then
        Some (s\<lparr>ap_dns := dns_flush_cache (ap_dns s)\<rparr>, Inr R_empty)
      else None)"

definition wrap_i64 :: "int \<Rightarrow> int" where
  "wrap_i64 x = (x + 2 ^ 63) mod 2 ^ 64 - 2 ^ 63"

definition range_reply :: "(int \<times> nat \<times> nat) list \<Rightarrow> json" where
  "range_reply rows =
     js_object [(''samples'', JArr (map (\<lambda>(ts, up, down).
       js_object [(''ts'', JInt ts), (''up'', JInt (int up)), (''down'', JInt (int down))]) rows))]"

definition dispatch_statistics ::
  "'r app_env \<Rightarrow> app_io \<Rightarrow> string \<Rightarrow> u8 list \<Rightarrow> 'r app \<Rightarrow> 'r answered_app option" where
  "dispatch_statistics env io method payload s =
     (if method = ''statistics.get'' \<or> method = ''statistics.getToday'' then
        Some (query s (Inr (R_traffic (stats_snapshot (ai_stats io) (lc_stats (ap_conn s))))))
      else if method = ''statistics.getRange'' then
        Some (with_value s (from_text env (\<lambda>t. ae_value env (trim t)) payload) (\<lambda>req.
          let end_ts = (case Option.bind (js_get req ''end'') js_as_i64 of Some t \<Rightarrow> t | None \<Rightarrow> ai_now io);
              start = (case Option.bind (js_get req ''start'') js_as_i64 of Some t \<Rightarrow> t | None \<Rightarrow> wrap_i64 (end_ts - 120000))
          in query s (case ai_range_fault io of
               Some e \<Rightarrow> Inl e
             | None \<Rightarrow> Inr (R_json (range_reply (query_range (sx_db (lc_stats (ap_conn s))) start end_ts))))))
      else None)"

definition health_word :: "core_health \<Rightarrow> string" where
  \<comment> \<open>the derived debug text in lower case\<close>
  "health_word h = (case h of Healthy \<Rightarrow> ''healthy'' | LocalDead \<Rightarrow> ''localdead'' | UplinkDead \<Rightarrow> ''uplinkdead'')"

definition ping_reply :: "app_io \<Rightarrow> json \<Rightarrow> json" where
  "ping_reply io v =
     (let host = (case Option.bind (js_get v ''host'') js_str of Some h \<Rightarrow> h | None \<Rightarrow> ''223.5.5.5'');
          port = ucast (case Option.bind (js_get v ''port'') js_as_u64 of Some p \<Rightarrow> p | None \<Rightarrow> 443) :: u16
      in case tcp_probe (ai_ping io host port) of
           Inr ms \<Rightarrow> js_object [(''ok'', JBool True), (''latency_ms'', JInt ms)]
         | Inl e \<Rightarrow> js_object [(''ok'', JBool False), (''error'', JStr (err_display e))])"

definition proxy_reply :: "app_io \<Rightarrow> 'r app \<Rightarrow> json" where
  "proxy_reply io s =
     (let c = lc_core (ap_conn s); health = health_check (ai_health io) c
      in js_object [(''running'', JBool (is_healthy health)), (''health'', JStr (health_word health)),
           (''port'', JInt (int (unat (cc_mixed_port (core_cfg (ap_conn s)))))),
           (''pid'', case core_pid c of None \<Rightarrow> JNull | Some p \<Rightarrow> JInt (int (unat p)))])"

definition probe_port :: "'r app \<Rightarrow> u16 option" where
  "probe_port s =
     (if conn_state_of (ap_conn s) = Connected then Some (cc_mixed_port (core_cfg (ap_conn s))) else None)"

definition dispatch_diagnostics ::
  "'r app_env \<Rightarrow> app_io \<Rightarrow> string \<Rightarrow> u8 list \<Rightarrow> 'r app \<Rightarrow> 'r answered_app option" where
  "dispatch_diagnostics env io method payload s =
     (if method = ''diagnostics.run'' then
        Some (case diagnostics_run (ap_diag s) of
                (d, Inl e) \<Rightarrow> (s\<lparr>ap_diag := d\<rparr>, Inl e)
              | (d, Inr _) \<Rightarrow>
                  (s\<lparr>ap_diag := d, ap_probes := ap_probes s @ [(dk_fresh (ap_diag s), probe_port s)]\<rparr>,
                   Inr (R_text ''started'')))
      else if method = ''diagnostics.cancel'' then
        Some (s\<lparr>ap_diag := diagnostics_cancel (ap_diag s)\<rparr>, Inr R_empty)
      else if method = ''diagnostics.ping'' then
        Some (query s (Inr (R_json (ping_reply io
          (case ae_value env (text_or env payload) of Inr v \<Rightarrow> v | Inl _ \<Rightarrow> JNull)))))
      else if method = ''diagnostics.dns'' then
        Some (query s (Inr (R_dns_tests (test_all (ai_dns_net io) (ai_dns_elapsed io) [] (ap_dns s)))))
      else if method = ''diagnostics.proxy'' then Some (query s (Inr (R_json (proxy_reply io s))))
      else if method = ''diagnostics.speed'' then Some (query s (Inr (R_item (speed_probe (ai_diag io)))))
      else if method = ''diagnostics.packetLoss'' then
        Some (query s (Inr (case ping_loss 5 (dg_echoes (ai_diag io)) of (rate, avg) \<Rightarrow> R_loss rate avg)))
      else if method = ''diagnostics.resolve'' then
        Some (case resolve (ai_dns_net io) (ai_dns_clock io) Any_server (text_or env payload) (ap_dns s) of
                (m, r) \<Rightarrow> (s\<lparr>ap_dns := m\<rparr>, replied R_addresses r))
      else None)"

definition log_tail :: "'r app_env \<Rightarrow> app_io \<Rightarrow> u8 list \<Rightarrow> string list" where
  \<comment> \<open>the file of today: absent, unreadable, or its content\<close>
  "log_tail env io payload =
     (let n = (case text_payload env payload of
                 Inr t \<Rightarrow> (case parse_usize (trim t) of Some n \<Rightarrow> n | None \<Rightarrow> 200)
               | Inl _ \<Rightarrow> 200)
      in case ai_log io of
           None \<Rightarrow> []
         | Some file \<Rightarrow>
             (let all = str_lines (case file of Some content \<Rightarrow> content | None \<Rightarrow> [])
              in drop (length all - n) all))"

definition dispatch_logs ::
  "'r app_env \<Rightarrow> app_io \<Rightarrow> string \<Rightarrow> u8 list \<Rightarrow> 'r app \<Rightarrow> 'r answered_app option" where
  "dispatch_logs env io method payload s =
     (if method = ''logs.tail'' then
        Some (query s (Inr (R_json (js_object [(''lines'', JArr (map JStr (log_tail env io payload)))]))))
      else None)"

fun first_some :: "('x \<Rightarrow> 'y option) list \<Rightarrow> 'x \<Rightarrow> 'y option" where
  "first_some [] x = None"
| "first_some (f # fs) x = (case f x of Some y \<Rightarrow> Some y | None \<Rightarrow> first_some fs x)"

definition dispatch :: "'r app_env \<Rightarrow> app_io \<Rightarrow> string \<Rightarrow> u8 list \<Rightarrow> 'r app \<Rightarrow> 'r answered_app" where
  "dispatch env io method payload s =
     (case first_some [dispatch_connection env io method payload, dispatch_nodes env io method payload,
          dispatch_subscriptions env io method payload, dispatch_routing env io method payload,
          dispatch_dns env io method payload, dispatch_statistics env io method payload,
          dispatch_diagnostics env io method payload, dispatch_logs env io method payload] s of
        Some r \<Rightarrow> r
      | None \<Rightarrow> fails s (NotFound (''method '' @ method)))"

section \<open>Questions and commands\<close>

definition QUERIES :: "string list" where
  "QUERIES = [''system.getVersion'', ''connection.getStatus'', ''node.list'', ''node.get'', ''subscription.list'',
     ''routing.getConfig'', ''routing.listRules'', ''routing.test'', ''dns.getConfig'', ''dns.test'',
     ''statistics.get'', ''statistics.getToday'', ''statistics.getRange'', ''diagnostics.ping'', ''diagnostics.dns'',
     ''diagnostics.proxy'', ''diagnostics.speed'', ''diagnostics.packetLoss'', ''logs.tail'']"

definition COMMANDS :: "string list" where
  "COMMANDS = [''connection.connect'', ''connection.disconnect'', ''connection.reconnect'', ''node.add'', ''node.update'',
     ''node.delete'', ''node.select'', ''node.test'', ''node.batchTest'', ''subscription.add'', ''subscription.update'',
     ''subscription.delete'', ''subscription.refresh'', ''routing.setMode'', ''routing.addRule'', ''routing.updateRule'',
     ''routing.deleteRule'', ''dns.setConfig'', ''dns.flushCache'', ''diagnostics.run'', ''diagnostics.cancel'',
     ''diagnostics.resolve'']"

lemmas dispatch_defs = dispatch_def dispatch_connection_def dispatch_nodes_def dispatch_subscriptions_def
  dispatch_routing_def dispatch_dns_def dispatch_statistics_def dispatch_diagnostics_def dispatch_logs_def

lemma query_state [simp]: "fst (query s r) = s"
  by (simp add: query_def)

lemma fails_state [simp]: "fst (fails s e) = s" "snd (fails s e) = Inl e"
  by (simp_all add: fails_def)

lemma with_value_state [simp]: "(\<And>x. fst (f x) = s) \<Longrightarrow> fst (with_value s r f) = s"
  by (simp add: with_value_def split: sum.split)

lemma queries_keep_state: "method \<in> set QUERIES \<Longrightarrow> fst (dispatch env io method payload s) = s"
  unfolding QUERIES_def list.set insert_iff empty_iff
  by (elim disjE FalseE; simp add: dispatch_defs Let_def)

lemma unknown_method:
  assumes "method \<notin> set QUERIES" "method \<notin> set COMMANDS"
  shows "dispatch env io method payload s = (s, Inl (NotFound (''method '' @ method)))"
proof -
  from assms have n: "method \<noteq> m" if "m \<in> set (QUERIES @ COMMANDS)" for m using that by auto
  note ne = n [unfolded QUERIES_def COMMANDS_def append.simps list.set]
  show ?thesis by (simp add: dispatch_defs fails_def ne)
qed

end
