(* ===== verification/App_Runs.thy ===== *)
theory App_Runs
  imports App_Context Lifecycle_Connect Sub_Refresh
begin

text \<open>
  Requests of clients against the rest of the service: which of them change nothing, what a
  malformed or unknown one is answered, and that any sequence of them keeps the state of the
  connection in step with the resources held.
\<close>

section \<open>Questions\<close>

definition CARRIES_PAYLOAD :: "string list" where
  \<comment> \<open>the methods that cannot do without their payload\<close>
  "CARRIES_PAYLOAD = [''connection.connect'', ''connection.reconnect'', ''node.get'', ''node.add'', ''node.update'',
     ''node.delete'', ''node.select'', ''node.test'', ''subscription.add'', ''subscription.update'',
     ''subscription.delete'', ''subscription.refresh'', ''routing.setMode'', ''routing.addRule'', ''routing.updateRule'',
     ''routing.deleteRule'', ''routing.test'', ''dns.setConfig'', ''statistics.getRange'']"

lemma bad_payload_text:
  assumes "ae_text env payload = Inl e1" "ae_connect env payload = Inl e2"
  shows "text_payload env payload = Inl (ConfigInvalid (''bad TextPayload: '' @ e1))"
    and "decode_connect env payload = Inl (ConfigInvalid (''bad payload: '' @ e2))"
    and "from_text env de payload = Inl (ConfigInvalid (''bad TextPayload: '' @ e1))"
  using assms by (simp_all add: text_payload_def decode_connect_def from_text_def)

lemma with_value_Inl [simp]: "with_value s (Inl e) f = (s, Inl e)"
  by (simp add: with_value_def fails_def)

lemma bad_payload:
  assumes "method \<in> set CARRIES_PAYLOAD" "ae_text env payload = Inl e1" "ae_connect env payload = Inl e2"
  shows "\<exists>m. dispatch env io method payload s = (s, Inl (ConfigInvalid m))"
  using assms(1) unfolding CARRIES_PAYLOAD_def list.set insert_iff empty_iff
  by (elim disjE FalseE; simp add: dispatch_defs Let_def bad_payload_text [OF assms(2,3)])

definition served :: "(reply \<Rightarrow> u8 list) \<Rightarrow> 'r app_env \<Rightarrow> app_io \<Rightarrow> 'r app \<Rightarrow> request \<Rightarrow> outcome" where
  \<comment> \<open>what the server's task makes of a request\<close>
  "served enc env io s rq = Returned (map_sum id enc (snd (dispatch env io (rq_method rq) (rq_payload rq) s)))"


section \<open>Commands as steps of the connection\<close>

definition others :: "'r conn_manager \<Rightarrow> 'r conn_manager \<Rightarrow> bool" where
  \<comment> \<open>settings, disk, nodes, rules and resolver may differ\<close>
  "others c c' \<longleftrightarrow> (\<exists>cm disk nm e dns. c' = c\<lparr>lc_config := cm, lc_disk := disk, lc_nodes := nm, lc_routing := e, lc_dns := dns\<rparr>)"

lemma othersI:
  "c' = c\<lparr>lc_config := lc_config c', lc_disk := lc_disk c', lc_nodes := lc_nodes c', lc_routing := lc_routing c',
     lc_dns := lc_dns c'\<rparr> \<Longrightarrow> others c c'"
  unfolding others_def by blast

lemma others_updates [simp]:
  "others c c" "others c (c\<lparr>lc_nodes := nm\<rparr>)" "others c (c\<lparr>lc_nodes := nm, lc_disk := disk\<rparr>)"
  "others c (c\<lparr>lc_routing := e, lc_disk := disk\<rparr>)" "others c (c\<lparr>lc_config := cm, lc_disk := disk, lc_dns := dns\<rparr>)"
  by (rule othersI, simp)+

definition apart :: "'r app \<Rightarrow> 'r answered_app \<Rightarrow> bool" where
  \<comment> \<open>an answer that leaves the connection to itself\<close>
  "apart s p \<longleftrightarrow> others (ap_conn s) (ap_conn (fst p))"

lemma apart_simps [simp]:
  "apart s (query s r)" "apart s (fails s e)" "apart s (s, r)"
  by (simp_all add: apart_def query_def fails_def)

lemma apart_calls [simp]:
  "apart s (apsnd g (on_nodes f s))" "apart s (apsnd g (on_node_memory f2 s))" "apart s (apsnd g (on_routing f3 s))"
  "apart s (apsnd g (on_subs f4 s))"
  by (simp_all add: apart_def on_nodes_def on_node_memory_def on_routing_def on_subs_def on_conn_def split: prod.split)

lemma apart_settings [simp]:
  "apart s (case on_routing f s of (t, r) \<Rightarrow> (t, g t r))" "apart s (case on_dns f2 s of (t, r) \<Rightarrow> (t, g t r))"
  by (simp_all add: apart_def on_routing_def on_dns_def on_conn_def split: prod.split)

lemma apart_with_value [simp]: "(\<And>x. apart s (f x)) \<Longrightarrow> apart s (with_value s r f)"
  by (simp add: with_value_def split: sum.split)

lemma apart_own [simp]:
  "apart s (s\<lparr>ap_refreshes := x\<rparr>, r)" "apart s (s\<lparr>ap_dns := d\<rparr>, r)" "apart s (s\<lparr>ap_diag := c\<rparr>, r)"
  "apart s (s\<lparr>ap_diag := c, ap_probes := ps\<rparr>, r)"
  by (simp_all add: apart_def)

definition CONNECTION_METHODS :: "string list" where
  "CONNECTION_METHODS = [''connection.connect'', ''connection.disconnect'', ''connection.reconnect'']"

lemma groups_apart:
  "dispatch_nodes env io m payload s = Some a \<Longrightarrow> apart s a"
  "dispatch_subscriptions env io m payload s = Some a \<Longrightarrow> apart s a"
  "dispatch_routing env io m payload s = Some a \<Longrightarrow> apart s a"
  "dispatch_dns env io m payload s = Some a \<Longrightarrow> apart s a"
  "dispatch_statistics env io m payload s = Some a \<Longrightarrow> apart s a"
  "dispatch_diagnostics env io m payload s = Some a \<Longrightarrow> apart s a"
  "dispatch_logs env io m payload s = Some a \<Longrightarrow> apart s a"
  by (auto simp: dispatch_nodes_def dispatch_subscriptions_def dispatch_routing_def dispatch_dns_def
      dispatch_statistics_def dispatch_diagnostics_def dispatch_logs_def Let_def
      split: if_splits option.split prod.split sum.split)

lemma dispatch_apart:
  assumes "m \<notin> set CONNECTION_METHODS"
  shows "apart s (dispatch env io m payload s)"
proof -
  have "apart s a" if "dispatch_connection env io m payload s = Some a" for a
    using that assms by (auto simp: dispatch_connection_def CONNECTION_METHODS_def split: if_splits)
  with groups_apart [where env = env and io = io and m = m and payload = payload and s = s] show ?thesis
    by (simp add: dispatch_def split: option.split)
qed

section \<open>Runs of the whole service\<close>

definition after_disconnect :: "'r conn_manager \<Rightarrow> (node \<times> u32) option \<Rightarrow> (node \<times> u32) option" where
  "after_disconnect c p = (if conn_state_of c \<in> {Error, Connected, Reconnecting} then None else p)"

definition flight_after :: "'r app_env \<Rightarrow> string \<Rightarrow> u8 list \<Rightarrow> 'r conn_manager \<Rightarrow> (node \<times> u32) option \<Rightarrow> (node \<times> u32) option" where
  \<comment> \<open>the recovery in flight when the request is served\<close>
  "flight_after env m payload c p =
     (if m = ''connection.disconnect'' \<or> (m = ''connection.reconnect'' \<and> is_ok (decode_connect env payload))
      then after_disconnect c p else p)"

text \<open>
  A step of the service: a request is served, where what is left of a recovery in flight is
  run to its end by the call that stops the supervisor; or the connection moves by itself; or
  the tasks of the other managers do.
\<close>

inductive app_step :: "'r app_env \<Rightarrow> 'r app \<times> (node \<times> u32) option \<Rightarrow> 'r app \<times> (node \<times> u32) option \<Rightarrow> bool"
  for env :: "'r app_env" where
  serve: "app_step env (s, p) (fst (dispatch env io m payload s), flight_after env m payload (ap_conn s) p)"
  if "ai_pending io = pending_of rio p" "ai_pending2 io = pending_of rio2 (after_disconnect (ap_conn s) p)"
| background: "app_step env (s, p) (s\<lparr>ap_conn := c\<rparr>, q)"
  if "lc_step (ae_json env) (ap_conn s, p) (c, q)"
| tasks: "app_step env (s, p) (s\<lparr>ap_subs := subs, ap_dns := dns, ap_diag := d, ap_refreshes := rs, ap_probes := ps\<rparr>, p)"

lemma then_state_state [simp]: "fst (then_state io p) = fst p"
  by (cases p; cases "snd p") (auto simp: then_state_def fails_def)

lemma on_conn_state [simp]: "ap_conn (fst (on_conn f s)) = fst (f (ap_conn s))"
  by (simp add: on_conn_def split: prod.split)

lemma connect_runs: "lc_step js (c, p) (fst (connect js io (pending_of rio p) i mode c), p)"
  by (rule do_connect)

lemma disconnect_runs:
  "lc_step js (c, p) (fst (disconnect js io (pending_of rio p) c), after_disconnect c p)"
  unfolding after_disconnect_def by (rule do_disconnect)

lemma reconnect_runs:
  fixes c :: "'r conn_manager"
  assumes "disconnect js dio (pending_of rio p) c = (c1, r)"
  shows "(lc_step js)\<^sup>*\<^sup>* (c, p) (c1, after_disconnect c p)"
    and "(lc_step js)\<^sup>*\<^sup>* (c, p) (fst (connect js cio (pending_of rio2 (after_disconnect c p)) i mode c1), after_disconnect c p)"
proof -
  have d: "lc_step js (c, p) (c1, after_disconnect c p)" using disconnect_runs [of js c p dio rio] assms by simp
  then show "(lc_step js)\<^sup>*\<^sup>* (c, p) (c1, after_disconnect c p)" by simp
  from d connect_runs [of js c1 "after_disconnect c p" cio rio2 i mode]
  show "(lc_step js)\<^sup>*\<^sup>* (c, p) (fst (connect js cio (pending_of rio2 (after_disconnect c p)) i mode c1), after_disconnect c p)"
    by (meson rtranclp.rtrancl_into_rtrancl r_into_rtranclp)
qed

lemma others_run: "others c c' \<Longrightarrow> (lc_step js)\<^sup>*\<^sup>* (c, p) (c', p)"
  by (auto simp: others_def intro!: r_into_rtranclp do_others)

lemma serve_runs:
  assumes "ai_pending io = pending_of rio p" "ai_pending2 io = pending_of rio2 (after_disconnect (ap_conn s) p)"
  shows "(lc_step (ae_json env))\<^sup>*\<^sup>* (ap_conn s, p)
    (ap_conn (fst (dispatch env io m payload s)), flight_after env m payload (ap_conn s) p)"
proof (cases "m \<in> set CONNECTION_METHODS")
  case False
  with dispatch_apart [OF this, of s env io payload] show ?thesis
    by (auto simp: apart_def CONNECTION_METHODS_def flight_after_def intro!: others_run)
next
  case True
  then consider "m = ''connection.connect''" | "m = ''connection.disconnect''" | "m = ''connection.reconnect''"
    by (auto simp: CONNECTION_METHODS_def)
  then show ?thesis
  proof cases
    case 1
    then show ?thesis
      by (cases "decode_connect env payload")
        (auto simp: dispatch_def dispatch_connection_def flight_after_def with_value_def fails_def assms(1)
          intro!: r_into_rtranclp connect_runs)
  next
    case 2
    then show ?thesis
      by (auto simp: dispatch_def dispatch_connection_def flight_after_def assms(1) intro!: r_into_rtranclp disconnect_runs)
  next
    case 3
    show ?thesis
    proof (cases "decode_connect env payload")
      case (Inl e)
      with 3 show ?thesis by (simp add: dispatch_def dispatch_connection_def flight_after_def)
    next
      case (Inr req)
      obtain i mode where t: "reconnect_target s req = (i, mode)" by force
      obtain c1 r where d: "disconnect (ae_json env) (ai_disconnect io) (pending_of rio p) (ap_conn s) = (c1, r)" by force
      note runs = reconnect_runs(1) [OF d] reconnect_runs(2) [OF d, where cio = "ai_connect io" and ?rio2.0 = rio2 and i = i and mode = mode]
      have "on_conn (disconnect (ae_json env) (ai_disconnect io) (ai_pending io)) s = (s\<lparr>ap_conn := c1\<rparr>, r)"
        by (simp add: on_conn_def assms(1) d)
      then show ?thesis using 3 Inr t runs
        by (cases r) (auto simp: dispatch_def dispatch_connection_def flight_after_def with_value_def fails_def assms(2))
    qed
  qed
qed

lemma app_run_lc_run:
  "(app_step env)\<^sup>*\<^sup>* (s0, p0) (s, p) \<Longrightarrow> (lc_step (ae_json env))\<^sup>*\<^sup>* (ap_conn s0, p0) (ap_conn s, p)"
proof (induction rule: rtranclp_induct2)
  case (step s p t q)
  have "(lc_step (ae_json env))\<^sup>*\<^sup>* (ap_conn s, p) (ap_conn t, q)"
    using step.hyps(2) by cases (auto intro: serve_runs)
  with step.IH show ?case by (rule rtranclp_trans)
qed simp

text \<open>
  C3. Whatever clients ask, the state they are shown tells what the service holds.  Along
  every sequence of requests of any kind, recoveries, boots and tasks of the other managers, a
  service shown as \<^verbatim>\<open>CONNECTED\<close> has its core, its proxy and its statistics session, one shown as
  \<^verbatim>\<open>STOPPED\<close> holds none of them and no adapter, and one shown as \<^verbatim>\<open>ERROR\<close> has no core.
\<close>

theorem requests_keep_state_honest:
  assumes "initial_manager (ap_conn s0)" "(app_step env)\<^sup>*\<^sup>* (s0, None) (s, p)"
  shows "case conn_state_of (ap_conn s) of
       Connected \<Rightarrow> ca_child (lc_core (ap_conn s)) \<noteq> None \<and> is_active (lc_route (ap_conn s))
         \<and> session_active (lc_stats (ap_conn s)) \<and> p = None
     | Stopped \<Rightarrow> ca_child (lc_core (ap_conn s)) = None \<and> \<not> is_active (lc_route (ap_conn s))
         \<and> \<not> session_active (lc_stats (ap_conn s)) \<and> \<not> tm_adapter (lc_tun (ap_conn s))
     | Error \<Rightarrow> ca_child (lc_core (ap_conn s)) = None
     | _ \<Rightarrow> True"
proof -
  from run_inv_run [OF app_run_lc_run [OF assms(2)] assms(1)]
  have "conn_inv (view (ap_conn s)) p" "settled (view (ap_conn s))" by (simp_all add: run_inv_def)
  then show ?thesis
    by (cases "conn_state_of (ap_conn s)") (auto simp: conn_inv_def settled_def Let_def split: option.splits)
qed

section \<open>Witnesses\<close>

definition demo_service :: "unit app_env" where
  \<comment> \<open>a service whose decoders accept one payload byte\<close>
  "demo_service = \<lparr>ae_rx = \<lparr>rx_new = (\<lambda>_. Inr ()), rx_is_match = (\<lambda>_ _. False)\<rparr>, ae_json = demo_js, ae_sub = demo_env,
     ae_dns_text = (\<lambda>_. ''{}''), ae_version = ''1'',
     ae_connect = (\<lambda>bs. if bs = [1] then Inr (''n1'', ''smart'') else Inl ''short''),
     ae_text = (\<lambda>bs. if bs = [1] then Inr ''n1'' else Inl ''short''), ae_node = (\<lambda>_. Inr demo_node),
     ae_input = (\<lambda>_. Inl ''no''), ae_rule = (\<lambda>_. Inl ''no''), ae_dns = (\<lambda>_. Inr dns_config_default),
     ae_value = (\<lambda>_. Inl ''no'')\<rparr>"

definition demo_app :: "unit app" where
  "demo_app = \<lparr>ap_conn = demo_manager, ap_subs = fst demo_subs, ap_dns = demo_dns, ap_diag = idle_control, ap_refreshes = [],
     ap_probes = []\<rparr>"

definition demo_io :: app_io where
  "demo_io = \<lparr>ai_now = 9, ai_connect = demo_connect, ai_disconnect = demo_disconnect, ai_pending = None, ai_pending2 = None,
     ai_write = io_good, ai_write2 = io_good, ai_uuid = ''u'', ai_net = (\<lambda>_. Connect_timeout), ai_dns_net = demo_net,
     ai_dns_elapsed = id, ai_dns_clock = id, ai_stats = demo_stats, ai_range_fault = None,
     ai_ping = (\<lambda>_ _. Connect_timeout), ai_health = \<lparr>hi_local = True, hi_tunnel = None\<rparr>, ai_diag = demo_diag,
     ai_log = None\<rparr>"


lemma demo_connect_request:
  "app_step demo_service (demo_app, None) (demo_app\<lparr>ap_conn := demo_connected\<rparr>, None)"
proof -
  have d: "decode_connect demo_service [1] = Inr (''n1'', ''smart'')" by (simp add: decode_connect_def demo_service_def)
  have "fst (dispatch demo_service demo_io ''connection.connect'' [1] demo_app) = demo_app\<lparr>ap_conn := demo_connected\<rparr>"
    using demo_connected(1)
    by (simp add: dispatch_def dispatch_connection_def d with_value_def on_conn_def)
      (simp add: demo_app_def demo_io_def demo_service_def)
  moreover have "ai_pending demo_io = pending_of undefined None"
    "ai_pending2 demo_io = pending_of undefined (after_disconnect (ap_conn demo_app) None)"
    by (simp_all add: demo_io_def pending_of_def after_disconnect_def)
  ultimately show ?thesis using serve [of demo_io _ None _ demo_app demo_service "''connection.connect''" "[1]"]
    by (auto simp: flight_after_def)
qed

theorem requests_keep_state_honest_witness:
  "ca_child (lc_core (ap_conn (demo_app\<lparr>ap_conn := demo_connected\<rparr>))) \<noteq> None"
  using requests_keep_state_honest [of demo_app demo_service "demo_app\<lparr>ap_conn := demo_connected\<rparr>" None]
    demo_connect_request demo_initial demo_connected(2)
  by (auto simp: demo_app_def)

end
