(* ===== verification/Stats_Poller.thy ===== *)
theory Stats_Poller
  imports Statistics Core_Builder
begin

text \<open>
  \<^verbatim>\<open>proxy/xray_stats.rs\<close> and the polling loop of \<^verbatim>\<open>main.rs\<close>: the byte counters of the core
  process, and what of them reaches the traffic statistics.
\<close>

section \<open>The counters of the process\<close>

definition parse_u32 :: "string \<Rightarrow> u32 option" where
  "parse_u32 s = map_option of_nat (parse_uint 4294967295 s)"

definition pid_of_line :: "string \<Rightarrow> u32 option" where
  "pid_of_line l =
     (let parts = split_on (CHR '','') l
      in if length parts \<ge> 2 then parse_u32 (trim_matches_char (CHR 0x22) (parts ! 1)) else None)"

definition find_xray_pid :: "u8 list option \<Rightarrow> u32 option" where
  \<comment> \<open>from the output of the command, when it ran\<close>
  "find_xray_pid output =
     (case output of
        None \<Rightarrow> None
      | Some stdout \<Rightarrow>
          (case List.map_filter pid_of_line (str_lines (utf8_lossy stdout)) of [] \<Rightarrow> None | p # _ \<Rightarrow> Some p))"

text \<open>The answers of the system: opening the process, then its write and read counts.\<close>

record process_io =
  pio_tasklist :: "u8 list option"
  pio_open :: "u32 \<Rightarrow> string option"
  pio_counters :: "u32 \<Rightarrow> string + (u64 \<times> u64)"
  pio_spawn :: "string option"

definition read_process_io :: "process_io \<Rightarrow> u32 \<Rightarrow> svc_error + (u64 \<times> u64)" where
  "read_process_io io pid =
     (case pio_open io pid of
        Some e \<Rightarrow> Inl (Proxy (''OpenProcess: '' @ e))
      | None \<Rightarrow>
          (case pio_counters io pid of
             Inl e \<Rightarrow> Inl (Proxy (''GetProcessIoCounters: '' @ e))
           | Inr (written, read) \<Rightarrow> Inr (written, read)))"

definition query_totals :: "process_io \<Rightarrow> svc_error + (u64 \<times> u64)" where
  "query_totals io =
     (case pio_spawn io of
        Some e \<Rightarrow> Inl (Proxy (''stats spawn: '' @ e))
      | None \<Rightarrow>
          (case find_xray_pid (pio_tasklist io) of
             None \<Rightarrow> Inl (Proxy ''xray process not found'')
           | Some pid \<Rightarrow> read_process_io io pid))"

section \<open>The loop\<close>

definition poll_tick ::
  "process_io \<Rightarrow> stats_manager \<times> (u64 \<times> u64) option \<Rightarrow> stats_manager \<times> (u64 \<times> u64) option" where
  "poll_tick io s =
     (case s of (stats, prev) \<Rightarrow>
        if \<not> session_active stats then (stats, None)
        else (case query_totals io of
                Inr (up, down) \<Rightarrow>
                  (case prev of
                     Some (pu, pd) \<Rightarrow> record_down (saturating_sub down pd) (record_up (saturating_sub up pu) stats)
                   | None \<Rightarrow> stats,
                   Some (up, down))
              | Inl _ \<Rightarrow> (stats, None)))"

text \<open>
  Each round is what the rest of the service did to the statistics since the last tick, and
  the answers of the system at the tick.
\<close>

fun poll_rounds ::
  "((stats_manager \<Rightarrow> stats_manager) \<times> process_io) list \<Rightarrow> stats_manager \<times> (u64 \<times> u64) option
     \<Rightarrow> stats_manager \<times> (u64 \<times> u64) option" where
  "poll_rounds [] s = s"
| "poll_rounds ((other, io) # rest) s = poll_rounds rest (poll_tick io (other (fst s), snd s))"

text \<open>
  The flush loop of the statistics: at each wake-up after the first, whether the token was
  cancelled, which ends the loop after a last flush.
\<close>

fun flush_loop ::
  "((stats_manager \<Rightarrow> stats_manager) \<times> bool \<times> stats_env) list \<Rightarrow> stats_manager \<Rightarrow> stats_manager" where
  "flush_loop [] s = s"
| "flush_loop ((other, cancelled, env) # rest) s =
     (let s = flush_once env (other s) in if cancelled then s else flush_loop rest s)"

section \<open>What is counted\<close>

text \<open>The sum of the increases between samples that follow each other.\<close>

fun increases :: "(u64 \<times> u64) option \<Rightarrow> (u64 \<times> u64) option list \<Rightarrow> u64 \<times> u64" where
  "increases prev [] = (0, 0)"
| "increases prev (x # xs) =
     (case (prev, x, increases x xs) of
        (Some (pu, pd), Some (u, d), (su, sd)) \<Rightarrow> (saturating_sub u pu + su, saturating_sub d pd + sd)
      | (_, _, r) \<Rightarrow> r)"

definition sample :: "process_io \<Rightarrow> (u64 \<times> u64) option" where
  "sample io = (case query_totals io of Inr t \<Rightarrow> Some t | Inl _ \<Rightarrow> None)"

definition keeps_counting :: "(stats_manager \<Rightarrow> stats_manager) \<Rightarrow> bool" where
  \<comment> \<open>work of others that ends no session and touches no counter, a flush for instance\<close>
  "keeps_counting f \<longleftrightarrow> (\<forall>s. sx_up (f s) = sx_up s \<and> sx_down (f s) = sx_down s \<and> sx_session (f s) = sx_session s)"

lemma flush_keeps_counting: "keeps_counting (flush_once env)"
  by (auto simp: keeps_counting_def flush_once_def Let_def split: option.split prod.split)

lemma poll_tick_active:
  assumes "session_active stats"
  shows "snd (poll_tick io (stats, prev)) = sample io"
    and "sx_session (fst (poll_tick io (stats, prev))) = sx_session stats"
    and "(sx_up (fst (poll_tick io (stats, prev))), sx_down (fst (poll_tick io (stats, prev))))
       = (case increases prev [sample io] of (u, d) \<Rightarrow> (sx_up stats + u, sx_down stats + d))"
  using assms
  by (auto simp: poll_tick_def sample_def record_up_def record_down_def split: sum.split option.split prod.split)

lemma increases_Cons:
  "increases prev (x # xs) =
     (fst (increases prev [x]) + fst (increases x xs), snd (increases prev [x]) + snd (increases x xs))"
  by (auto split: option.split prod.split)

text \<open>
  C37. The traffic of a session is the sum of the increases the poller saw.  While a session
  lasts and the others only flush, the counters grow by exactly the increases between
  successive successful samples, modulo 2 to the 64: what the core moved before the first
  sample, around a failed sample and after the last one is counted nowhere, and a counter that
  falls, as that of a restarted core, adds nothing.
\<close>

theorem polled_traffic_exact:
  assumes "session_active stats" "\<forall>r \<in> set rounds. keeps_counting (fst r)"
  shows "case poll_rounds rounds (stats, prev) of (stats', prev') \<Rightarrow>
           session_active stats'
         \<and> sx_up stats' = sx_up stats + fst (increases prev (map (sample \<circ> snd) rounds))
         \<and> sx_down stats' = sx_down stats + snd (increases prev (map (sample \<circ> snd) rounds))"
  using assms
proof (induction rounds arbitrary: stats prev)
  case Nil
  then show ?case by simp
next
  case (Cons r rest)
  obtain other io where r: "r = (other, io)" by force
  have k: "keeps_counting other" using Cons.prems(2) r by simp
  then have a: "session_active (other stats)" "sx_up (other stats) = sx_up stats" "sx_down (other stats) = sx_down stats"
    using Cons.prems(1) by (simp_all add: keeps_counting_def session_active_def)
  obtain st pv where t: "poll_tick io (other stats, prev) = (st, pv)" by force
  note tick = poll_tick_active [OF a(1), of io prev, unfolded t fst_conv snd_conv]
  have "session_active st" using tick(2) a(1) by (simp add: session_active_def)
  moreover have "sx_up st = sx_up stats + fst (increases prev [sample io])"
    "sx_down st = sx_down stats + snd (increases prev [sample io])"
    using tick(3) a by (auto split: prod.splits)
  ultimately show ?case
    using Cons.IH [of st pv] Cons.prems(2) tick(1)
    by (simp add: r t increases_Cons [of prev "sample io" "map (\<lambda>r. sample (snd r)) rest"] add.assoc del: increases.simps split: prod.splits)
qed

definition demo_process :: "u64 \<times> u64 \<Rightarrow> process_io" where
  "demo_process t = \<lparr>pio_tasklist = Some (as_bytes ''x,7''), pio_open = (\<lambda>_. None), pio_counters = (\<lambda>_. Inr t),
     pio_spawn = None\<rparr>"

lemma sample_demo: "sample (demo_process t) = Some t"
proof -
  have "utf8_valid (as_bytes ''x,7'')" by (simp add: utf8_valid.simps utf8_step_def as_bytes_def byte_of_def)
  then have "utf8_lossy (as_bytes ''x,7'') = ''x,7''"
    by (simp add: utf8_lossy_valid as_bytes_def)
  moreover have "str_lines ''x,7'' = [''x,7'']" by code_simp
  moreover have "pid_of_line ''x,7'' = Some 7"
    by (simp add: pid_of_line_def parse_u32_def std_eval trim_matches_char_def)
  ultimately have "find_xray_pid (Some (as_bytes ''x,7'')) = Some 7"
    by (simp add: find_xray_pid_def List.map_filter_simps)
  then show ?thesis
    by (cases t) (simp add: sample_def query_totals_def demo_process_def read_process_io_def)
qed

theorem polled_traffic_exact_witness:
  "case poll_rounds [(id, demo_process (5, 9)), (id, demo_process (7, 9))]
      (idle_stats\<lparr>sx_session := Some (''s'', ''n'')\<rparr>, None) of (stats, prev) \<Rightarrow> sx_up stats = sx_up idle_stats + 2"
proof -
  have "keeps_counting id" by (simp add: keeps_counting_def)
  then show ?thesis
    using polled_traffic_exact [of "idle_stats\<lparr>sx_session := Some (''s'', ''n'')\<rparr>"
        "[(id, demo_process (5, 9)), (id, demo_process (7, 9))]" None]
    by (auto simp: session_active_def sample_demo saturating_sub_def)
qed

end
