(* ===== verification/Stats_Tables.thy ===== *)
theory Stats_Tables
  imports Statistics Diagnostics
begin

text \<open>
  \<^verbatim>\<open>statistics/database.rs\<close>, the file of the database over the starts of the service: the schema
  statements that opening runs, the table of node health, and \<^verbatim>\<open>StatsManager::load\<close> on what they
  leave.  A table that does not exist yet is \<open>None\<close>.  The statements of a batch run in order,
  outside a transaction; each may fail, which is an argument.
\<close>

section \<open>The file\<close>

record health_row =
  hr_ts :: int
  hr_node :: string
  hr_latency :: int
  hr_loss :: rat

record db_file =
  tb_wal :: bool
  tb_sessions :: "(string \<times> session_row) list option"
  tb_samples :: "sample_row list option"
  tb_samples_index :: bool
  tb_health :: "health_row list option"
  tb_diagnostics :: "(int \<times> diag_item) list option"

text \<open>The statements of the schema, in the order of the batch.\<close>

datatype ddl =
    Journal_mode_wal
  | Create_sessions
  | Create_traffic_samples
  | Create_idx_samples_ts
  | Create_node_health
  | Create_diagnostics

definition SCHEMA :: "ddl list" where
  "SCHEMA = [Journal_mode_wal, Create_sessions, Create_traffic_samples, Create_idx_samples_ts,
     Create_node_health, Create_diagnostics]"

definition if_not_exists :: "'a list option \<Rightarrow> 'a list option" where
  "if_not_exists t = (case t of None \<Rightarrow> Some [] | Some rows \<Rightarrow> Some rows)"

fun run_ddl :: "db_file \<Rightarrow> ddl \<Rightarrow> db_file" where
  "run_ddl f Journal_mode_wal = f\<lparr>tb_wal := True\<rparr>"
| "run_ddl f Create_sessions = f\<lparr>tb_sessions := if_not_exists (tb_sessions f)\<rparr>"
| "run_ddl f Create_traffic_samples = f\<lparr>tb_samples := if_not_exists (tb_samples f)\<rparr>"
| "run_ddl f Create_idx_samples_ts = f\<lparr>tb_samples_index := True\<rparr>"
| "run_ddl f Create_node_health = f\<lparr>tb_health := if_not_exists (tb_health f)\<rparr>"
| "run_ddl f Create_diagnostics = f\<lparr>tb_diagnostics := if_not_exists (tb_diagnostics f)\<rparr>"

fun execute_batch :: "(ddl \<Rightarrow> string option) \<Rightarrow> ddl list \<Rightarrow> db_file \<Rightarrow> db_file \<times> (string + unit)" where
  "execute_batch fault [] f = (f, Inr ())"
| "execute_batch fault (st # rest) f =
     (case fault st of
        Some e \<Rightarrow> (f, Inl e)
      | None \<Rightarrow> execute_batch fault rest (run_ddl f st))"

text \<open>The outcome of opening: whether the connection fails, and which statements do.\<close>

record db_opening =
  do_connect :: "string option"
  do_statement :: "ddl \<Rightarrow> string option"

definition db_open :: "db_opening \<Rightarrow> db_file \<Rightarrow> db_file \<times> (svc_error + unit)" where
  "db_open io f =
     (case do_connect io of
        Some e \<Rightarrow> (f, Inl (Db e))
      | None \<Rightarrow>
          (case execute_batch (do_statement io) SCHEMA f of
             (f, Inl e) \<Rightarrow> (f, Inl (Db e))
           | (f, Inr _) \<Rightarrow> (f, Inr ())))"

definition rows_of :: "'a list option \<Rightarrow> 'a list" where
  "rows_of t = (case t of None \<Rightarrow> [] | Some rows \<Rightarrow> rows)"

text \<open>The tables the statistics work on, and the file when they have worked on them.\<close>

definition stats_tables :: "db_file \<Rightarrow> database" where
  "stats_tables f = \<lparr>db_sessions = rows_of (tb_sessions f), db_samples = rows_of (tb_samples f)\<rparr>"

definition with_stats_tables :: "database \<Rightarrow> db_file \<Rightarrow> db_file" where
  "with_stats_tables db f = f\<lparr>tb_sessions := Some (db_sessions db), tb_samples := Some (db_samples db)\<rparr>"

definition stats_load :: "db_opening \<Rightarrow> db_file \<Rightarrow> db_file \<times> (string + stats_manager)" where
  "stats_load io f =
     (case db_open io f of
        (f, Inl e) \<Rightarrow> (f, Inl (err_display e))
      | (f, Inr _) \<Rightarrow>
          (f, Inr \<lparr>sx_db = stats_tables f, sx_up = 0, sx_down = 0, sx_session = None, sx_last = None, sx_bus = []\<rparr>))"

text \<open>A loss that is not a number, \<open>None\<close>, is stored as null, which the column refuses.\<close>

definition insert_health ::
  "svc_error option \<Rightarrow> db_file \<Rightarrow> int \<Rightarrow> string \<Rightarrow> int \<Rightarrow> rat option \<Rightarrow> db_file \<times> (svc_error + unit)" where
  "insert_health fault f ts node latency loss =
     (case (fault, tb_health f, loss) of
        (Some e, _) \<Rightarrow> (f, Inl e)
      | (None, None, _) \<Rightarrow> (f, Inl (Db ''no such table: node_health''))
      | (None, Some _, None) \<Rightarrow> (f, Inl (Db ''NOT NULL constraint failed: node_health.loss''))
      | (None, Some rows, Some l) \<Rightarrow>
          (f\<lparr>tb_health := Some (rows @ [\<lparr>hr_ts = ts, hr_node = node, hr_latency = latency, hr_loss = l\<rparr>])\<rparr>, Inr ()))"

section \<open>Opening\<close>

text \<open>What a file holds, whether its tables exist or not.\<close>

definition held ::
  "db_file \<Rightarrow> (string \<times> session_row) list \<times> sample_row list \<times> health_row list \<times> (int \<times> diag_item) list" where
  "held f = (rows_of (tb_sessions f), rows_of (tb_samples f), rows_of (tb_health f), rows_of (tb_diagnostics f))"

definition ready :: "db_file \<Rightarrow> bool" where
  "ready f \<longleftrightarrow> tb_wal f \<and> tb_samples_index f \<and> tb_sessions f \<noteq> None \<and> tb_samples f \<noteq> None
     \<and> tb_health f \<noteq> None \<and> tb_diagnostics f \<noteq> None"

lemma rows_of_simps [simp]: "rows_of None = []" "rows_of (Some rows) = rows"
  by (simp_all add: rows_of_def)

lemma rows_if_not_exists [simp]: "rows_of (if_not_exists t) = rows_of t" "if_not_exists t \<noteq> None"
  by (simp_all add: if_not_exists_def split: option.split)

lemma run_ddl_held [simp]: "held (run_ddl f st) = held f"
  by (cases st) (simp_all add: held_def)

lemma execute_batch_held: "held (fst (execute_batch fault sts f)) = held f"
  by (induction fault sts f rule: execute_batch.induct) (simp_all split: option.split)

lemma execute_batch_done:
  "execute_batch fault sts f = (g, Inr ()) \<Longrightarrow> g = foldl run_ddl f sts \<and> (\<forall>st \<in> set sts. fault st = None)"
  by (induction fault sts f rule: execute_batch.induct) (simp_all split: option.splits)

lemma db_open_batch:
  "db_open io f =
     (case do_connect io of
        Some e \<Rightarrow> (f, Inl (Db e))
      | None \<Rightarrow> (fst (execute_batch (do_statement io) SCHEMA f),
          case snd (execute_batch (do_statement io) SCHEMA f) of Inl e \<Rightarrow> Inl (Db e) | Inr _ \<Rightarrow> Inr ()))"
  by (cases "execute_batch (do_statement io) SCHEMA f") (simp add: db_open_def split: option.split sum.split)

lemma db_open_held: "held (fst (db_open io f)) = held f"
  by (simp add: db_open_batch execute_batch_held split: option.split)

lemma db_open_ready:
  assumes "db_open io f = (g, Inr ())"
  shows "ready g"
proof -
  obtain h where "execute_batch (do_statement io) SCHEMA f = (h, Inr ())" "g = h"
    using assms by (cases "execute_batch (do_statement io) SCHEMA f") (auto simp: db_open_batch split: option.splits sum.splits)
  with execute_batch_done [of "do_statement io" SCHEMA f h] show ?thesis by (simp add: SCHEMA_def ready_def)
qed

lemma ready_run_ddl: "ready f \<Longrightarrow> run_ddl f st = f"
  by (cases st) (auto simp: ready_def if_not_exists_def split: option.split)

lemma ready_execute_batch: "ready f \<Longrightarrow> fst (execute_batch fault sts f) = f"
  by (induction sts) (simp_all add: ready_run_ddl split: option.split)

lemma db_open_ready_same: "ready f \<Longrightarrow> fst (db_open io f) = f"
  by (simp add: db_open_batch ready_execute_batch split: option.split)

lemma held_tables: "held f = held g \<Longrightarrow> stats_tables f = stats_tables g"
  by (simp add: held_def stats_tables_def)

text \<open>
  Opening the database never loses history.  Whatever the outcome, every table holds the
  rows it held; when it succeeds, the schema is complete, the manager starts with zero counters
  on exactly these rows, so the traffic of the day and every chart are what they were before the
  restart, and opening once more, with any outcome, changes nothing.
\<close>

theorem opening_keeps_history:
  "held (fst (stats_load io f)) = held f
 \<and> (case snd (stats_load io f) of
      Inl e \<Rightarrow> (\<exists>m. e = err_display (Db m) \<and> (do_connect io = Some m \<or> (\<exists>st. do_statement io st = Some m)))
    | Inr s \<Rightarrow> ready (fst (stats_load io f)) \<and> sx_up s = 0 \<and> sx_down s = 0 \<and> sx_session s = None
        \<and> (\<forall>fault ts. sum_since fault (sx_db s) ts = sum_since fault (stats_tables f) ts)
        \<and> (\<forall>a b. query_range (sx_db s) a b = query_range (stats_tables f) a b)
        \<and> (\<forall>io'. fst (stats_load io' (fst (stats_load io f))) = fst (stats_load io f)))"
proof -
  have fault: "\<exists>st. fault st = Some e" if "execute_batch fault sts f = (g, Inl e)" for fault sts e g
    using that by (induction fault sts f rule: execute_batch.induct) (auto split: option.splits)
  have fst_load: "fst (stats_load io f) = fst (db_open io f)" for io f
    by (simp add: stats_load_def split: prod.split sum.split)
  obtain g r where o: "db_open io f = (g, r)" by force
  with db_open_held [of io f] have keep: "held g = held f" by simp
  show ?thesis
  proof (cases r)
    case (Inl e)
    with o have "\<exists>m. e = Db m \<and> (do_connect io = Some m \<or> (\<exists>st. do_statement io st = Some m))"
      by (cases "execute_batch (do_statement io) SCHEMA f") (auto simp: db_open_batch dest: fault split: option.splits sum.splits)
    with o Inl keep show ?thesis by (auto simp: stats_load_def)
  next
    case (Inr u)
    with o have g: "db_open io f = (g, Inr ())" by simp
    from db_open_ready [OF this] have "ready g" .
    moreover have "stats_load io f = (g, Inr \<lparr>sx_db = stats_tables g, sx_up = 0, sx_down = 0, sx_session = None,
        sx_last = None, sx_bus = []\<rparr>)" by (simp add: stats_load_def g)
    ultimately show ?thesis using keep db_open_ready_same held_tables [OF keep] by (simp add: fst_load)
  qed
qed

section \<open>Over the starts of the service\<close>

text \<open>
  A session as the service runs it: bytes are counted and flushed, a last flush, the end.  A run
  of the service opens the file, or gives up, and runs its sessions on it.
\<close>

type_synonym session_run = "(stats_env \<times> string \<times> string) \<times> traffic_op list \<times> stats_env \<times> stats_env"

definition run_session :: "stats_manager \<Rightarrow> session_run \<Rightarrow> stats_manager" where
  "run_session s r =
     (case r of ((env, uuid, node), ops, last_env, end_env) \<Rightarrow>
        stats_end_session end_env (flush_once (last_env\<lparr>se_insert := None\<rparr>)
          (foldl traffic_step (stats_start_session env uuid s node) ops)))"

definition run_service :: "db_file \<Rightarrow> db_opening \<times> session_run list \<Rightarrow> db_file" where
  "run_service f r =
     (case stats_load (fst r) f of
        (f, Inl _) \<Rightarrow> f
      | (f, Inr s) \<Rightarrow> with_stats_tables (sx_db (foldl run_session s (snd r))) f)"

definition session_up :: "session_run \<Rightarrow> nat" where
  "session_up r = sum_list (map up_bytes (fst (snd r)))"

definition session_down :: "session_run \<Rightarrow> nat" where
  "session_down r = sum_list (map down_bytes (fst (snd r)))"

text \<open>The bytes of a run: those of its sessions, when the database opens.\<close>

definition opens :: "db_opening \<Rightarrow> bool" where
  "opens io \<longleftrightarrow> do_connect io = None \<and> list_all (\<lambda>st. do_statement io st = None) SCHEMA"

definition service_up :: "db_opening \<times> session_run list \<Rightarrow> nat" where
  "service_up r = (if opens (fst r) then sum_list (map session_up (snd r)) else 0)"

definition service_down :: "db_opening \<times> session_run list \<Rightarrow> nat" where
  "service_down r = (if opens (fst r) then sum_list (map session_down (snd r)) else 0)"

definition small_sessions :: "session_run list \<Rightarrow> bool" where
  "small_sessions rs \<longleftrightarrow> list_all (\<lambda>r. session_up r < 2 ^ 63 \<and> session_down r < 2 ^ 63) rs"

lemma run_session_sums:
  assumes "session_up r < 2 ^ 63" "session_down r < 2 ^ 63"
  shows "up_sum (sx_db (run_session s r)) = up_sum (sx_db s) + session_up r
       \<and> down_sum (sx_db (run_session s r)) = down_sum (sx_db s) + session_down r"
proof -
  obtain env uuid node ops la en where r: "r = ((env, uuid, node), ops, la, en)" by (metis prod.exhaust)
  let ?s = "foldl traffic_step (stats_start_session env uuid s node) ops"
  have small: "sum_list (map up_bytes ops) < 2 ^ 63" "sum_list (map down_bytes ops) < 2 ^ 63"
    using assms by (simp_all add: r session_up_def session_down_def)
  have "accounted (up_sum (sx_db s)) (down_sum (sx_db s)) (sum_list (map up_bytes ops)) (sum_list (map down_bytes ops)) ?s"
    using accounted_run [OF accounted_start, of ops s env uuid node] small by simp
  from accounted_flush [OF this small, of "la\<lparr>se_insert := None\<rparr>"] show ?thesis
    by (simp add: r run_session_def session_up_def session_down_def up_sum_def down_sum_def)
qed

lemma run_sessions_sums:
  "small_sessions rs \<Longrightarrow>
     up_sum (sx_db (foldl run_session s rs)) = up_sum (sx_db s) + sum_list (map session_up rs)
   \<and> down_sum (sx_db (foldl run_session s rs)) = down_sum (sx_db s) + sum_list (map session_down rs)"
  by (induction rs arbitrary: s) (simp_all add: small_sessions_def run_session_sums)

lemma execute_batch_opens:
  "isl (snd (execute_batch fault sts f)) \<longleftrightarrow> \<not> list_all (\<lambda>st. fault st = None) sts"
  by (induction fault sts f rule: execute_batch.induct) (simp_all split: option.split)

lemma isl_map_error: "isl (case r of Inl e \<Rightarrow> Inl (h e) | Inr _ \<Rightarrow> Inr ()) \<longleftrightarrow> isl r"
  by (cases r) simp_all

lemma db_open_opens: "isl (snd (db_open io f)) \<longleftrightarrow> \<not> opens io"
proof (cases "do_connect io")
  case None
  then have "isl (snd (db_open io f)) \<longleftrightarrow> isl (snd (execute_batch (do_statement io) SCHEMA f))"
    by (simp only: db_open_batch option.case snd_conv isl_map_error)
  with None show ?thesis by (simp only: execute_batch_opens opens_def simp_thms)
next
  case (Some e)
  then show ?thesis by (simp add: db_open_batch opens_def)
qed

lemma stats_tables_with [simp]: "stats_tables (with_stats_tables db f) = db"
  by (simp add: stats_tables_def with_stats_tables_def)

lemma run_service_sums:
  assumes "small_sessions (snd r)"
  shows "up_sum (stats_tables (run_service f r)) = up_sum (stats_tables f) + service_up r
       \<and> down_sum (stats_tables (run_service f r)) = down_sum (stats_tables f) + service_down r"
proof -
  obtain g u where o: "db_open (fst r) f = (g, u)" by (cases "db_open (fst r) f")
  with db_open_held [of "fst r" f] have t: "stats_tables g = stats_tables f" by (intro held_tables) simp
  show ?thesis
  proof (cases u)
    case (Inl e)
    with o db_open_opens [of "fst r" f] have "\<not> opens (fst r)" by simp
    with o Inl t show ?thesis by (simp add: run_service_def stats_load_def service_up_def service_down_def)
  next
    case (Inr x)
    with o db_open_opens [of "fst r" f] have "opens (fst r)" by simp
    with o Inr t run_sessions_sums [OF assms] show ?thesis
      by (simp add: run_service_def stats_load_def service_up_def service_down_def)
  qed
qed


text \<open>
  Two starts on a file that does not exist yet, between them one whose last table fails: the
  bytes of the first session are there, and those of the third.
\<close>

definition no_file :: db_file where
  "no_file = \<lparr>tb_wal = False, tb_sessions = None, tb_samples = None, tb_samples_index = False, tb_health = None,
     tb_diagnostics = None\<rparr>"

definition opens_well :: db_opening where
  "opens_well = \<lparr>do_connect = None, do_statement = (\<lambda>_. None)\<rparr>"

definition opens_badly :: db_opening where
  "opens_badly = \<lparr>do_connect = None, do_statement = (\<lambda>st. if st = Create_diagnostics then Some ''disk I/O error'' else None)\<rparr>"

definition demo_session :: "u64 \<Rightarrow> session_run" where
  "demo_session n = ((quiet_env 1, ''u'', ''n''), [Up n, Tick (quiet_env 2), Up 42, Down 20], quiet_env 3, quiet_env 4)"


text \<open>A row of node health goes to its table and nowhere else, once the file has been opened.\<close>

lemma insert_health_after_open:
  assumes "db_open io f = (g, Inr u)"
  shows "insert_health None g ts node latency (Some l) =
      (g\<lparr>tb_health := Some (rows_of (tb_health f) @ [\<lparr>hr_ts = ts, hr_node = node, hr_latency = latency, hr_loss = l\<rparr>])\<rparr>, Inr ())"
    and "fst (insert_health (Some e) g ts node latency loss) = g" "fst (insert_health fault g ts node latency None) = g"
proof -
  from assms have "ready g" by (intro db_open_ready) simp
  moreover from assms db_open_held [of io f] have "rows_of (tb_health g) = rows_of (tb_health f)" by (simp add: held_def)
  ultimately show "insert_health None g ts node latency (Some l) =
      (g\<lparr>tb_health := Some (rows_of (tb_health f) @ [\<lparr>hr_ts = ts, hr_node = node, hr_latency = latency, hr_loss = l\<rparr>])\<rparr>, Inr ())"
    by (auto simp: ready_def insert_health_def)
qed (auto simp: insert_health_def split: option.split)

section \<open>Midnight\<close>

text \<open>
  \<^verbatim>\<open>common.rs\<close>: the start of the day, as the calendar gives it when it is unique, and otherwise
  from the clock and the seconds of its time of day.
\<close>

definition today_midnight_millis :: "int option \<Rightarrow> int \<Rightarrow> nat \<Rightarrow> int" where
  "today_midnight_millis single now seconds_from_midnight =
     (case single of Some dt \<Rightarrow> dt | None \<Rightarrow> now - int seconds_from_midnight * 1000)"

text \<open>
  The arithmetic keeps the milliseconds of the clock: the day it gives starts up to a second
  late, at a moment that moves with each call, and a sample of that second may be left out.
\<close>

lemma today_midnight_fallback:
  assumes "now = midnight + int k * 1000 + ms"
  shows "today_midnight_millis None now k = midnight + ms"
  using assms by (simp add: today_midnight_millis_def)

lemma sum_since_late_day:
  "sum_since None \<lparr>db_sessions = [], db_samples = [\<lparr>sm_ts = 86400100, sm_node = n, sm_up = 7, sm_down = 0\<rparr>]\<rparr>
     (today_midnight_millis None 86405900 5) = Inr (0, 0)"
  "sum_since None \<lparr>db_sessions = [], db_samples = [\<lparr>sm_ts = 86400100, sm_node = n, sm_up = 7, sm_down = 0\<rparr>]\<rparr>
     (today_midnight_millis (Some 86400000) 86405900 5) = Inr (7, 0)"
  by (simp_all add: today_midnight_millis_def sum_since_def)

end
