(* ===== verification/Service_Start.thy ===== *)
theory Service_Start
  imports App_Runs Stats_Poller Stats_Tables
begin

text \<open>
  \<^verbatim>\<open>main.rs\<close>: how the managers are loaded and wired, the loop that refreshes subscriptions, and
  the order of the shutdown.  The decoders of the files, the environment, the file of the
  database, the registry, and the listing of the country files are arguments.
\<close>

section \<open>Start\<close>

datatype boot_error = Load_configuration svc_error | Routing_engine svc_error | Statistics_database string

record decoders =
  dj_app :: "string \<Rightarrow> string + app_config"
  dj_runtime :: "string \<Rightarrow> string + runtime_persist"
  dj_nodes :: "string \<Rightarrow> string + node list"
  dj_rules :: "string \<Rightarrow> string + rule list"
  dj_routing :: "string \<Rightarrow> string + routing_config"
  dj_dns :: "string \<Rightarrow> string + dns_config"
  dj_subs :: "string \<Rightarrow> string + subscription list"

record machine =
  ma_data_dir :: "string option"
  ma_local_dir :: "string option"
  ma_disk :: fs
  ma_registry :: registry
  ma_countries :: "(string \<times> string option) list option"
  ma_stats :: db_file
  ma_stats_opening :: db_opening

definition data_root :: "string option \<Rightarrow> string option \<Rightarrow> string" where
  \<comment> \<open>from the environment variable and the data directory of the user\<close>
  "data_root var local =
     (case var of
        Some dir \<Rightarrow>
          if dir \<noteq> [] then dir else path_join (case local of Some d \<Rightarrow> d | None \<Rightarrow> ''.'') ''NetworkClient''
      | None \<Rightarrow> path_join (case local of Some d \<Rightarrow> d | None \<Rightarrow> ''.'') ''NetworkClient'')"

definition cm_load :: "decoders \<Rightarrow> machine \<Rightarrow> svc_error + config_manager" where
  "cm_load de ma =
     cm_load_with_root (dj_app de) (dj_runtime de) (ma_disk ma) (data_root (ma_data_dir ma) (ma_local_dir ma))"

definition conn_new ::
  "config_manager \<Rightarrow> fs \<Rightarrow> node_manager \<Rightarrow> 'r routing_engine \<Rightarrow> dns_config \<Rightarrow> core_adapter \<Rightarrow> route_state
     \<Rightarrow> tun_manager \<Rightarrow> stats_manager \<Rightarrow> 'r conn_manager" where
  "conn_new config disk nodes routing dns core route tun stats =
     \<lparr>lc_config = config, lc_disk = disk, lc_nodes = nodes, lc_routing = routing, lc_dns = dns, lc_core = core,
      lc_route = route, lc_tun = tun, lc_stats = stats, lc_state = new_store, lc_active = None, lc_monitor = False,
      lc_restart_count = 0\<rparr>"

definition boot :: "'r regex_crate \<Rightarrow> decoders \<Rightarrow> machine \<Rightarrow> (boot_error + 'r app) option" where
  \<comment> \<open>\<open>None\<close> is a panic\<close>
  "boot rx de ma =
     (case cm_load de ma of
        Inl e \<Rightarrow> Some (Inl (Load_configuration e))
      | Inr config \<Rightarrow>
          (let ps = cm_paths config; nodes = nodes_load (dj_nodes de) ps (ma_disk ma)
           in case engine_load rx (dj_rules de) (dj_routing de) ps (ma_disk ma) (ma_countries ma) of
                None \<Rightarrow> None
              | Some (Inl e) \<Rightarrow> Some (Inl (Routing_engine e))
              | Some (Inr routing) \<Rightarrow>
                  (let dns = dns_load (dj_dns de) (config, ma_disk ma)
                   in case snd (stats_load (ma_stats_opening ma) (ma_stats ma)) of
                        Inl e \<Rightarrow> Some (Inl (Statistics_database (''statistics database: '' @ e)))
                      | Inr stats \<Rightarrow>
                          (let core = core_new; route = route_new (pt_root ps) (ma_disk ma) (ma_registry ma); tun = tun_new;
                               subscriptions = subs_load (dj_subs de) ps (ma_disk ma);
                               connection = conn_new config (ma_disk ma) nodes routing (dm_cfg dns) core route tun stats
                           in Some (Inr \<lparr>ap_conn = connection, ap_subs = subscriptions, ap_dns = dns,
                                ap_diag = idle_control, ap_refreshes = [], ap_probes = []\<rparr>)))))"

section \<open>The loop of the subscriptions\<close>

text \<open>Each tick: what others did before it, the clock, and the answers to the refreshes.\<close>

fun subs_loop ::
  "sub_env \<Rightarrow> ((sub_state \<Rightarrow> sub_state) \<times> int \<times> (string \<Rightarrow> refresh_io)) list \<Rightarrow> sub_state \<Rightarrow> sub_state" where
  "subs_loop env [] s = s"
| "subs_loop env ((other, now, ros) # rest) s = subs_loop env rest (refresh_due env ros now (other s))"

section \<open>Shutdown\<close>

definition shutdown ::
  "'r app_env \<Rightarrow> disconnect_io \<Rightarrow> (recover_io \<times> node \<times> u32) option \<Rightarrow> stats_env \<Rightarrow> 'r app \<Rightarrow> 'r app" where
  \<comment> \<open>disconnect whatever the result, then the last round of the flush loop\<close>
  "shutdown env io pending fe s =
     (let (s, _) = on_conn (disconnect (ae_json env) io pending) s
      in s\<lparr>ap_conn := (ap_conn s)\<lparr>lc_stats := flush_loop [(id, True, fe)] (lc_stats (ap_conn s))\<rparr>\<rparr>)"

section \<open>What a start and a shutdown give\<close>

lemma boot_cases:
  assumes "boot rx de ma = Some (Inr s)"
  obtains config nodes routing dns stats where
    "cm_load de ma = Inr config"
    "snd (stats_load (ma_stats_opening ma) (ma_stats ma)) = Inr stats"
    "ap_conn s = conn_new config (ma_disk ma) nodes routing dns core_new
       (route_new (pt_root (cm_paths config)) (ma_disk ma) (ma_registry ma)) tun_new stats"
  using assms by (auto simp: boot_def Let_def split: sum.splits option.splits)

lemma boot_initial: "boot rx de ma = Some (Inr s) \<Longrightarrow> initial_manager (ap_conn s)"
  by (erule boot_cases) (auto simp: initial_manager_def conn_new_def route_new_def stats_load_def split: sum.splits prod.splits)

lemma engine_load_returns: "engine_load rx r c ps disk dir \<noteq> None"
  by (simp add: engine_load_def with_private_entries Let_def split: sum.split)

lemma boot_returns: "boot rx de ma \<noteq> None"
  by (auto simp: boot_def Let_def engine_load_returns split: sum.split option.split)

text \<open>The connection as a run from the start leaves it, before and after the shutdown.\<close>

definition gone :: "'r conn_manager \<Rightarrow> bool" where
  "gone c \<longleftrightarrow> ca_child (lc_core c) = None \<and> \<not> session_active (lc_stats c) \<and> \<not> tm_adapter (lc_tun c)"

definition given_back :: "'r conn_manager \<Rightarrow> bool" where
  "given_back c \<longleftrightarrow> conn_state_of c = Stopped \<and> \<not> is_active (lc_route c) \<and> \<not> lc_monitor c \<and> lc_active c = None"

lemma shutdown_conn:
  "ap_conn (shutdown env io pending fe s) =
     (let c = fst (disconnect (ae_json env) io pending (ap_conn s)) in c\<lparr>lc_stats := flush_once fe (lc_stats c)\<rparr>)"
  by (simp add: shutdown_def on_conn_def Let_def split: prod.split)

lemma disconnected_gone:
  assumes "conn_inv (view c) p" "settled (view c)" "disconnect js io (pending_of rio p) c = (t, r)"
  shows "gone t \<and> (conn_state_of c = Starting \<or> given_back t)"
proof (cases "conn_state_of c \<in> {Error, Connected, Reconnecting}")
  case True
  with disconnect_stops [OF assms(1), of js io rio] assms(3) obtain v where
    v: "view t = (released v)\<lparr>vw_state := Stopped, vw_active := None, vw_monitor := False\<rparr>" by auto
  have "vw_core (view t) = False" "vw_session (view t) = False" "vw_tun (view t) = False" "vw_proxy (view t) = False"
    "vw_state (view t) = Stopped" "vw_active (view t) = None" "vw_monitor (view t) = False"
    unfolding v by (simp_all add: released_def)
  then show ?thesis by (auto simp: gone_def given_back_def)
next
  case False
  with disconnect_idle [OF this] assms have t: "t = c" by simp
  from assms(1,2) False show ?thesis unfolding t
    by (cases "conn_state_of c") (auto simp: conn_inv_def settled_def gone_def given_back_def Let_def)
qed


definition demo_decoders :: decoders where
  "demo_decoders = \<lparr>dj_app = (\<lambda>_. Inl ''e''), dj_runtime = (\<lambda>_. Inl ''e''), dj_nodes = (\<lambda>_. Inr [demo_node]),
     dj_rules = (\<lambda>_. Inl ''e''), dj_routing = (\<lambda>_. Inl ''e''), dj_dns = (\<lambda>_. Inl ''e''), dj_subs = (\<lambda>_. Inl ''e'')\<rparr>"

definition demo_machine :: machine where
  "demo_machine = \<lparr>ma_data_dir = Some ''d'', ma_local_dir = None, ma_disk = Map.empty, ma_registry = demo_registry, ma_countries = None,
     ma_stats = no_file, ma_stats_opening = opens_well\<rparr>"

lemma demo_boot:
  "\<exists>s e. boot (ae_rx demo_service) demo_decoders demo_machine = Some (Inr s)
     \<and> ap_conn s = demo_manager\<lparr>lc_nodes := nodes_load (dj_nodes demo_decoders) (paths_with_root ''d'') Map.empty,
         lc_routing := e\<rparr>"
proof -
  have "validate_app app_config_default = Inr ()"
    by (simp add: validate_app_def app_config_default_def tun_config_default_def core_config_default_def dns_config_default_def)
  then show ?thesis
    by (simp add: boot_def cm_load_def data_root_def demo_machine_def demo_decoders_def cm_load_with_root_def load_app_config_def read_json_or_def
        read_json_def engine_load_def with_private_entries build_index_def dns_load_def cm_dns_def stats_load_def
        db_open_def opens_well_def no_file_def SCHEMA_def stats_tables_def if_not_exists_def
        conn_new_def demo_manager_def paths_with_root_def Let_def)
qed


lemma demo_app_run:
  assumes "ap_conn s = demo_manager\<lparr>lc_nodes := nm, lc_routing := e\<rparr>"
  shows "(app_step demo_service)\<^sup>*\<^sup>* (s, None) (demo_app\<lparr>ap_conn := demo_connected\<rparr>, None)"
proof -
  have "lc_step (ae_json demo_service) (ap_conn s, None) (demo_manager, None)"
    using do_others [where js = "ae_json demo_service" and s = "ap_conn s" and p = None and cm = "lc_config demo_manager"
        and disk = "lc_disk demo_manager" and nm = "lc_nodes demo_manager" and e = "lc_routing demo_manager"
        and dns = "lc_dns demo_manager"] by (simp add: assms)
  then have "app_step demo_service (s, None) (s\<lparr>ap_conn := demo_manager\<rparr>, None)" by (rule background)
  moreover have "app_step demo_service (s\<lparr>ap_conn := demo_manager\<rparr>, None) (demo_app, None)"
    using tasks [where env = demo_service and s = "s\<lparr>ap_conn := demo_manager\<rparr>" and p = None and subs = "ap_subs demo_app"
        and dns = "ap_dns demo_app" and d = "ap_diag demo_app" and rs = "ap_refreshes demo_app" and ps = "ap_probes demo_app"]
    by (cases s) (simp add: demo_app_def)
  ultimately show ?thesis using demo_connect_request
    by (meson converse_rtranclp_into_rtranclp r_into_rtranclp)
qed


end
