(* ===== verification/Ipc_Listener.thy ===== *)
theory Ipc_Listener
  imports Ipc_Server
begin

text \<open>
  The listener of \<^verbatim>\<open>ipc/server.rs\<close>: one pipe instance per client, created with an access list for
  the owner, waited on, and handed to a task.  The calls into the system are kept in order; their
  answers are arguments.
\<close>

section \<open>A pipe instance\<close>

text \<open>
  What the system answers to the creation of one instance: the conversion of the access list to
  a descriptor, numbered, and the creation itself.
\<close>

record create_io =
  cr_descriptor :: "string + nat"
  cr_create :: "string option"

datatype pipe_error = Permission_denied string | Pipe_io string

datatype pipe_call = Convert_access_list string | Create_instance bool nat | Local_free nat

definition PIPE_NAME :: string where
  "PIPE_NAME = [CHR 0x5C, CHR 0x5C, CHR ''.'', CHR 0x5C] @ ''pipe'' @ [CHR 0x5C] @ ''NetworkClient''"

definition ACCESS_LIST :: string where
  \<comment> \<open>protected, everything for the owner, nothing for anyone else\<close>
  "ACCESS_LIST = ''D:P(A;;GA;;;OW)''"

definition create_instance :: "bool \<Rightarrow> create_io \<Rightarrow> pipe_call list \<times> (pipe_error + unit)" where
  "create_instance first io =
     (case cr_descriptor io of
        Inl e \<Rightarrow> ([Convert_access_list ACCESS_LIST], Inl (Permission_denied e))
      | Inr psd \<Rightarrow>
          (let result = (case cr_create io of None \<Rightarrow> Inr () | Some e \<Rightarrow> Inl (Pipe_io e))
           in ([Convert_access_list ACCESS_LIST, Create_instance first psd, Local_free psd], result)))"

section \<open>The loop\<close>

text \<open>What ends the wait on an instance: a client with its number, an error, or the shutdown.\<close>

datatype wait = Client nat | Connect_failed string | Shutdown_seen

text \<open>
  The loop returns the calls, the clients handed to a task, and how it ended: not yet, with an
  error, or with the shutdown.
\<close>

fun listen :: "bool \<Rightarrow> (create_io \<times> wait) list \<Rightarrow> pipe_call list \<times> nat list \<times> (pipe_error + unit) option" where
  "listen first [] = ([], [], None)"
| "listen first ((io, w) # rest) =
     (case create_instance first io of
        (calls, Inl e) \<Rightarrow> (calls, [], Some (Inl e))
      | (calls, Inr _) \<Rightarrow>
          (case w of
             Connect_failed e \<Rightarrow> (calls, [], Some (Inl (Pipe_io e)))
           | Shutdown_seen \<Rightarrow> (calls, [], Some (Inr ()))
           | Client c \<Rightarrow>
               (case listen False rest of (more_calls, served, r) \<Rightarrow> (calls @ more_calls, c # served, r))))"

definition listener :: "(create_io \<times> wait) list \<Rightarrow> pipe_call list \<times> nat list \<times> (pipe_error + unit) option" where
  "listener rounds = listen True rounds"

section \<open>Who is served\<close>

fun accepted :: "create_io \<times> wait \<Rightarrow> nat option" where
  \<comment> \<open>the client of a round in which nothing failed\<close>
  "accepted (io, w) =
     (if is_ok (snd (create_instance True io)) then case w of Client c \<Rightarrow> Some c | _ \<Rightarrow> None else None)"

lemma create_instance_result: "snd (create_instance first io) = snd (create_instance True io)"
  by (simp add: create_instance_def Let_def split: sum.split)

definition prefix_accepted :: "(create_io \<times> wait) list \<Rightarrow> nat list" where
  "prefix_accepted rounds = map (the \<circ> accepted) (takeWhile (\<lambda>r. accepted r \<noteq> None) rounds)"

lemma listen_served:
  "fst (snd (listen first rounds)) = prefix_accepted rounds
 \<and> (snd (snd (listen first rounds)) = None \<longleftrightarrow> (\<forall>r \<in> set rounds. accepted r \<noteq> None))"
proof (induction rounds arbitrary: first)
  case Nil
  then show ?case by (simp add: prefix_accepted_def)
next
  case (Cons r rounds)
  obtain io w where r: "r = (io, w)" by force
  obtain calls res where c: "create_instance first io = (calls, res)" by force
  with create_instance_result [of first io] have res: "snd (create_instance True io) = res" by simp
  obtain calls2 served r2 where l: "listen False rounds = (calls2, served, r2)" by (metis prod.exhaust)
  from Cons.IH [of False] l have IH: "served = prefix_accepted rounds" "r2 = None \<longleftrightarrow> (\<forall>r \<in> set rounds. accepted r \<noteq> None)"
    by simp_all
  show ?case
    by (cases res; cases w) (simp_all add: r c res l IH prefix_accepted_def)
qed

text \<open>Every descriptor is used for one instance and freed; only the first instance claims the name.\<close>

fun instance_calls :: "bool \<Rightarrow> pipe_call list \<Rightarrow> bool" where
  \<comment> \<open>conversion, creation, release, in this order, the last conversion perhaps failing\<close>
  "instance_calls first [] = True"
| "instance_calls first [Convert_access_list a] = (a = ACCESS_LIST)"
| "instance_calls first (Convert_access_list a # Create_instance f d # Local_free d' # rest) =
     (a = ACCESS_LIST \<and> f = first \<and> d = d' \<and> instance_calls False rest)"
| "instance_calls first _ = False"

lemma create_instance_calls:
  "create_instance first io = (calls, Inr u) \<Longrightarrow>
     \<exists>d. calls = [Convert_access_list ACCESS_LIST, Create_instance first d, Local_free d]"
  by (auto simp: create_instance_def Let_def split: sum.splits option.splits)

lemma create_instance_fails:
  "create_instance first io = (calls, Inl e) \<Longrightarrow> instance_calls first calls"
  by (auto simp: create_instance_def Let_def split: sum.splits option.splits)

lemma listen_calls: "instance_calls first (fst (listen first rounds))"
proof (induction rounds arbitrary: first)
  case (Cons r rounds)
  obtain io w where r: "r = (io, w)" by force
  obtain calls res where c: "create_instance first io = (calls, res)" by force
  obtain calls2 served r2 where l: "listen False rounds = (calls2, served, r2)" by (metis prod.exhaust)
  with Cons.IH [of False] have IH: "instance_calls False calls2" by simp
  show ?case
  proof (cases res)
    case (Inl e)
    then show ?thesis using create_instance_fails [of first io calls e] by (simp add: r c)
  next
    case (Inr u)
    with c create_instance_calls obtain d where
      "calls = [Convert_access_list ACCESS_LIST, Create_instance first d, Local_free d]" by blast
    with Inr IH show ?thesis by (cases w) (simp_all add: r c l)
  qed
qed simp

text \<open>
  The listener serves the clients in the order they come, each once, up to the first thing
  that goes wrong: after one failed creation or one failed connect it returns, whoever calls
  afterwards, and it stays otherwise only until the shutdown.  Every instance is created with
  the access list of the owner, its descriptor is freed exactly once, and only the first
  instance claims the name of the pipe.
\<close>

theorem listener_exact:
  "case listener rounds of (calls, served, r) \<Rightarrow>
     served = prefix_accepted rounds
   \<and> (r = None \<longleftrightarrow> (\<forall>x \<in> set rounds. accepted x \<noteq> None))
   \<and> instance_calls True calls"
proof -
  obtain calls served r where "listen True rounds = (calls, served, r)" by (metis prod.exhaust)
  with listen_served [of True rounds] listen_calls [of True rounds] show ?thesis by (simp add: listener_def)
qed

theorem listener_exact_witness:
  "fst (snd (listener [(\<lparr>cr_descriptor = Inr 5, cr_create = None\<rparr>, Client 7),
      (\<lparr>cr_descriptor = Inr 6, cr_create = None\<rparr>, Connect_failed ''gone''),
      (\<lparr>cr_descriptor = Inr 8, cr_create = None\<rparr>, Client 9)])) = [7]"
  using listener_exact [of "[(\<lparr>cr_descriptor = Inr 5, cr_create = None\<rparr>, Client 7),
      (\<lparr>cr_descriptor = Inr 6, cr_create = None\<rparr>, Connect_failed ''gone''),
      (\<lparr>cr_descriptor = Inr 8, cr_create = None\<rparr>, Client 9)]"]
  by (auto simp: prefix_accepted_def create_instance_def Let_def split: prod.splits)

end
