(* ===== verification/Client_Runs.thy ===== *)
theory Client_Runs
  imports Service_Start Ipc_Listener
begin

text \<open>
  All clients at once against the whole service: messages arrive on any connection, their tasks
  run in any order, and the service works on its own in between.  A task is one step, the call
  of the method table; calls that wait for the network let others run before or after it.
\<close>

section \<open>Connections\<close>

record connection =
  cn_received :: "u8 list list"
  cn_tasks :: "request list"
  cn_replies :: "(request option \<times> response) list"

definition fresh_connection :: connection where
  "fresh_connection = \<lparr>cn_received = [], cn_tasks = [], cn_replies = []\<rparr>"

definition receive :: "(u8 list \<Rightarrow> string + request) \<Rightarrow> u8 list \<Rightarrow> connection \<Rightarrow> connection" where
  \<comment> \<open>what the request loop does with one message\<close>
  "receive dec b c =
     (case action_of dec b of
        Reply_now r \<Rightarrow> c\<lparr>cn_received := cn_received c @ [b], cn_replies := cn_replies c @ [(None, r)]\<rparr>
      | Spawn rq \<Rightarrow> c\<lparr>cn_received := cn_received c @ [b], cn_tasks := cn_tasks c @ [rq]\<rparr>)"

definition finish_task :: "request \<Rightarrow> response \<Rightarrow> connection \<Rightarrow> connection" where
  "finish_task rq r c = c\<lparr>cn_tasks := remove1 rq (cn_tasks c), cn_replies := cn_replies c @ [(Some rq, r)]\<rparr>"

type_synonym 'r world = "('r app \<times> (node \<times> u32) option) \<times> (nat \<Rightarrow> connection)"

inductive world_step ::
  "(u8 list \<Rightarrow> string + request) \<Rightarrow> (reply \<Rightarrow> u8 list) \<Rightarrow> 'r app_env \<Rightarrow> 'r world \<Rightarrow> 'r world \<Rightarrow> bool"
  for dec :: "u8 list \<Rightarrow> string + request" and enc :: "reply \<Rightarrow> u8 list" and env :: "'r app_env" where
  arrives: "world_step dec enc env (x, cs) (x, cs(i := receive dec b (cs i)))"
| answers: "world_step dec enc env ((s, p), cs)
    ((fst (dispatch env io (rq_method rq) (rq_payload rq) s), flight_after env (rq_method rq) (rq_payload rq) (ap_conn s) p),
     cs(i := finish_task rq (respond rq (served enc env io s rq)) (cs i)))"
  if "rq \<in> set (cn_tasks (cs i))"
    "ai_pending io = pending_of rio p" "ai_pending2 io = pending_of rio2 (after_disconnect (ap_conn s) p)"
| works: "world_step dec enc env (x, cs) (y, cs)"
  if "app_step env x y"

inductive_cases world_stepE: "world_step dec enc env w w'"

section \<open>Every message is answered once\<close>

definition action_of_reply :: "request option \<times> response \<Rightarrow> loop_action" where
  "action_of_reply p = (case fst p of None \<Rightarrow> Reply_now (snd p) | Some rq \<Rightarrow> Spawn rq)"

definition balanced_connection :: "(u8 list \<Rightarrow> string + request) \<Rightarrow> connection \<Rightarrow> bool" where
  "balanced_connection dec c \<longleftrightarrow>
     mset (map (action_of dec) (cn_received c)) = mset (map Spawn (cn_tasks c)) + mset (map action_of_reply (cn_replies c))"

lemma balanced_fresh: "balanced_connection dec fresh_connection"
  by (simp add: balanced_connection_def fresh_connection_def)

lemma balanced_receive: "balanced_connection dec c \<Longrightarrow> balanced_connection dec (receive dec b c)"
  by (simp add: balanced_connection_def receive_def action_of_reply_def split: loop_action.split)

lemma balanced_finish:
  assumes "balanced_connection dec c" "rq \<in> set (cn_tasks c)"
  shows "balanced_connection dec (finish_task rq r c)"
proof -
  have "mset (cn_tasks c) = add_mset rq (mset (remove1 rq (cn_tasks c)))" using assms(2) by simp
  then have "image_mset Spawn (mset (cn_tasks c)) = add_mset (Spawn rq) (image_mset Spawn (mset (remove1 rq (cn_tasks c))))"
    by (metis image_mset_add_mset)
  with assms(1) show ?thesis
    by (simp add: balanced_connection_def finish_task_def action_of_reply_def)
qed

section \<open>What replies tell\<close>

definition told :: "(reply \<Rightarrow> u8 list) \<Rightarrow> 'r app_env \<Rightarrow> 'r app \<times> (node \<times> u32) option \<Rightarrow> 'r app \<times> (node \<times> u32) option
    \<Rightarrow> request \<Rightarrow> response \<Rightarrow> bool" where
  \<comment> \<open>a reply is what one call at one moment of the run gives\<close>
  "told enc env x0 x rq r \<longleftrightarrow>
     (\<exists>s p io. (app_step env)\<^sup>*\<^sup>* x0 (s, p) \<and> (app_step env)\<^sup>*\<^sup>* (s, p) x \<and> r = respond rq (served enc env io s rq))"

definition world_inv ::
  "(u8 list \<Rightarrow> string + request) \<Rightarrow> (reply \<Rightarrow> u8 list) \<Rightarrow> 'r app_env \<Rightarrow> 'r app \<times> (node \<times> u32) option \<Rightarrow> 'r world \<Rightarrow> bool" where
  "world_inv dec enc env x0 w \<longleftrightarrow>
     (app_step env)\<^sup>*\<^sup>* x0 (fst w)
   \<and> (\<forall>i. balanced_connection dec (snd w i))
   \<and> (\<forall>i rq r. (Some rq, r) \<in> set (cn_replies (snd w i)) \<longrightarrow> told enc env x0 (fst w) rq r)"

lemma told_later: "told enc env x0 x rq r \<Longrightarrow> app_step env x y \<Longrightarrow> told enc env x0 y rq r"
  unfolding told_def by (blast intro: rtranclp.rtrancl_into_rtrancl)

lemma toldI:
  "(app_step env)\<^sup>*\<^sup>* x0 (s, p) \<Longrightarrow> (app_step env)\<^sup>*\<^sup>* (s, p) x \<Longrightarrow> told enc env x0 x rq (respond rq (served enc env io s rq))"
  unfolding told_def by blast

lemma told_id: "told enc env x0 x rq r \<Longrightarrow> rs_id r = rq_id rq"
  by (auto simp: told_def respond_id)

lemma replies_finish: "set (cn_replies (finish_task rq r c)) = insert (Some rq, r) (set (cn_replies c))"
  by (simp add: finish_task_def)

lemma replies_receive: "(Some rq, r) \<in> set (cn_replies (receive dec b c)) \<longleftrightarrow> (Some rq, r) \<in> set (cn_replies c)"
  by (simp add: receive_def split: loop_action.split)

lemma world_inv_step:
  assumes "world_step dec enc env w w'" "world_inv dec enc env x0 w"
  shows "world_inv dec enc env x0 w'"
  using assms
proof (induction rule: world_step.induct)
  case (arrives x cs i b)
  then show ?case by (simp add: world_inv_def balanced_receive replies_receive)
next
  case (answers rq cs i io rio p rio2 s)
  let ?x = "(fst (dispatch env io (rq_method rq) (rq_payload rq) s), flight_after env (rq_method rq) (rq_payload rq) (ap_conn s) p)"
  have step: "app_step env (s, p) ?x" using answers.hyps(2,3) by (rule serve)
  from answers.prems have run: "(app_step env)\<^sup>*\<^sup>* x0 (s, p)" by (simp add: world_inv_def)
  from run step have new: "told enc env x0 ?x rq (respond rq (served enc env io s rq))" by (blast intro: toldI)
  from run step have run2: "(app_step env)\<^sup>*\<^sup>* x0 ?x" by (rule rtranclp.rtrancl_into_rtrancl)
  show ?case
    using answers.prems answers.hyps(1) run2 new told_later [OF _ step]
    by (auto simp: world_inv_def balanced_finish replies_finish)
next
  case (works x y cs)
  then have "(app_step env)\<^sup>*\<^sup>* x0 y" by (auto simp: world_inv_def intro: rtranclp.rtrancl_into_rtrancl)
  with works told_later [OF _ works.hyps] show ?case by (auto simp: world_inv_def)
qed

lemma world_inv_run:
  assumes "(world_step dec enc env)\<^sup>*\<^sup>* ((s0, None), \<lambda>_. fresh_connection) w"
  shows "world_inv dec enc env (s0, None) w"
  using assms
proof (induction rule: rtranclp_induct)
  case base
  then show ?case by (simp add: world_inv_def balanced_fresh) (simp add: fresh_connection_def)
next
  case (step w w')
  from world_inv_step [OF step.hyps(2) step.IH] show ?case .
qed

text \<open>The requests of a client with a given id, and how they divide.\<close>

definition asked :: "(u8 list \<Rightarrow> string + request) \<Rightarrow> request \<Rightarrow> u8 list list \<Rightarrow> nat" where
  "asked dec rq bodies = length (filter (\<lambda>b. dec b = Inr rq) bodies)"

definition answered_to :: "request \<Rightarrow> connection \<Rightarrow> nat" where
  "answered_to rq c = length (filter (\<lambda>p. fst p = Some rq) (cn_replies c))"

lemma balanced_counts:
  assumes "balanced_connection dec c"
  shows "asked dec rq (cn_received c) = count_list (cn_tasks c) rq + answered_to rq c"
    and "length (cn_received c) = length (cn_tasks c) + length (cn_replies c)"
proof -
  have c: "count (mset (map f xs)) y = length (filter (\<lambda>x. f x = y) xs)" for f xs and y :: loop_action
    by (induction xs) auto
  have "count (mset (map (action_of dec) (cn_received c))) (Spawn rq) = asked dec rq (cn_received c)"
    unfolding c asked_def by (rule arg_cong [where f = length], rule filter_cong) (auto simp: action_of_def split: sum.split)
  moreover have "count (mset (map Spawn (cn_tasks c))) (Spawn rq) = count_list (cn_tasks c) rq"
    unfolding c by (induction "cn_tasks c" rule: list.induct) (simp_all add: count_list_eq_length_filter, metis)
  moreover have "count (mset (map action_of_reply (cn_replies c))) (Spawn rq) = answered_to rq c"
    unfolding c answered_to_def
    by (rule arg_cong [where f = length], rule filter_cong) (auto simp: action_of_reply_def split: option.split)
  ultimately show "asked dec rq (cn_received c) = count_list (cn_tasks c) rq + answered_to rq c"
    using arg_cong [OF assms [unfolded balanced_connection_def], of "\<lambda>M. count M (Spawn rq)"] by simp
  show "length (cn_received c) = length (cn_tasks c) + length (cn_replies c)"
    using arg_cong [OF assms [unfolded balanced_connection_def], of size] by simp
qed


section \<open>What a client is shown\<close>

definition shown_truly :: "conn_payload \<Rightarrow> 'r conn_manager \<Rightarrow> bool" where
  "shown_truly shown c \<longleftrightarrow>
     (cp_state shown = ''CONNECTED'' \<longrightarrow>
        ca_child (lc_core c) \<noteq> None \<and> is_active (lc_route c) \<and> session_active (lc_stats c))
   \<and> (cp_state shown = ''STOPPED'' \<longrightarrow>
        ca_child (lc_core c) = None \<and> \<not> is_active (lc_route c) \<and> \<not> session_active (lc_stats c) \<and> \<not> tm_adapter (lc_tun c))
   \<and> (cp_state shown = ''ERROR'' \<longrightarrow> ca_child (lc_core c) = None)"

lemma run_shows_truth:
  assumes "boot rx de ma = Some (Inr s0)" "(app_step env)\<^sup>*\<^sup>* (s0, None) (s, p)"
  shows "shown_truly (state_payload now s) (ap_conn s)"
proof -
  from run_inv_run [OF app_run_lc_run [OF assms(2)] boot_initial [OF assms(1)]]
  have "conn_inv (view (ap_conn s)) p" "settled (view (ap_conn s))" by (simp_all add: run_inv_def)
  then show ?thesis
    by (cases "conn_state_of (ap_conn s)")
      (auto simp: shown_truly_def state_payload_def snapshot_payload_def conn_inv_def settled_def Let_def split: option.splits)
qed


section \<open>Witnesses\<close>

definition demo_status :: request where
  "demo_status = \<lparr>rq_id = ''q'', rq_method = ''connection.getStatus'', rq_payload = [], rq_version = 1\<rparr>"

definition demo_dec :: "u8 list \<Rightarrow> string + request" where
  "demo_dec b = (if b = [1] then Inr demo_status else Inl ''bad'')"

definition demo_enc :: "reply \<Rightarrow> u8 list" where
  "demo_enc r = (case r of R_state pl \<Rightarrow> as_bytes (cp_state pl) | _ \<Rightarrow> [])"

definition demo_asked :: "unit app \<Rightarrow> connection" where
  \<comment> \<open>a connection on which the status was asked and told\<close>
  "demo_asked s =
     finish_task demo_status (respond demo_status (served demo_enc demo_service demo_io s demo_status))
       (receive demo_dec [1] fresh_connection)"

lemma demo_world_run:
  "\<exists>y. (world_step demo_dec demo_enc demo_service)\<^sup>*\<^sup>* ((s, None), \<lambda>_. fresh_connection)
     (y, (\<lambda>_. fresh_connection)(0 := demo_asked s))"
proof -
  let ?cs = "(\<lambda>_. fresh_connection)(0 := receive demo_dec [1] fresh_connection)"
  have a: "world_step demo_dec demo_enc demo_service ((s, None), \<lambda>_. fresh_connection) ((s, None), ?cs)"
    using arrives [where x = "(s, None)" and cs = "\<lambda>_. fresh_connection" and i = 0 and b = "[1]"] by simp
  have "demo_status \<in> set (cn_tasks (?cs 0))"
    by (simp add: receive_def demo_dec_def action_of_def fresh_connection_def)
  moreover have "ai_pending demo_io = pending_of undefined None"
    "ai_pending2 demo_io = pending_of undefined (after_disconnect (ap_conn s) None)"
    by (simp_all add: demo_io_def pending_of_def after_disconnect_def)
  ultimately show ?thesis
    using answers [where rq = demo_status and cs = ?cs and i = 0 and io = demo_io and p = None and s = s and dec = demo_dec
        and enc = demo_enc and env = demo_service] a
    unfolding demo_asked_def by (fastforce intro: converse_rtranclp_into_rtranclp)
qed

lemma demo_asked_replies:
  "cn_replies (demo_asked s) = [(Some demo_status, respond demo_status (served demo_enc demo_service demo_io s demo_status))]"
  by (simp add: demo_asked_def finish_task_def receive_def demo_dec_def action_of_def fresh_connection_def)



end
