(* ===== verification/Store_Walk.thy ===== *)
theory Store_Walk
  imports App_Runs
begin

text \<open>
  The state store under the whole service: whatever an operation of \<^verbatim>\<open>app/lifecycle.rs\<close> does, and
  in any state, it reaches the store of \<^verbatim>\<open>app/state.rs\<close> through the operations of the store only.
  So every run of the service, requests of all kinds included, is a run of the store.
\<close>

section \<open>Walks\<close>

definition walks :: "'r conn_manager \<Rightarrow> 'r conn_manager \<Rightarrow> bool" where
  "walks s t \<longleftrightarrow> store_step\<^sup>*\<^sup>* (lc_state s) (lc_state t)"

lemma walks_same: "lc_state t = lc_state s \<Longrightarrow> walks s t"
  by (simp add: walks_def)

lemma walks_trans [trans]: "walks s t \<Longrightarrow> walks t u \<Longrightarrow> walks s u"
  unfolding walks_def by (rule rtranclp_trans)

lemma walks_fail: "lc_state t = fail_state now Error code msg (lc_state s) \<Longrightarrow> walks s t"
  by (auto simp: walks_def intro: do_fail)

lemma walks_latency: "lc_state t = set_latency now ms (lc_state s) \<Longrightarrow> walks s t"
  by (auto simp: walks_def intro: do_set_latency)

lemma walks_transition: "walks s (fst (on_state (transition now to) s))"
  using do_transition [of "lc_state s" now to] by (auto simp: walks_def on_state_def split: prod.split)

lemma walks_context: "walks s (fst (on_state (set_context now to i n m) s))"
  using do_set_context [of "lc_state s" now to i n m] by (auto simp: walks_def on_state_def split: prod.split)

lemma walks_via: "walks s t \<Longrightarrow> lc_state s' = lc_state s \<Longrightarrow> lc_state t' = lc_state t \<Longrightarrow> walks s' t'"
  by (simp add: walks_def)

lemma on_core_state [simp]: "lc_state (fst (on_core f s)) = lc_state s"
  by (simp add: on_core_def split: prod.split)

lemma start_core_state [simp]: "lc_state (fst (start_core js io n s)) = lc_state s"
  by (simp add: start_core_def)

lemma start_core_D: "start_core js io n s = (t, r) \<Longrightarrow> lc_state t = lc_state s"
  using start_core_state [of js io n s] by simp

lemma on_route_state [simp]: "lc_state (fst (on_route f s)) = lc_state s"
  by (simp add: on_route_def split: prod.split)

section \<open>The operations\<close>

lemma walks_abort: "walks s (abort_start js io e mode n s)"
  by (rule walks_fail) (simp add: abort_start_def Let_def)

lemma walks_mark: "walks s (mark_recovered js io n s)"
  using walks_context [of "s\<lparr>lc_restart_count := 0\<rparr>" "ro_now io 1" Connected "nd_id n" "nd_name n" "ss_mode (lc_state s)"]
  by (rule walks_via) (simp_all add: mark_recovered_def Let_def)

lemma walks_give_up: "walks s (give_up js io n s)"
  by (rule walks_fail) (simp add: give_up_def Let_def)

lemma try_restart_state [simp]: "lc_state (fst (try_restart js io n s)) = lc_state s"
  by (auto simp: try_restart_def dest: start_core_D split: prod.split sum.split)

lemma try_switch_state [simp]: "lc_state (fst (try_switch js io n s)) = lc_state s"
  by (auto simp: try_switch_def Let_def dest!: start_core_D split: prod.splits sum.splits option.splits)

lemma walks_recover_rest: "walks s (recover_rest js io n attempt s)"
proof -
  obtain t b where r: "try_restart js io n s = (t, b)" by (cases "try_restart js io n s")
  obtain u o' where w: "try_switch js io n s = (u, o')" by (cases "try_switch js io n s")
  from r w have "walks s t" "walks s u" using try_restart_state [of js io n s] try_switch_state [of js io n s]
    by (simp_all add: walks_same)
  then show ?thesis using r w
    by (auto simp: recover_rest_def split: bool.split option.split intro: walks_trans walks_mark walks_give_up)
qed

lemma walks_recover_begin: "walks s (recover_begin io s)"
  using walks_transition [of "s\<lparr>lc_restart_count := lc_restart_count s + 1\<rparr>" "ro_now io 0" Reconnecting]
  by (rule walks_via) (simp_all add: recover_begin_def Let_def)

lemma walks_stop_monitor: "walks s (stop_monitor js pending s)"
  by (cases pending)
    (auto simp: stop_monitor_def walks_same split: prod.split intro: walks_via [OF walks_recover_rest])

lemma walks_on_state:
  assumes "on_state f s = (t, r)" "walks s (fst (on_state f s))"
  shows "walks s t"
  using assms by simp

lemma walks_leave: "leave_current js io pending node_id mode s = (t, r) \<Longrightarrow> walks s t"
proof -
  assume l: "leave_current js io pending node_id mode s = (t, r)"
  obtain u ru where u: "on_state (transition (co_now io 0) Stopping) s = (u, ru)" by (metis prod.exhaust)
  from walks_on_state [OF u walks_transition] have su: "walks s u" .
  define v where "v = (stop_core ((stop_monitor js pending u)\<lparr>lc_tun := tun_stop (lc_tun (stop_monitor js pending u))\<rparr>))
    \<lparr>lc_stats := stats_end_session (ci_stats (co_cleanup io)) (lc_stats (stop_core ((stop_monitor js pending u)
      \<lparr>lc_tun := tun_stop (lc_tun (stop_monitor js pending u))\<rparr>))), lc_active := None\<rparr>"
  have "walks u v" by (rule walks_via [OF walks_stop_monitor [of u js pending]]) (simp_all add: v_def)
  also have "walks v (fst (on_state (transition (co_now io 1) Starting) v))" by (rule walks_transition)
  finally have "walks s (fst (on_state (transition (co_now io 1) Starting) v))" using su walks_trans by blast
  with l u su show ?thesis
    by (auto simp: leave_current_def Let_def v_def walks_same split: if_splits sum.splits)
qed

lemma walks_finish: "walks s (fst (finish_connect js io n mode s))"
proof -
  define a where "a = s\<lparr>lc_stats := stats_start_session (co_stats io) (co_uuid io) (lc_stats s) (nd_id n), lc_active := Some n,
    lc_restart_count := 0\<rparr>"
  obtain b r where b: "on_state (set_context (co_now io 4) Connected (nd_id n) (nd_name n) (mode_str mode)) a = (b, r)"
    by (metis prod.exhaust)
  have "walks s a" by (rule walks_same) (simp add: a_def)
  also have "walks a b" using walks_on_state [OF b walks_context] .
  finally have sb: "walks s b" .
  show ?thesis
  proof (cases r)
    case (Inl e)
    with sb b show ?thesis by (simp add: finish_connect_def a_def)
  next
    case (Inr u)
    obtain m t where "test_node (co_test io) (co_now io 6)
        (lc_nodes (persist_runtime js (co_runtime io) (co_now io 5) Connected (Some n) mode b)) (nd_id n) = (m, t)"
      by (metis prod.exhaust)
    with Inr b have "\<exists>ms. lc_state (fst (finish_connect js io n mode s)) = set_latency (co_now io 7) ms (lc_state b)"
      by (auto simp: finish_connect_def a_def Let_def spawn_monitor_def)
    then obtain ms where "lc_state (fst (finish_connect js io n mode s)) = set_latency (co_now io 7) ms (lc_state b)" ..
    from walks_latency [OF this] sb show ?thesis using walks_trans by blast
  qed
qed

lemma walks_bring_up: "walks s (fst (bring_up js io n mode s))"
proof -
  obtain a r where a: "start_core js (co_start io) n s = (a, r)" by (metis prod.exhaust)
  then have sa: "walks s a" by (simp add: walks_same start_core_D)
  have abort: "walks s t \<Longrightarrow> walks s (abort_start js io e mode (Some n) (cleanup_partial (co_cleanup io) t))" for t e
    by (erule walks_trans) (rule walks_via [OF walks_abort [of "cleanup_partial (co_cleanup io) t" js io e mode "Some n"]]; simp)
  show ?thesis
  proof (cases r)
    case (Inl e)
    with a abort [OF sa] show ?thesis by (simp add: bring_up_def)
  next
    case (Inr u)
    define b where "b = (if tc_enabled (ac_tun (cm_app (lc_config a)))
      then a\<lparr>lc_tun := fst (tun_start (co_tun io) (ac_tun (cm_app (lc_config a))) (lc_tun a))\<rparr> else a)"
    obtain c q where c: "on_route (\<lambda>rt. set_system_proxy (lj_proxy js) (co_proxy io) rt
        (local_endpoint (cc_mixed_port (core_cfg b))) default_bypass) b = (c, q)" by (metis prod.exhaust)
    have "lc_state c = lc_state b" using on_route_state [of _ b] c by (metis fst_conv)
    then have sc: "walks s c" using sa by (simp add: walks_def b_def)
    show ?thesis
      by (cases q) (use a Inr c abort [OF sc] walks_trans [OF sc walks_finish [of c js io n mode]] in
          \<open>simp_all add: bring_up_def b_def [symmetric] Let_def\<close>)
  qed
qed

lemma walks_dial: "walks s (fst (dial js io n mode s))"
proof -
  obtain m r where m: "nodes_select (lc_nodes s) (nd_id n) = (m, r)" by (metis prod.exhaust)
  obtain e disk q where e: "set_mode (lj_rules js) (co_mode io) (lc_routing s, lc_disk s) mode = ((e, disk), q)"
    by (metis prod.exhaust)
  define a where "a = s\<lparr>lc_nodes := m, lc_routing := e, lc_disk := disk\<rparr>"
  obtain b r2 where b: "on_state (set_context (co_now io 3) Connecting (nd_id n) (nd_name n) (mode_str mode)) a = (b, r2)"
    by (metis prod.exhaust)
  have "walks s a" by (rule walks_same) (simp add: a_def)
  also have "walks a b" using walks_on_state [OF b walks_context] .
  finally have sb: "walks s b" .
  have "walks s (s\<lparr>lc_nodes := m\<rparr>)" "walks s a" by (simp_all add: walks_same a_def)
  then show ?thesis
    using m e b walks_trans [OF sb walks_abort] walks_trans [OF sb walks_bring_up]
    by (cases r; cases q; cases r2) (simp_all add: dial_def a_def)
qed

lemma walks_connect_locked: "walks s (fst (connect_locked js io pending node_id mode s))"
proof -
  obtain a r where a: "leave_current js io pending node_id mode s = (a, r)" by (metis prod.exhaust)
  from walks_leave [OF a] have sa: "walks s a" .
  obtain b q where b: "(if conn_state_of a \<noteq> Starting then on_state (transition (co_now io 2) Starting) a else (a, Inr ())) = (b, q)"
    by (metis prod.exhaust)
  then have "walks a b" using walks_transition [of a "co_now io 2" Starting] by (auto simp: walks_same split: if_splits)
  with sa have sb: "walks s b" by (rule walks_trans)
  show ?thesis
    using sa sb walks_trans [OF sb walks_dial] walks_trans [OF sb walks_abort]
    by (cases r; cases q; cases "nodes_get (lc_nodes b) node_id") (simp_all add: connect_locked_def a b Let_def)
qed

lemma walks_connect: "walks s (fst (connect js io pending node_id mode s))"
  unfolding connect_def by (rule walks_connect_locked)

lemma walks_disconnect: "walks s (fst (disconnect js io pending s))"
proof -
  obtain a r where a: "(if conn_state_of s \<noteq> Error then on_state (transition (di_now io 0) Stopping) s else (s, Inr ())) = (a, r)"
    by (metis prod.exhaust)
  then have sa: "walks s a" using walks_transition [of s "di_now io 0" Stopping] by (auto simp: walks_same split: if_splits)
  define b where "b = (let s = cleanup_partial (di_cleanup io) (stop_monitor js pending a)
    in (persist_runtime js (di_runtime io) (di_now io 1) Stopped None (parse_mode (ss_mode (lc_state s))) s)\<lparr>lc_active := None\<rparr>)"
  have "walks a b" by (rule walks_via [OF walks_stop_monitor]) (simp_all add: b_def Let_def)
  with sa have sb: "walks s b" by (rule walks_trans)
  have "walks s (fst (on_state (transition (di_now io 2) Stopped) b))" using walks_trans [OF sb walks_transition] .
  then show ?thesis using sa a
    by (cases r) (simp_all add: disconnect_def b_def Let_def walks_same)
qed

lemma walks_startup: "walks s (startup_recover js io s)"
proof -
  have restore: "walks s t \<Longrightarrow> walks s (persist_runtime js rio now st n mode (fst (on_route f t)))" for rio now st n mode f t
    by (erule walks_via) simp_all
  have resume: "connect_locked js (su_connect io) None i mode (fst (on_route f s)) = (t, r) \<Longrightarrow> walks s t" for i mode f t r
    using walks_connect_locked [of "fst (on_route f s)" js "su_connect io" None i mode] by (simp add: walks_def)
  have route: "walks s t \<Longrightarrow> walks s (fst (on_route f t))" for f t
    by (erule walks_via) simp_all
  show ?thesis
    by (auto simp: startup_recover_def Let_def walks_same intro!: restore route dest: resume
        split: option.split sum.split prod.split)
qed

section \<open>Runs\<close>

lemma lc_step_walks: "lc_step js (s, p) (t, q) \<Longrightarrow> walks s t"
  by (erule lc_stepE)
    (auto intro: walks_connect walks_disconnect walks_startup walks_recover_begin walks_recover_rest walks_same)

lemma lc_run_walks: "(lc_step js)\<^sup>*\<^sup>* (s, p) (t, q) \<Longrightarrow> walks s t"
proof (induction rule: rtranclp_induct2)
  case (step t q u r)
  with lc_step_walks walks_trans show ?case by blast
qed (simp add: walks_same)

lemma app_run_walks: "(app_step env)\<^sup>*\<^sup>* (s, p) (t, q) \<Longrightarrow> store_step\<^sup>*\<^sup>* (lc_state (ap_conn s)) (lc_state (ap_conn t))"
  using lc_run_walks [OF app_run_lc_run] by (simp add: walks_def)

end
