(* ===== verification/Service_Events.thy ===== *)
theory Service_Events
  imports Store_Walk
begin

text \<open>
  \<^verbatim>\<open>ipc/events.rs\<close> over the service: the events the managers emit with their types, as they reach
  the bus, and what a client that listens sees of the connection.  The encodings of the payloads
  and messages are arguments; what the broadcast channel gives a slow receiver is the documented
  behaviour of the channel.
\<close>

section \<open>Types\<close>

text \<open>The frozen surface, in the order of the module.\<close>

definition EVENT_TYPES :: "string list" where
  "EVENT_TYPES =
     [''connection.stateChanged'', ''node.latencyChanged'', ''node.healthChanged'', ''subscription.updated'',
      ''subscription.failed'', ''traffic.updated'', ''network.changed'', ''dns.changed'', ''core.started'',
      ''core.stopped'', ''core.error'', ''diagnostics.progress'', ''diagnostics.completed'']"

datatype service_event =
    State_changed conn_payload
  | Node_event node_event
  | Sub_event sub_event
  | Traffic_updated traffic_payload
  | Dns_changed
  | Core_event core_event
  | Diag_event diag_event

definition CONNECTION_STATE_CHANGED :: string where
  "CONNECTION_STATE_CHANGED = ''connection.stateChanged''"

fun event_type :: "service_event \<Rightarrow> string" where
  "event_type (State_changed _) = CONNECTION_STATE_CHANGED"
| "event_type (Node_event (NodeLatencyChanged _ _)) = ''node.latencyChanged''"
| "event_type (Node_event (NodeHealthChanged _ _)) = ''node.healthChanged''"
| "event_type (Sub_event (SubscriptionUpdated _ _ _)) = ''subscription.updated''"
| "event_type (Sub_event (SubscriptionFailed _ _ _)) = ''subscription.failed''"
| "event_type (Traffic_updated _) = ''traffic.updated''"
| "event_type Dns_changed = ''dns.changed''"
| "event_type (Core_event (CoreErrorEvent _)) = ''core.error''"
| "event_type (Core_event CoreStartedEvent) = ''core.started''"
| "event_type (Core_event CoreStoppedEvent) = ''core.stopped''"
| "event_type (Diag_event (DiagProgress _ _ _ _ _)) = ''diagnostics.progress''"
| "event_type (Diag_event (DiagCompleted _)) = ''diagnostics.completed''"

text \<open>The events sent without a payload.\<close>

definition is_empty_event :: "service_event \<Rightarrow> bool" where
  "is_empty_event e \<longleftrightarrow> e \<in> {Dns_changed, Core_event CoreStartedEvent, Core_event CoreStoppedEvent}"

definition publish :: "(service_event \<Rightarrow> u8 list option) \<Rightarrow> int \<times> service_event \<Rightarrow> event_bus \<Rightarrow> event_bus" where
  "publish enc te bus =
     (if is_empty_event (snd te) then emit_empty (fst te) (event_type (snd te)) bus
      else emit enc (fst te) (event_type (snd te)) (snd te) bus)"

definition sent_since :: "event_bus \<Rightarrow> event_bus \<Rightarrow> event_message list" where
  \<comment> \<open>what a receiver that subscribed at the first bus has to get\<close>
  "sent_since bus bus' = drop (length (eb_sent bus)) (eb_sent bus')"

text \<open>
  Every event has a type of the surface; the type \<^verbatim>\<open>network.changed\<close> belongs to no event.
\<close>

lemma event_types:
  "event_type e \<in> set EVENT_TYPES" "event_type e \<noteq> ''network.changed''"
  by (cases e rule: event_type.cases; simp add: EVENT_TYPES_def CONNECTION_STATE_CHANGED_def)+

lemma event_type_state_iff: "event_type e = CONNECTION_STATE_CHANGED \<longleftrightarrow> (\<exists>p. e = State_changed p)"
  by (cases e rule: event_type.cases; simp add: CONNECTION_STATE_CHANGED_def)

section \<open>What a client sees\<close>

text \<open>The client takes frames for replies or events, and keeps the states of the events.\<close>

fun shown_states ::
  "(u8 list \<Rightarrow> response + event_message) \<Rightarrow> (u8 list \<Rightarrow> conn_payload) \<Rightarrow> u8 list list \<Rightarrow> conn_payload list" where
  "shown_states dec dec_state [] = []"
| "shown_states dec dec_state (b # bs) =
     (case dec b of
        Inr m \<Rightarrow> (if em_type m = CONNECTION_STATE_CHANGED then [dec_state (em_payload m)] else [])
      | Inl _ \<Rightarrow> []) @ shown_states dec dec_state bs"

definition state_changes :: "(int \<times> service_event) list \<Rightarrow> conn_payload list" where
  "state_changes tes = concat (map (\<lambda>te. case snd te of State_changed p \<Rightarrow> [p] | _ \<Rightarrow> []) tes)"

fun legal_from :: "conn_state \<Rightarrow> conn_state list \<Rightarrow> bool" where
  "legal_from s [] \<longleftrightarrow> True"
| "legal_from s (t # ts) \<longleftrightarrow> (t = s \<or> can_transition s t \<or> t = Error) \<and> legal_from t ts"

text \<open>What the store emitted between two of its values, oldest first.\<close>

definition emitted :: "state_store \<Rightarrow> state_store \<Rightarrow> conn_payload list" where
  "emitted g0 g = rev (take (length (ss_bus g) - length (ss_bus g0)) (ss_bus g))"

definition shows_run :: "state_store \<Rightarrow> state_store \<Rightarrow> conn_payload list \<Rightarrow> bool" where
  "shows_run g0 g ps \<longleftrightarrow>
     legal_from (ss_state g0) (map (\<lambda>p. parse_state (cp_state p)) ps)
   \<and> (if ps = [] then g = g0 else \<exists>now. last ps = snapshot_payload now g)"

lemma store_step_emits: "store_step g g' \<Longrightarrow> g' = g \<or> (\<exists>now. ss_bus g' = snapshot_payload now g' # ss_bus g)"
  by (erule store_step.cases)
    (auto simp: transition_def set_context_def set_latency_def fail_state_def Let_def snapshot_payload_def emit_locked_def)

lemma legal_from_snoc:
  "legal_from s (ts @ [t]) \<longleftrightarrow>
     legal_from s ts \<and> (let u = (if ts = [] then s else last ts) in t = u \<or> can_transition u t \<or> t = Error)"
  by (induction ts arbitrary: s) auto

lemma store_run_shows:
  "store_step\<^sup>*\<^sup>* g0 g \<Longrightarrow> (\<exists>ps. ss_bus g = rev ps @ ss_bus g0 \<and> shows_run g0 g ps)"
proof (induction rule: rtranclp_induct)
  case base
  show ?case by (intro exI [of _ "[]"]) (simp add: shows_run_def)
next
  case (step g g')
  then obtain ps where ps: "ss_bus g = rev ps @ ss_bus g0" "shows_run g0 g ps" by blast
  from store_step_emits [OF step(2)] show ?case
  proof
    assume "g' = g"
    with ps show ?thesis by blast
  next
    assume "\<exists>now. ss_bus g' = snapshot_payload now g' # ss_bus g"
    then obtain now where e: "ss_bus g' = snapshot_payload now g' # ss_bus g" by blast
    have s: "(if ps = [] then ss_state g0 else last (map (\<lambda>p. parse_state (cp_state p)) ps)) = ss_state g"
      using ps(2) by (auto simp: shows_run_def last_map snapshot_payload_def split: if_splits)
    from store_step_edge [OF step(2)]
    have "ss_state g' = ss_state g \<or> can_transition (ss_state g) (ss_state g') \<or> ss_state g' = Error" by blast
    with s ps(2) have "shows_run g0 g' (ps @ [snapshot_payload now g'])"
      by (auto simp: shows_run_def legal_from_snoc Let_def snapshot_payload_def split: if_splits)
    moreover have "ss_bus g' = rev (ps @ [snapshot_payload now g']) @ ss_bus g0" using e ps(1) by simp
    ultimately show ?thesis by blast
  qed
qed

lemma emitted_shows: "store_step\<^sup>*\<^sup>* g0 g \<Longrightarrow> shows_run g0 g (emitted g0 g)"
  using store_run_shows [of g0 g] by (auto simp: emitted_def)

section \<open>From the store to the client\<close>

definition messages_of :: "(service_event \<Rightarrow> u8 list option) \<Rightarrow> int \<times> service_event \<Rightarrow> event_message list" where
  "messages_of enc te =
     (if is_empty_event (snd te) then [\<lparr>em_type = event_type (snd te), em_payload = [], em_timestamp = fst te\<rparr>]
      else case enc (snd te) of
        None \<Rightarrow> []
      | Some b \<Rightarrow> [\<lparr>em_type = event_type (snd te), em_payload = b, em_timestamp = fst te\<rparr>])"

lemma publish_sent: "eb_sent (publish enc te bus) = eb_sent bus @ messages_of enc te"
  by (simp add: publish_def messages_of_def emit_empty_def emit_def emit_raw_def split: option.split)

lemma fold_publish_sent: "eb_sent (fold (publish enc) tes bus) = eb_sent bus @ concat (map (messages_of enc) tes)"
  by (induction tes arbitrary: bus) (simp_all add: publish_sent)

lemma sent_since_publish [simp]: "sent_since bus (fold (publish enc) tes bus) = concat (map (messages_of enc) tes)"
  by (simp add: sent_since_def fold_publish_sent)

lemma shown_states_append [simp]: "shown_states dec ds (xs @ ys) = shown_states dec ds xs @ shown_states dec ds ys"
  by (induction xs) simp_all

text \<open>Replies are never taken for events, so the mixing of the queue does not matter.\<close>

lemma shown_states_shuffles:
  assumes "\<forall>r \<in> set replies. dec (enc_reply r) = Inl r"
  shows "bodies \<in> shuffles (map enc_reply replies) es \<Longrightarrow> shown_states dec ds bodies = shown_states dec ds es"
  using assms
proof (induction "map enc_reply replies" es arbitrary: bodies replies rule: shuffles.induct)
  case (1 ys)
  then show ?case by simp
next
  case (2 xs)
  have "\<forall>r \<in> set rs. dec (enc_reply r) = Inl r \<Longrightarrow> shown_states dec ds (map enc_reply rs) = []" for rs
    by (induction rs) simp_all
  with 2 show ?case by simp
next
  case (3 x xs y ys)
  then obtain r rs where r: "replies = r # rs" "x = enc_reply r" "xs = map enc_reply rs" by (cases replies) auto
  have "bodies \<in> shuffles (x # xs) (y # ys)" using 3(3,4) by (simp only:)
  then consider b where "bodies = x # b" "b \<in> shuffles xs (y # ys)" | b where "bodies = y # b" "b \<in> shuffles (x # xs) ys"
    by auto
  then show ?case
  proof cases
    case 1
    then show ?thesis using 3(1) [of rs b] 3(5) r by simp
  next
    case 2
    then show ?thesis using 3(2) [of replies b] 3(5) r by simp
  qed
qed

lemma shown_messages:
  assumes "\<forall>m \<in> set (messages_of enc te). dec (enc_event m) = Inr m"
    and "\<forall>p. snd te = State_changed p \<longrightarrow> (\<exists>b. enc (State_changed p) = Some b \<and> ds b = p)"
  shows "shown_states dec ds (map enc_event (messages_of enc te)) =
    (case snd te of State_changed p \<Rightarrow> [p] | _ \<Rightarrow> [])"
proof (cases "\<exists>p. snd te = State_changed p")
  case True
  then obtain p where p: "snd te = State_changed p" by blast
  with assms(2) obtain b where "enc (State_changed p) = Some b" "ds b = p" by blast
  with p assms(1) show ?thesis by (simp add: messages_of_def is_empty_event_def CONNECTION_STATE_CHANGED_def)
next
  case False
  then have "event_type (snd te) \<noteq> CONNECTION_STATE_CHANGED" by (simp add: event_type_state_iff)
  with assms(1) have "shown_states dec ds (map enc_event (messages_of enc te)) = []"
    by (auto simp: messages_of_def split: option.splits if_splits)
  with False show ?thesis by (cases "snd te") auto
qed

lemma shown_published:
  "\<forall>m \<in> set (concat (map (messages_of enc) tes)). dec (enc_event m) = Inr m \<Longrightarrow>
   \<forall>p \<in> set (state_changes tes). \<exists>b. enc (State_changed p) = Some b \<and> ds b = p \<Longrightarrow>
     shown_states dec ds (map enc_event (concat (map (messages_of enc) tes))) = state_changes tes"
proof (induction tes)
  case (Cons te tes)
  have p: "\<forall>p. snd te = State_changed p \<longrightarrow> (\<exists>b. enc (State_changed p) = Some b \<and> ds b = p)"
    using Cons(3) by (auto simp: state_changes_def)
  from Cons have "shown_states dec ds (map enc_event (concat (map (messages_of enc) tes))) = state_changes tes"
    by (simp add: state_changes_def)
  moreover have "shown_states dec ds (map enc_event (messages_of enc te)) = (case snd te of State_changed p \<Rightarrow> [p] | _ \<Rightarrow> [])"
    using Cons(2) by (intro shown_messages p) simp
  ultimately show ?case by (simp add: state_changes_def)
qed (simp add: state_changes_def)

lemma delivered_received [simp]: "delivered (map Received ms) = ms"
  by (induction ms) simp_all

text \<open>
  C8. A client that keeps up watches the connection truthfully.  Along every run of the service,
  with requests of any kind, recoveries, boots and the tasks of the other managers, let the bus
  carry the changes of the state in order, between events of all the others.  What the client
  reads from the pipe, replies and events mixed in any way, shows a sequence of states that
  starts at the state it subscribed in and moves only along the transition table or into the
  error state; and the last payload shown is the connection as it is now, or nothing has changed.
\<close>

theorem client_watches_the_store:
  assumes "(app_step env)\<^sup>*\<^sup>* (s, p) (t, q)"
    and "state_changes tes = emitted (lc_state (ap_conn s)) (lc_state (ap_conn t))"
    and "\<forall>pl \<in> set (state_changes tes). \<exists>b. enc (State_changed pl) = Some b \<and> dec_state b = pl"
    and "\<forall>r \<in> set replies. dec (enc_reply r) = Inl r"
    and "\<forall>m \<in> set (sent_since bus (fold (publish enc) tes bus)). dec (enc_event m) = Inr m"
    and "queue \<in> shuffles (map (wrap enc_reply) replies)
           (forward_events enc_event shut 0 (map Received (sent_since bus (fold (publish enc) tes bus))))"
    and "\<And>k. \<not> shut k" "\<And>k. broken k = None"
    and "\<forall>r \<in> set replies. sendable (enc_reply r)"
    and "\<forall>m \<in> set (sent_since bus (fold (publish enc) tes bus)). sendable (enc_event m)"
  shows "\<exists>bodies. read_frames (length queue) (writer_loop broken 0 queue) = (Inr bodies, [])
    \<and> shows_run (lc_state (ap_conn s)) (lc_state (ap_conn t)) (shown_states dec dec_state bodies)"
proof -
  let ?sent = "sent_since bus (fold (publish enc) tes bus)"
  from assms(6) shuffles_frames obtain bodies where
    q: "queue = map frame bodies" and b: "bodies \<in> shuffles (map enc_reply replies) (map enc_event ?sent)"
    unfolding forward_events_open [OF assms(7)] delivered_received by metis
  have "\<forall>x \<in> set bodies. sendable x" using set_shuffles [OF b] assms(9,10) by auto
  with read_frames_concat [of bodies "[]"] have "read_frames (length bodies) (concat (map frame bodies)) = (Inr bodies, [])" by simp
  with q have r: "read_frames (length queue) (writer_loop broken 0 queue) = (Inr bodies, [])"
    unfolding writer_loop_concat [OF assms(8)] by simp
  have "shown_states dec dec_state bodies = emitted (lc_state (ap_conn s)) (lc_state (ap_conn t))"
    unfolding shown_states_shuffles [OF assms(4) b] using shown_published [of enc tes dec enc_event dec_state] assms(2,3,5) by simp
  with r emitted_shows [OF app_run_walks [OF assms(1)]] show ?thesis by auto
qed

section \<open>A slow client\<close>

text \<open>
  The channel as documented: a receiver gets the messages in order; when more than the capacity
  wait for it, it is told how many it lost and goes on with the oldest one kept.
\<close>

inductive receives :: "nat \<Rightarrow> event_message list \<Rightarrow> received list \<Rightarrow> bool" for capacity where
  caught_up: "receives capacity [] []"
| next_message: "receives capacity ms rs \<Longrightarrow> receives capacity (m # ms) (Received m # rs)"
| overtaken: "0 < n \<Longrightarrow> n + capacity \<le> length ms \<Longrightarrow> receives capacity (drop n ms) rs
    \<Longrightarrow> receives capacity ms (Lagged n # rs)"

lemma receives_all: "receives capacity ms (map Received ms)"
  by (induction ms) (auto intro: receives.intros)

lemma receives_newest:
  "receives capacity ms rs \<Longrightarrow> 0 < capacity \<Longrightarrow> ms \<noteq> [] \<Longrightarrow> delivered rs \<noteq> [] \<and> last (delivered rs) = last ms"
proof (induction rule: receives.induct)
  case (next_message ms rs m)
  then show ?case by (cases "ms = []") (auto elim: receives.cases)
next
  case (overtaken n ms rs)
  then have "drop n ms \<noteq> []" by simp
  with overtaken show ?case by (simp add: last_drop)
qed simp

text \<open>
  A lagging client goes on listening, and the service repeats nothing: as many other messages as
  the channel holds, sent after a change of the state, take the change from it, and what it then
  shows is out of date until the next change.
\<close>

lemma lag_hides_last_state:
  assumes "0 < length rest" "\<And>m. m \<in> set rest \<Longrightarrow> em_type m \<noteq> CONNECTION_STATE_CHANGED" "\<And>m. dec (enc_event m) = Inr m"
  shows "receives (length rest) (change # rest) (Lagged 1 # map Received rest)"
    and "shown_states dec ds (map enc_event (delivered (Lagged 1 # map Received rest))) = []"
proof -
  show "receives (length rest) (change # rest) (Lagged 1 # map Received rest)"
    by (rule overtaken) (simp_all add: receives_all)
  have "shown_states dec ds (map enc_event ms) = []" if "set ms \<subseteq> set rest" for ms
    using that by (induction ms) (auto simp: assms(2,3))
  then show "shown_states dec ds (map enc_event (delivered (Lagged 1 # map Received rest))) = []" by simp
qed

section \<open>A client at work\<close>

text \<open>A connect to a node that does not exist, while the DNS settings change.\<close>

definition demo_wrong :: "unit app" where
  "demo_wrong = demo_app\<lparr>ap_conn := fst (connect demo_js demo_connect (pending_of undefined None) ''x'' ''smart'' demo_manager)\<rparr>"

definition demo_starting :: state_store where
  "demo_starting = snd (transition 2 Starting new_store)"

definition demo_failed :: state_store where
  "demo_failed = fail_state 8 Error (err_code_str (NodeNotFound ''x'')) (err_display (NodeNotFound ''x'')) demo_starting"

definition demo_reply :: response where
  "demo_reply = \<lparr>rs_id = ''q'', rs_code = 0, rs_message = ''ok'', rs_payload = []\<rparr>"

definition demo_events :: "(int \<times> service_event) list" where
  "demo_events = [(2, State_changed (snapshot_payload 2 demo_starting)), (4, Dns_changed),
     (8, State_changed (snapshot_payload 8 demo_failed))]"

definition demo_encode :: "service_event \<Rightarrow> u8 list option" where
  "demo_encode e =
     (case e of State_changed pl \<Rightarrow> Some (if cp_state pl = ''STARTING'' then [1] else [2]) | _ \<Rightarrow> None)"

definition demo_state_of :: "u8 list \<Rightarrow> conn_payload" where
  "demo_state_of b = (if b = [1] then snapshot_payload 2 demo_starting else snapshot_payload 8 demo_failed)"

definition demo_messages :: "event_message list" where
  "demo_messages =
     [\<lparr>em_type = ''connection.stateChanged'', em_payload = [1], em_timestamp = 2\<rparr>,
      \<lparr>em_type = ''dns.changed'', em_payload = [], em_timestamp = 4\<rparr>,
      \<lparr>em_type = ''connection.stateChanged'', em_payload = [2], em_timestamp = 8\<rparr>]"

definition demo_frame :: "event_message \<Rightarrow> u8 list" where
  "demo_frame m = (if em_timestamp m = 2 then [1] else if em_timestamp m = 4 then [2] else [3])"

definition demo_decode :: "u8 list \<Rightarrow> response + event_message" where
  "demo_decode b =
     (if b = [0] then Inl demo_reply
      else Inr (demo_messages ! (if b = [1] then 0 else if b = [2] then 1 else 2)))"

lemma demo_wrong_state: "lc_state (ap_conn demo_wrong) = demo_failed"
proof -
  have n: "co_now demo_connect = int" by (simp add: demo_connect_def)
  have "nodes_get (lc_nodes demo_manager) ''x'' = Inl (NodeNotFound ''x'')" by (simp add: nodes_get_def demo_manager_def)
  moreover have "lc_state demo_manager = new_store" by (simp add: demo_manager_def)
  ultimately show ?thesis
    by (simp add: demo_wrong_def connect_def connect_locked_def leave_current_def on_state_def transition_def new_store_def
        abort_start_def n demo_failed_def demo_starting_def emit_locked_def snapshot_payload_def Let_def)
qed

lemma demo_stores:
  "ss_bus demo_failed = [snapshot_payload 8 demo_failed, snapshot_payload 2 demo_starting]"
  "cp_state (snapshot_payload 2 demo_starting) = ''STARTING''" "cp_state (snapshot_payload 8 demo_failed) = ''ERROR''"
  by (simp_all add: demo_failed_def fail_state_def demo_starting_def transition_def new_store_def Let_def emit_locked_def
      snapshot_payload_def)

theorem client_watches_the_store_witness:
  "\<exists>bodies. read_frames 4 (writer_loop (\<lambda>_. None) 0
        [wrap demo_frame (demo_messages ! 0), wrap (\<lambda>_. [0]) demo_reply, wrap demo_frame (demo_messages ! 1),
         wrap demo_frame (demo_messages ! 2)]) = (Inr bodies, [])
    \<and> shows_run new_store demo_failed (shown_states demo_decode demo_state_of bodies)"
proof -
  have "lc_step demo_js (demo_manager, None) (ap_conn demo_wrong, None)" by (simp add: demo_wrong_def do_connect)
  then have "app_step demo_service (demo_app, None) (demo_app\<lparr>ap_conn := ap_conn demo_wrong\<rparr>, None)"
    by (intro background) (simp add: demo_app_def demo_service_def)
  moreover have "demo_app\<lparr>ap_conn := ap_conn demo_wrong\<rparr> = demo_wrong" by (simp add: demo_wrong_def)
  ultimately have run: "(app_step demo_service)\<^sup>*\<^sup>* (demo_app, None) (demo_wrong, None)" by auto
  have start: "lc_state (ap_conn demo_app) = new_store" by (simp add: demo_app_def demo_manager_def)
  have changes: "state_changes demo_events = [snapshot_payload 2 demo_starting, snapshot_payload 8 demo_failed]"
    by (simp add: demo_events_def state_changes_def)
  have "emitted new_store demo_failed = [snapshot_payload 2 demo_starting, snapshot_payload 8 demo_failed]"
    by (simp add: emitted_def demo_stores) (simp add: new_store_def)
  moreover have sent: "sent_since (event_bus_new 256) (fold (publish demo_encode) demo_events (event_bus_new 256)) = demo_messages"
    unfolding sent_since_publish
    by (simp add: demo_events_def messages_of_def demo_encode_def demo_stores is_empty_event_def CONNECTION_STATE_CHANGED_def
        demo_messages_def)
  have decodes: "\<forall>m \<in> set demo_messages. demo_decode (demo_frame m) = Inr m \<and> sendable (demo_frame m)"
    by (simp add: demo_messages_def demo_decode_def demo_frame_def sendable_def MAX_FRAME_def)
  have "[wrap demo_frame (demo_messages ! 0), wrap (\<lambda>_. [0]) demo_reply, wrap demo_frame (demo_messages ! 1),
         wrap demo_frame (demo_messages ! 2)]
      \<in> shuffles (map (wrap (\<lambda>_. [0])) [demo_reply])
          (forward_events demo_frame (\<lambda>_. False) 0 (map Received demo_messages))"
    by (simp add: demo_messages_def)
  moreover have four: "(4 :: nat) = Suc (Suc (Suc (Suc 0)))" by simp
  ultimately show ?thesis
    using client_watches_the_store [OF run, unfolded start demo_wrong_state, where tes = demo_events and enc = demo_encode
        and dec = demo_decode and dec_state = demo_state_of and replies = "[demo_reply]" and enc_reply = "\<lambda>_. [0]"
        and enc_event = demo_frame and bus = "event_bus_new 256" and shut = "\<lambda>_. False" and broken = "\<lambda>_. None"
        and queue = "[wrap demo_frame (demo_messages ! 0), wrap (\<lambda>_. [0]) demo_reply, wrap demo_frame (demo_messages ! 1),
         wrap demo_frame (demo_messages ! 2)]", unfolded changes sent]
      decodes
    by (simp add: demo_encode_def demo_stores demo_state_of_def demo_decode_def sendable_def MAX_FRAME_def four)
qed

end
