(* ===== verification/Tun_Driver.thy ===== *)
theory Tun_Driver
  imports Tun_Manager Json
begin

text \<open>
  \<^verbatim>\<open>tun/adapter.rs\<close>: the calls into the adapter driver, and \<^verbatim>\<open>route/table.rs\<close>: the route
  commands.  The library, its functions and the commands answer through arguments; the calls
  that are made are kept in order, so that the handles held can be counted.
\<close>

section \<open>Wide strings\<close>

definition code_point :: "nat list \<Rightarrow> nat" where
  "code_point bs =
     (case bs of
        [a, b] \<Rightarrow> (a - 192) * 64 + (b - 128)
      | [a, b, c] \<Rightarrow> (a - 224) * 4096 + (b - 128) * 64 + (c - 128)
      | [a, b, c, d] \<Rightarrow> (a - 240) * 262144 + (b - 128) * 4096 + (c - 128) * 64 + (d - 128)
      | _ \<Rightarrow> hd bs)"

definition utf16_units :: "nat \<Rightarrow> u16 list" where
  "utf16_units p =
     (if p < 65536 then [of_nat p]
      else [of_nat (55296 + (p - 65536) div 1024), of_nat (56320 + (p - 65536) mod 1024)])"

function utf16 :: "nat list \<Rightarrow> u16 list" where
  "utf16 bs =
     (if bs = [] then []
      else (let n = max 1 (snd (utf8_step bs)) in utf16_units (code_point (take n bs)) @ utf16 (drop n bs)))"
  by pat_completeness auto
termination
  by (relation "measure length") auto

declare utf16.simps [simp del]

definition wide :: "string \<Rightarrow> u16 list" where
  "wide name = utf16 (map of_char name) @ [0]"

lemma utf16_ascii: "\<forall>b \<in> set bs. b < 128 \<Longrightarrow> utf16 bs = map of_nat bs"
proof (induction bs)
  case Nil
  then show ?case by (simp add: utf16.simps)
next
  case (Cons b bs)
  then show ?case by (simp add: utf16.simps [of "b # bs"] utf8_step_def code_point_def utf16_units_def)
qed

section \<open>The library\<close>

definition WINTUN_SYMBOLS :: "string list" where
  "WINTUN_SYMBOLS = [''WintunCreateAdapter'', ''WintunOpenAdapter'', ''WintunCloseAdapter'', ''WintunStartSession'',
     ''WintunEndSession'', ''WintunGetRunningDriverVersion'']"

text \<open>What the loader answers: an error for the library, and for a symbol that is missing.\<close>

record library_io =
  li_open :: "string option"
  li_symbol :: "string \<Rightarrow> string option"

definition resolve_symbol :: "library_io \<Rightarrow> string \<Rightarrow> svc_error + unit" where
  "resolve_symbol io name =
     (case li_symbol io name of
        None \<Rightarrow> Inr ()
      | Some e \<Rightarrow> Inl (Tun (''missing wintun symbol '' @ name @ '': '' @ e)))"

fun resolve_all :: "library_io \<Rightarrow> string list \<Rightarrow> svc_error + unit" where
  "resolve_all io [] = Inr ()"
| "resolve_all io (n # ns) = (case resolve_symbol io n of Inl e \<Rightarrow> Inl e | Inr _ \<Rightarrow> resolve_all io ns)"

definition wintun_load :: "library_io \<Rightarrow> string \<Rightarrow> svc_error + unit" where
  "wintun_load io dir =
     (case li_open io of
        Some e \<Rightarrow> Inl (Tun (''failed to load '' @ path_join dir ''wintun.dll'' @ '' (TUN mode unavailable): '' @ e))
      | None \<Rightarrow> resolve_all io WINTUN_SYMBOLS)"

section \<open>The adapter\<close>

text \<open>Handles are numbers; a null handle is \<open>None\<close>.\<close>

record driver =
  dv_open :: "u16 list \<Rightarrow> nat option"
  dv_create :: "u16 list \<Rightarrow> u16 list \<Rightarrow> nat option"
  dv_session :: "nat \<Rightarrow> u32 \<Rightarrow> nat option"
  dv_error :: "int option"

datatype driver_call =
    Open_adapter "u16 list" "nat option"
  | Create_adapter "u16 list" "u16 list" "nat option"
  | Start_session nat u32 "nat option"
  | End_session nat
  | Close_adapter nat

record adapter_handle =
  ah_handle :: "nat option"
  ah_session :: "nat option"

definition RING_CAPACITY :: u32 where "RING_CAPACITY = 0x00400000"

definition wintun_start :: "driver \<Rightarrow> string \<Rightarrow> driver_call list \<times> (svc_error + adapter_handle)" where
  "wintun_start dv name =
     (let wname = wide name;
          opened = dv_open dv wname;
          calls = [Open_adapter wname opened];
          (adapter, calls) =
            (case opened of
               Some a \<Rightarrow> (Some a, calls)
             | None \<Rightarrow>
                 (let wtype = wide ''NetworkClient''; made = dv_create dv wname wtype
                  in (made, calls @ [Create_adapter wname wtype made])))
      in case adapter of
           None \<Rightarrow>
             (calls, Inl (Tun (''WintunCreateAdapter(\"'' @ name @ ''\") failed (code ''
                @ int_str (case dv_error dv of Some c \<Rightarrow> c | None \<Rightarrow> - 1) @ '')'')))
         | Some a \<Rightarrow>
             (let session = dv_session dv a RING_CAPACITY;
                  calls = calls @ [Start_session a RING_CAPACITY session]
              in case session of
                   None \<Rightarrow> (calls @ [Close_adapter a], Inl (Tun ''WintunStartSession failed''))
                 | Some s \<Rightarrow> (calls, Inr \<lparr>ah_handle = Some a, ah_session = Some s\<rparr>)))"

definition drop_handle :: "adapter_handle \<Rightarrow> driver_call list" where
  "drop_handle h =
     (case ah_session h of Some s \<Rightarrow> [End_session s] | None \<Rightarrow> [])
     @ (case ah_handle h of Some a \<Rightarrow> [Close_adapter a] | None \<Rightarrow> [])"

section \<open>Routes and addresses\<close>

text \<open>The command could not run, or it exited: whether with success, and its error output.\<close>

datatype command = Not_run string | Exited bool "u8 list"

fun str_join :: "string \<Rightarrow> string list \<Rightarrow> string" where
  "str_join sep [] = []"
| "str_join sep [x] = x"
| "str_join sep (x # y # r) = x @ sep @ str_join sep (y # r)"

definition run_route :: "(string list \<Rightarrow> command) \<Rightarrow> string list \<Rightarrow> svc_error + unit" where
  "run_route route args =
     (case route args of
        Not_run e \<Rightarrow> Inl (Io e)
      | Exited ok err \<Rightarrow>
          if \<not> ok then Inl (Route (''route '' @ str_join '' '' args @ '': '' @ trim (utf8_lossy err)))
          else Inr ())"

definition pin_host_via_gateway :: "(string list \<Rightarrow> command) \<Rightarrow> string \<Rightarrow> string \<Rightarrow> svc_error + unit" where
  "pin_host_via_gateway route host gateway = run_route route [''add'', host, ''mask'', ''255.255.255.255'', gateway]"

definition unpin_host :: "(string list \<Rightarrow> command) \<Rightarrow> string \<Rightarrow> svc_error + unit" where
  "unpin_host route host =
     (case run_route route [''delete'', host] of Inr _ \<Rightarrow> Inr () | Inl _ \<Rightarrow> Inr ())"

definition run_netsh :: "(string list \<Rightarrow> command) \<Rightarrow> string list \<Rightarrow> svc_error + unit" where
  \<comment> \<open>the address commands of \<^verbatim>\<open>tun/manager.rs\<close>\<close>
  "run_netsh netsh args =
     (case netsh args of
        Not_run e \<Rightarrow> Inl (Io e)
      | Exited ok err \<Rightarrow>
          if \<not> ok then Inl (Route (''netsh '' @ str_join '' '' args @ '' failed: '' @ trim (utf8_lossy err)))
          else Inr ())"

section \<open>The manager over the driver\<close>

text \<open>
  The start and stop of \<^verbatim>\<open>tun/manager.rs\<close> with the handle they keep, and the calls they make; a
  handle that is taken out is dropped.
\<close>

type_synonym adapter_state = "tun_manager \<times> adapter_handle option"

definition adapter_start ::
  "tun_io \<Rightarrow> tun_config \<Rightarrow> driver \<Rightarrow> adapter_state \<Rightarrow> (adapter_state \<times> driver_call list) \<times> (svc_error + unit)" where
  "adapter_start io cfg dv s =
     (case s of (t, h) \<Rightarrow>
        if tm_adapter t then ((s, []), Inl (AlreadyRunning ''tun adapter''))
        else case ensure_loaded io t of
               (t, Inl e) \<Rightarrow> (((t, h), []), Inl e)
             | (t, Inr _) \<Rightarrow>
                 (case wintun_start dv (tc_name cfg) of
                    (calls, Inl e) \<Rightarrow> (((t, h), calls), Inl e)
                  | (calls, Inr handle) \<Rightarrow>
                      (case assign_address io cfg of
                         Inl e \<Rightarrow> (((t\<lparr>tm_adapter := False\<rparr>, None), calls @ drop_handle handle), Inl e)
                       | Inr _ \<Rightarrow> (((t\<lparr>tm_adapter := True\<rparr>, Some handle), calls), Inr ()))))"

definition adapter_stop :: "adapter_state \<Rightarrow> adapter_state \<times> driver_call list" where
  "adapter_stop s =
     (case s of (t, h) \<Rightarrow> ((tun_stop t, None), case h of Some handle \<Rightarrow> drop_handle handle | None \<Rightarrow> []))"

text \<open>Without the calls, this is the manager with the answer of the driver as its argument.\<close>

definition driver_io :: "driver \<Rightarrow> tun_config \<Rightarrow> tun_io \<Rightarrow> tun_io" where
  "driver_io dv cfg io = io\<lparr>ti_start := map_sum id (\<lambda>_. ()) (snd (wintun_start dv (tc_name cfg)))\<rparr>"

lemma adapter_start_tun_start:
  "(fst (fst (fst (adapter_start io cfg dv (t, h)))), snd (adapter_start io cfg dv (t, h))) = tun_start (driver_io dv cfg io) cfg t"
proof -
  have fields: "ti_netsh (driver_io dv cfg io) = ti_netsh io" "ti_loads (driver_io dv cfg io) = ti_loads io"
    by (simp_all add: driver_io_def)
  have "ensure_loaded (driver_io dv cfg io) t = ensure_loaded io t" "assign_address (driver_io dv cfg io) cfg = assign_address io cfg"
    unfolding assign_address_def ensure_loaded_def by (simp_all only: fields)
  note same = this
  obtain t2 r where t2: "ensure_loaded io t = (t2, r)" by force
  obtain cs r2 where w: "wintun_start dv (tc_name cfg) = (cs, r2)" by force
  have start: "ti_start (driver_io dv cfg io) = map_sum id (\<lambda>_. ()) r2" by (simp add: driver_io_def w)
  show ?thesis
    by (cases r; cases r2; cases "assign_address io cfg")
      (simp_all add: adapter_start_def tun_start_def same t2 w start Let_def)
qed

section \<open>Handles held\<close>

text \<open>
  The open adapters and the running sessions with their adapters; \<open>None\<close> when a call breaks
  the rules of the driver: a session needs an open adapter, and an adapter may be closed only
  when none of its sessions runs.
\<close>

fun ledger_call :: "driver_call \<Rightarrow> nat list \<times> (nat \<times> nat) list \<Rightarrow> (nat list \<times> (nat \<times> nat) list) option" where
  "ledger_call (Open_adapter _ (Some a)) (as, ss) = Some (a # as, ss)"
| "ledger_call (Open_adapter _ None) held = Some held"
| "ledger_call (Create_adapter _ _ (Some a)) (as, ss) = Some (a # as, ss)"
| "ledger_call (Create_adapter _ _ None) held = Some held"
| "ledger_call (Start_session a _ r) (as, ss) =
     (if a \<notin> set as then None else Some (as, case r of Some s \<Rightarrow> (s, a) # ss | None \<Rightarrow> ss))"
| "ledger_call (End_session s) (as, ss) =
     (if s \<notin> fst ` set ss then None else Some (as, filter (\<lambda>p. fst p \<noteq> s) ss))"
| "ledger_call (Close_adapter a) (as, ss) =
     (if a \<notin> set as \<or> a \<in> snd ` set ss then None else Some (remove1 a as, ss))"

fun ledger :: "driver_call list \<Rightarrow> nat list \<times> (nat \<times> nat) list \<Rightarrow> (nat list \<times> (nat \<times> nat) list) option" where
  "ledger [] held = Some held"
| "ledger (c # cs) held = Option.bind (ledger_call c held) (ledger cs)"

lemma ledger_append: "ledger (xs @ ys) held = Option.bind (ledger xs held) (ledger ys)"
  by (induction xs arbitrary: held) (auto simp: bind_assoc split: Option.bind_split)

definition holds :: "adapter_handle option \<Rightarrow> nat list \<times> (nat \<times> nat) list \<Rightarrow> bool" where
  \<comment> \<open>what a handle stands for\<close>
  "holds h held \<longleftrightarrow>
     (case h of
        None \<Rightarrow> held = ([], [])
      | Some handle \<Rightarrow> \<exists>a s. handle = \<lparr>ah_handle = Some a, ah_session = Some s\<rparr> \<and> held = ([a], [(s, a)]))"

lemma holds_None [simp]: "holds None held \<longleftrightarrow> held = ([], [])"
  by (simp add: holds_def)

lemma wintun_start_ledger:
  assumes "wintun_start dv name = (calls, r)"
  shows "\<exists>held. ledger calls ([], []) = Some held \<and> holds (case r of Inr h \<Rightarrow> Some h | Inl _ \<Rightarrow> None) held"
  using assms by (auto simp: wintun_start_def holds_def Let_def split: option.splits)

lemma drop_handle_ledger: "holds (Some h) held \<Longrightarrow> ledger (drop_handle h) held = Some ([], [])"
  by (auto simp: holds_def drop_handle_def)

datatype adapter_op = Adapter_start tun_io tun_config driver | Adapter_stop

fun adapter_do :: "adapter_op \<Rightarrow> adapter_state \<times> driver_call list \<Rightarrow> adapter_state \<times> driver_call list" where
  "adapter_do (Adapter_start io cfg dv) (s, calls) =
     (case adapter_start io cfg dv s of ((s, next_calls), _) \<Rightarrow> (s, calls @ next_calls))"
| "adapter_do Adapter_stop (s, calls) = (case adapter_stop s of (s, next_calls) \<Rightarrow> (s, calls @ next_calls))"

definition balanced :: "adapter_state \<times> driver_call list \<Rightarrow> bool" where
  "balanced x \<longleftrightarrow>
     (tm_adapter (fst (fst x)) \<longleftrightarrow> snd (fst x) \<noteq> None)
     \<and> (\<exists>held. ledger (snd x) ([], []) = Some held \<and> holds (snd (fst x)) held)"

lemma ensure_loaded_adapter: "tm_adapter (fst (ensure_loaded io t)) = tm_adapter t"
  by (simp add: ensure_loaded_def split: sum.split)

lemma balanced_stop: "balanced (s, calls) \<Longrightarrow> balanced (adapter_do Adapter_stop (s, calls))"
  by (cases s; cases "snd s")
    (auto simp: balanced_def adapter_stop_def tun_stop_def ledger_append drop_handle_ledger)

lemma balanced_start:
  assumes "balanced ((t, h), calls)"
  shows "balanced (adapter_do (Adapter_start io cfg dv) ((t, h), calls))"
proof (cases "tm_adapter t")
  case True
  with assms show ?thesis by (simp add: adapter_start_def)
next
  case False
  with assms have h: "h = None" and l: "ledger calls ([], []) = Some ([], [])" by (auto simp: balanced_def holds_def)
  obtain t2 r where t2: "ensure_loaded io t = (t2, r)" by force
  with False ensure_loaded_adapter [of io t] have a: "\<not> tm_adapter t2" by simp
  obtain next_calls r2 where w: "wintun_start dv (tc_name cfg) = (next_calls, r2)" by force
  from wintun_start_ledger [OF this] obtain held where
    held: "ledger next_calls ([], []) = Some held" "holds (case r2 of Inr h \<Rightarrow> Some h | Inl _ \<Rightarrow> None) held" by blast
  show ?thesis
    using False a h l held
    by (cases r; cases r2; cases "assign_address io cfg")
      (auto simp: adapter_start_def t2 w balanced_def ledger_append drop_handle_ledger)
qed

text \<open>
  C36. No handle of the adapter driver leaks.  Along every sequence of starts and stops of the
  virtual adapter, whatever the library, the driver and the address commands answer, each
  call is allowed when it is made; and at each point exactly one adapter with one session is
  open when the manager reports the adapter up, and none otherwise, so a failed start closes
  what it opened.
\<close>

theorem adapter_handles_exact:
  assumes "((t, h), calls) = fold adapter_do ops ((tun_new, None), [])"
  shows "(tm_adapter t \<longleftrightarrow> h \<noteq> None)
    \<and> (\<exists>adapters sessions. ledger calls ([], []) = Some (adapters, sessions)
         \<and> length adapters = (if tm_adapter t then 1 else 0) \<and> map snd sessions = adapters)"
proof -
  have "balanced (fold adapter_do ops x)" if "balanced x" for x
    using that
  proof (induction ops arbitrary: x)
    case (Cons op ops)
    obtain t h calls where x: "x = ((t, h), calls)" by (metis prod.exhaust)
    with Cons.prems have "balanced (adapter_do op x)"
      by (cases op) (simp_all add: balanced_start balanced_stop del: adapter_do.simps)
    with Cons.IH show ?case by simp
  qed simp
  moreover have "balanced ((tun_new, None), [])" by (simp add: balanced_def tun_new_def)
  ultimately have "balanced ((t, h), calls)" using assms by simp
  then show ?thesis by (cases h) (auto simp: balanced_def holds_def)
qed

definition demo_driver :: driver where
  "demo_driver = \<lparr>dv_open = (\<lambda>_. None), dv_create = (\<lambda>_ _. Some 3), dv_session = (\<lambda>_ _. Some 4), dv_error = None\<rparr>"

definition demo_tun_io :: tun_io where
  \<comment> \<open>a library that loads, and address commands that are refused\<close>
  "demo_tun_io = \<lparr>ti_loads = [Inr ()], ti_start = Inr (), ti_netsh = (\<lambda>_. Inl (Tun ''elevation''))\<rparr>"

theorem adapter_handles_exact_witness:
  "ledger (snd (fold adapter_do [Adapter_start demo_tun_io tun_config_default demo_driver] ((tun_new, None), []))) ([], [])
     = Some ([], [])"
proof -
  let ?r = "fold adapter_do [Adapter_start demo_tun_io tun_config_default demo_driver] ((tun_new, None), [])"
  obtain t h calls where r: "?r = ((t, h), calls)" by (metis prod.exhaust)
  have "\<not> is_ok (assign_address demo_tun_io tun_config_default)"
    by (simp add: assign_address_def demo_tun_io_def split: option.split prod.split)
  then obtain e where "assign_address demo_tun_io tun_config_default = Inl e" by (auto simp: not_is_ok_iff)
  then have "\<not> tm_adapter t"
    using r by (auto simp: adapter_start_def tun_new_def ensure_loaded_def demo_tun_io_def split: prod.splits sum.splits)
  with adapter_handles_exact [OF r [symmetric]] have "ledger calls ([], []) = Some ([], [])" by auto
  then show ?thesis unfolding r by simp
qed

end
