(* ===== verification/Dns_Transport.thy ===== *)
theory Dns_Transport
  imports Dns_Manager
begin

text \<open>
  What lies behind the transport of a query: the datagram socket of \<^verbatim>\<open>dns/resolver.rs\<close> and the
  request of \<^verbatim>\<open>dns/doh.rs\<close>.  The answers of sockets, server and deadline are arguments.
\<close>

section \<open>One query\<close>

text \<open>A request fails, or has a status with its text and a body that may fail to arrive.\<close>

datatype doh_reply = Doh_error string | Doh_reply nat string "string + u8 list"

definition doh_query :: "(string \<Rightarrow> u8 list \<Rightarrow> doh_reply) \<Rightarrow> string \<Rightarrow> u8 list \<Rightarrow> svc_error + u8 list" where
  "doh_query post url wire_query =
     (case post url wire_query of
        Doh_error e \<Rightarrow> Inl (Http e)
      | Doh_reply code status body \<Rightarrow>
          if \<not> (200 \<le> code \<and> code < 300) then Inl (Dns (''DoH http '' @ status))
          else (case body of Inl e \<Rightarrow> Inl (Http e) | Inr bytes \<Rightarrow> Inr bytes))"

record sockets =
  sk_late :: bool
  sk_bind :: "string \<Rightarrow> string option"
  sk_send :: "u8 list \<Rightarrow> string option"
  sk_recv :: "string + u8 list"
  sk_post :: "string \<Rightarrow> u8 list \<Rightarrow> doh_reply"

definition udp_exchange :: "sockets \<Rightarrow> bool \<Rightarrow> u8 list \<Rightarrow> svc_error + u8 list" where
  \<comment> \<open>a datagram is cut to the buffer\<close>
  "udp_exchange sk ipv4 q =
     (case sk_bind sk (if ipv4 then ''0.0.0.0:0'' else ''[::]:0'') of
        Some e \<Rightarrow> Inl (Io e)
      | None \<Rightarrow>
          (case sk_send sk q of
             Some e \<Rightarrow> Inl (Io e)
           | None \<Rightarrow> (case sk_recv sk of Inl e \<Rightarrow> Inl (Io e) | Inr data \<Rightarrow> Inr (take 1500 data))))"

definition transport :: "sockets \<Rightarrow> server \<Rightarrow> u8 list \<Rightarrow> svc_error + u8 list" where
  "transport sk server q =
     (if sk_late sk then Inl Timeout
      else case server of
             Udp addr \<Rightarrow> udp_exchange sk (case addr of Sock_V4 _ _ \<Rightarrow> True | Sock_V6 _ _ _ \<Rightarrow> False) q
           | Doh url \<Rightarrow> doh_query (sk_post sk) url q)"

definition net_of :: "(nat \<Rightarrow> u16) \<Rightarrow> (nat \<Rightarrow> sockets) \<Rightarrow> dns_net" where
  \<comment> \<open>the transport argument of the resolver\<close>
  "net_of ids sks = \<lparr>nt_id = ids, nt_send = (\<lambda>k. transport (sks k))\<rparr>"

text \<open>An answer that is used came before the deadline, from the server that was asked.\<close>

lemma query_server_answer:
  assumes "query_server (net_of ids sks) k server name qtype = Inr records"
  shows "\<not> sk_late (sks k) \<and> (\<exists>bytes. parse_response bytes = Some (Some records)
    \<and> (case server of
         Udp _ \<Rightarrow> (\<exists>data. sk_recv (sks k) = Inr data \<and> bytes = take 1500 data)
       | Doh url \<Rightarrow> (\<exists>code status. sk_post (sks k) url (build_query name qtype (ids k)) = Doh_reply code status (Inr bytes)
           \<and> 200 \<le> code \<and> code < 300)))"
  using assms
  by (cases server) (auto simp: query_server_def net_of_def transport_def udp_exchange_def doh_query_def
      split: if_splits sum.splits option.splits doh_reply.splits)

lemma late_query_fails: "sk_late (sks k) \<Longrightarrow> query_server (net_of ids sks) k server name qtype = Inl Timeout"
  by (simp add: query_server_def net_of_def transport_def)

end
