(* ===== verification/Core_Reaper.thy ===== *)
theory Core_Reaper
  imports Core_Adapter
begin

text \<open>
  \<^verbatim>\<open>reap_stale_cores\<close> of \<^verbatim>\<open>proxy/manager.rs\<close>: the PowerShell command that stops the cores left
  by an earlier instance, and what its quoting guarantees.  What the command does and answers
  only reaches the log.
\<close>

section \<open>The command\<close>

definition double_quotes :: "string \<Rightarrow> string" where
  \<comment> \<open>\<^verbatim>\<open>replace\<close> of a single quote by two\<close>
  "double_quotes s = concat (map (\<lambda>c. if c = CHR 0x27 then [c, c] else [c]) s)"

definition reap_needle :: "string \<Rightarrow> core_config \<Rightarrow> string" where
  "reap_needle base core =
     (case resolve_paths base core Xray of (_, _, (dir, file)) \<Rightarrow> double_quotes (win_join dir file))"

definition quoted :: "string \<Rightarrow> string" where
  "quoted s = CHR 0x27 # s @ [CHR 0x27]"

definition reap_script :: "string \<Rightarrow> string" where
  "reap_script needle =
     ''Get-CimInstance Win32_Process -Filter '' @ [CHR 0x22] @ ''Name='' @ quoted ''xray.exe''
       @ '' OR Name='' @ quoted ''sing-box.exe'' @ [CHR 0x22] @ '' | ''
     @ ''Where-Object { $_.CommandLine -like '' @ quoted (''*'' @ needle @ ''*'') @ '' } | ''
     @ ''ForEach-Object { Stop-Process -Id $_.ProcessId -Force -ErrorAction SilentlyContinue; $_.ProcessId }''"

definition reap_args :: "string \<Rightarrow> core_config \<Rightarrow> string list" where
  "reap_args base core = [''-NoProfile'', ''-NonInteractive'', ''-Command'', reap_script (reap_needle base core)]"

section \<open>Quoting\<close>

text \<open>
  A literal between single quotes as the shell documents it: two quotes stand for one, a quote
  alone ends it.  The result is the text of the literal and what follows it.  Only ASCII is
  covered: the shell takes typographic quotes for quotes, and the code does not double them.
\<close>

fun read_literal :: "string \<Rightarrow> (string \<times> string) option" where
  "read_literal [] = None"
| "read_literal (c # r) =
     (if 128 \<le> (of_char c :: nat) then None
      else if c \<noteq> CHR 0x27 then map_option (apfst ((#) c)) (read_literal r)
      else case r of
             [] \<Rightarrow> Some ([], [])
           | d # r2 \<Rightarrow> if d = CHR 0x27 then map_option (apfst ((#) c)) (read_literal r2) else Some ([], d # r2))"

lemma read_literal_double:
  assumes "rest = [] \<or> hd rest \<noteq> CHR 0x27" "\<forall>c \<in> set s. (of_char c :: nat) < 128"
  shows "read_literal (double_quotes s @ CHR 0x27 # rest) = Some (s, rest)"
  using assms by (induction s) (auto simp: double_quotes_def split: list.split)

text \<open>
  For an ASCII path of the configuration, quotes included, the shell compares the command lines with
  that path between two stars, and nothing of the path is run as a command.
\<close>

lemma reap_literal:
  assumes "\<forall>c \<in> set path. (of_char c :: nat) < 128"
  shows "\<exists>before after. reap_script (double_quotes path) = before @ CHR 0x27 # (double_quotes (''*'' @ path @ ''*'') @ CHR 0x27 # after)
     \<and> read_literal (double_quotes (''*'' @ path @ ''*'') @ CHR 0x27 # after) = Some (''*'' @ path @ ''*'', after)"
proof (intro exI conjI)
  have d: "double_quotes (''*'' @ path @ ''*'') = ''*'' @ double_quotes path @ ''*''" by (simp add: double_quotes_def)
  show "reap_script (double_quotes path) =
      (''Get-CimInstance Win32_Process -Filter '' @ [CHR 0x22] @ ''Name='' @ quoted ''xray.exe''
       @ '' OR Name='' @ quoted ''sing-box.exe'' @ [CHR 0x22] @ '' | '' @ ''Where-Object { $_.CommandLine -like '')
      @ CHR 0x27 # (double_quotes (''*'' @ path @ ''*'') @ CHR 0x27 #
        ('' } | '' @ ''ForEach-Object { Stop-Process -Id $_.ProcessId -Force -ErrorAction SilentlyContinue; $_.ProcessId }''))"
    unfolding reap_script_def d by (simp add: quoted_def)
  show "read_literal (double_quotes (''*'' @ path @ ''*'') @ CHR 0x27 #
        ('' } | '' @ ''ForEach-Object { Stop-Process -Id $_.ProcessId -Force -ErrorAction SilentlyContinue; $_.ProcessId }''))
      = Some (''*'' @ path @ ''*'', '' } | '' @ ''ForEach-Object { Stop-Process -Id $_.ProcessId -Force -ErrorAction SilentlyContinue; $_.ProcessId }'')"
    by (rule read_literal_double) (use assms in simp_all)
qed

section \<open>What becomes of the command\<close>

text \<open>The command answers with its output, cannot be started, or is out of time.\<close>

datatype reap_answer = Output string | Not_started string | Out_of_time

datatype log_line = Warning string

definition ascii_space :: "char \<Rightarrow> bool" where
  "ascii_space c \<longleftrightarrow> c \<in> {CHR 0x20, CHR 0x09, CHR 0x0A, CHR 0x0C, CHR 0x0D}"

definition trim_ascii :: "string \<Rightarrow> string" where
  "trim_ascii s = rev (dropWhile ascii_space (rev (dropWhile ascii_space s)))"

definition reap_report :: "reap_answer \<Rightarrow> log_line list \<times> nat" where
  \<comment> \<open>what is logged, and the pause for the sockets in milliseconds\<close>
  "reap_report answer =
     (case answer of
        Output out \<Rightarrow>
          if trim_ascii out \<noteq> [] then ([Warning (''reaped stale proxy core(s): '' @ trim_ascii out)], 500) else ([], 0)
      | Not_started e \<Rightarrow> ([Warning (''stale core reaping failed to spawn: '' @ e)], 0)
      | Out_of_time \<Rightarrow> ([Warning ''stale core reaping timed out''], 0))"

lemma trim_ascii_empty: "trim_ascii s = [] \<longleftrightarrow> (\<forall>c \<in> set s. ascii_space c)"
proof -
  have "(\<forall>c \<in> set (dropWhile ascii_space s). ascii_space c) \<longleftrightarrow> (\<forall>c \<in> set s. ascii_space c)"
    by (induction s) auto
  then show ?thesis by (simp add: trim_ascii_def)
qed

text \<open>The service waits exactly when the command named a process it stopped.\<close>

lemma reap_waits_iff:
  "0 < snd (reap_report answer) \<longleftrightarrow> (\<exists>out. answer = Output out \<and> (\<exists>c \<in> set out. \<not> ascii_space c))"
  by (cases answer) (auto simp: reap_report_def trim_ascii_empty)

end
