(* ===== verification/Ip_Packet.thy ===== *)
theory Ip_Packet
  imports Common
begin

text \<open>
  \<^verbatim>\<open>tun/packet.rs\<close>: the header inspection of the TUN data plane.  Accesses are checked:
  the outer \<open>None\<close> is a panic.
\<close>

unbundle bit_operations_syntax

record ip_flow =
  ipf_src :: ip_addr
  ipf_dst :: ip_addr
  ipf_protocol :: u8
  ipf_length :: nat

definition parse_v4_packet :: "u8 list \<Rightarrow> ip_flow option option" where
  "parse_v4_packet buf =
     (if length buf < 20 then Some None
      else case buf_at buf 0 of
        None \<Rightarrow> None
      | Some b0 \<Rightarrow>
          (let ihl = unat (b0 AND 0x0f) * 4
           in if ihl < 20 \<or> length buf < ihl then Some None
              else case (buf_slice buf 2 4, buf_at buf 9, buf_slice buf 12 16, buf_slice buf 16 20) of
                (Some len, Some protocol, Some src, Some dst) \<Rightarrow>
                  Some (Some \<lparr>ipf_src = V4 (from_be_bytes src), ipf_dst = V4 (from_be_bytes dst),
                    ipf_protocol = protocol, ipf_length = unat (from_be_bytes len :: u16)\<rparr>)
              | _ \<Rightarrow> None))"

definition parse_v6_packet :: "u8 list \<Rightarrow> ip_flow option option" where
  "parse_v6_packet buf =
     (if length buf < 40 then Some None
      else case (buf_slice buf 4 6, buf_at buf 6, buf_slice buf 8 24, buf_slice buf 24 40) of
        (Some len, Some next_header, Some src, Some dst) \<Rightarrow>
          Some (Some \<lparr>ipf_src = V6 (from_be_bytes src), ipf_dst = V6 (from_be_bytes dst),
            ipf_protocol = next_header, ipf_length = 40 + unat (from_be_bytes len :: u16)\<rparr>)
      | _ \<Rightarrow> None)"

definition parse_packet :: "u8 list \<Rightarrow> ip_flow option option" where
  "parse_packet buf =
     (case buf of
        [] \<Rightarrow> Some None
      | byte0 # _ \<Rightarrow>
          if drop_bit 4 byte0 = 4 then parse_v4_packet buf
          else if drop_bit 4 byte0 = 6 then parse_v6_packet buf
          else Some None)"

section \<open>Totality\<close>

text \<open>
  C40. Packet inspection never panics, whatever the bytes, and it recognises a packet
  exactly when the version is 4 with a whole header of at least five words present, or 6
  with its forty bytes present.
\<close>

theorem parse_packet_total:
  "\<exists>r. parse_packet buf = Some r
     \<and> (r \<noteq> None \<longleftrightarrow>
          buf \<noteq> [] \<and>
          ((drop_bit 4 (hd buf) = 4 \<and> 5 \<le> unat (hd buf AND 0x0f) \<and> 4 * unat (hd buf AND 0x0f) \<le> length buf)
           \<or> (drop_bit 4 (hd buf) = 6 \<and> 40 \<le> length buf)))"
proof (cases buf)
  case Nil
  then show ?thesis by (simp add: parse_packet_def)
next
  case (Cons b bs)
  have v4: "\<exists>r. parse_v4_packet buf = Some r
      \<and> (r \<noteq> None \<longleftrightarrow> 5 \<le> unat (hd buf AND 0x0f) \<and> 4 * unat (hd buf AND 0x0f) \<le> length buf)"
  proof (cases "length buf < 20 \<or> unat (hd buf AND 0x0f) * 4 < 20 \<or> length buf < unat (hd buf AND 0x0f) * 4")
    case True
    then show ?thesis by (auto simp: parse_v4_packet_def Let_def Cons)
  next
    case False
    then show ?thesis by (simp add: parse_v4_packet_def Let_def Cons)
  qed
  have v6: "\<exists>r. parse_v6_packet buf = Some r \<and> (r \<noteq> None \<longleftrightarrow> 40 \<le> length buf)"
    by (cases "length buf < 40") (simp_all add: parse_v6_packet_def)
  have parse: "parse_packet buf =
      (if drop_bit 4 b = 4 then parse_v4_packet buf else if drop_bit 4 b = 6 then parse_v6_packet buf else Some None)"
    by (simp add: parse_packet_def Cons)
  have hd: "hd buf = b" "buf \<noteq> []" by (simp_all add: Cons)
  show ?thesis
  proof (cases "drop_bit 4 b = 4")
    case True
    then have "drop_bit 4 b \<noteq> 6" by simp
    with True v4 hd show ?thesis unfolding parse by simp
  next
    case False
    with v6 hd show ?thesis unfolding parse by simp
  qed
qed

section \<open>Round trip\<close>

text \<open>The header a sender writes, with the fields the service does not read as arguments.\<close>

definition encode_v4_packet :: "u8 \<Rightarrow> u16 \<Rightarrow> u8 list \<Rightarrow> u8 \<Rightarrow> u8 list \<Rightarrow> u32 \<Rightarrow> u32 \<Rightarrow> u8 list \<Rightarrow> u8 list" where
  "encode_v4_packet tos len id_frag_ttl proto checksum src dst rest =
     [0x45, tos] @ to_be_bytes 2 len @ id_frag_ttl @ [proto] @ checksum @ v4_octets src @ v4_octets dst @ rest"

definition encode_v6_packet :: "u8 list \<Rightarrow> u16 \<Rightarrow> u8 \<Rightarrow> u8 \<Rightarrow> u128 \<Rightarrow> u128 \<Rightarrow> u8 list \<Rightarrow> u8 list" where
  "encode_v6_packet class_flow len proto hops src dst rest =
     [0x60] @ class_flow @ to_be_bytes 2 len @ [proto, hops] @ v6_octets src @ v6_octets dst @ rest"

text \<open>
  Inspection recovers the addresses, the protocol number and the total length that a
  sender wrote in an IPv4 header without options or in an IPv6 header, whatever the fields
  in between and the payload.
\<close>

theorem packet_roundtrip:
  assumes "length id_frag_ttl = 5" "length checksum = 2" "length class_flow = 3"
  shows "parse_packet (encode_v4_packet tos len id_frag_ttl proto checksum src dst rest) =
       Some (Some \<lparr>ipf_src = V4 src, ipf_dst = V4 dst, ipf_protocol = proto, ipf_length = unat len\<rparr>)
     \<and> parse_packet (encode_v6_packet class_flow len proto hops src6 dst6 rest) =
       Some (Some \<lparr>ipf_src = V6 src6, ipf_dst = V6 dst6, ipf_protocol = proto, ipf_length = 40 + unat len\<rparr>)"
proof
  let ?p = "encode_v4_packet tos len id_frag_ttl proto checksum src dst rest"
  have parts: "buf_slice ?p 2 4 = Some (to_be_bytes 2 len)" "buf_at ?p 9 = Some proto"
    "buf_slice ?p 12 16 = Some (v4_octets src)" "buf_slice ?p 16 20 = Some (v4_octets dst)"
    "buf_at ?p 0 = Some 0x45" "\<not> length ?p < 20"
    using assms by (simp_all add: encode_v4_packet_def buf_at_def nth_append nth_Cons')
  then have "parse_v4_packet ?p =
      Some (Some \<lparr>ipf_src = V4 src, ipf_dst = V4 dst, ipf_protocol = proto, ipf_length = unat len\<rparr>)"
    by (simp add: parse_v4_packet_def Let_def from_be_bytes_v4_octets from_be_bytes_to_be_bytes not_less)
  then show "parse_packet ?p =
       Some (Some \<lparr>ipf_src = V4 src, ipf_dst = V4 dst, ipf_protocol = proto, ipf_length = unat len\<rparr>)"
    by (simp add: parse_packet_def encode_v4_packet_def)
next
  let ?p = "encode_v6_packet class_flow len proto hops src6 dst6 rest"
  have parts: "buf_slice ?p 4 6 = Some (to_be_bytes 2 len)" "buf_at ?p 6 = Some proto"
    "buf_slice ?p 8 24 = Some (v6_octets src6)" "buf_slice ?p 24 40 = Some (v6_octets dst6)"
    "\<not> length ?p < 40"
    using assms by (simp_all add: encode_v6_packet_def buf_at_def nth_append nth_Cons')
  then have "parse_v6_packet ?p =
      Some (Some \<lparr>ipf_src = V6 src6, ipf_dst = V6 dst6, ipf_protocol = proto, ipf_length = 40 + unat len\<rparr>)"
    by (simp add: parse_v6_packet_def from_be_bytes_v6_octets from_be_bytes_to_be_bytes not_less)
  then show "parse_packet ?p =
       Some (Some \<lparr>ipf_src = V6 src6, ipf_dst = V6 dst6, ipf_protocol = proto, ipf_length = 40 + unat len\<rparr>)"
    by (simp add: parse_packet_def encode_v6_packet_def)
qed

theorem packet_roundtrip_witness:
  "parse_packet (encode_v4_packet 0 84 [0, 0, 0, 0, 64] 6 [0, 0] 0xC0A80102 0x0A000001 []) =
     Some (Some \<lparr>ipf_src = V4 0xC0A80102, ipf_dst = V4 0x0A000001, ipf_protocol = 6, ipf_length = 84\<rparr>)"
  using packet_roundtrip [where id_frag_ttl = "[0, 0, 0, 0, 64]" and checksum = "[0, 0]"
      and class_flow = "[0, 0, 0]" and tos = 0 and len = 84 and proto = 6
      and src = "0xC0A80102" and dst = "0x0A000001" and rest = "[]"]
  by simp

end
