(* ===== verification/Spec2Isabelle.thy ===== *)
theory Spec2Isabelle
  imports Rule_Matching Routing_Engine Lifecycle_Spec Monitor Core_Builder Dns_Manager Sub_Again Client_Runs Service_Events
    Tun_Driver Dns_Transport Core_Reaper Ip_Packet
begin

text \<open>
  A verification library for the network service of the repository, the Rust program under
  \<^verbatim>\<open>src/service/network-service/src\<close>; the paths below are relative to it.

  \<^bold>\<open>The program.\<close>  The service lets desktop clients connect the machine to a proxy node.  It
  keeps nodes, rules and settings as JSON files, starts an external proxy core with a
  configuration generated for the chosen node, points the Windows system proxy at the core's
  local inbound, counts traffic, supervises the core and recovers it, resolves names, and
  decides for a flow which rule applies.  One orchestrator, the connection manager, calls all
  the others; every operation of it that clients call runs under one lock.

  \<^bold>\<open>Foundations.\<close>  \<open>Prelude\<close> (results, checked indexing, maps built by insertion, preference by
  priority, the collections \<open>inv_intros\<close>, \<open>std_eval\<close> and \<open>op_simps\<close>), \<open>Rust_Std\<close> (strings: trimming,
  splitting, ASCII case, paths), \<open>Rust_Num\<close> (decimal text and integer parsing, bytes of words),
  \<open>Rust_Net\<close> (the standard library's address parser), \<open>Hash_Map\<close>, \<open>Json\<close> (values of the
  builders), \<open>Common\<close> (\<^verbatim>\<open>common.rs\<close>: errors, codes, URL mask).

  \<^bold>\<open>Routing.\<close>  \<open>Rule\<close> (\<^verbatim>\<open>routing/rule.rs\<close>); \<open>Domain_Trie\<close>, \<open>Bit_Trie\<close>, \<open>Prefix_Index\<close>, \<open>Rule_Index\<close>
  (\<^verbatim>\<open>routing/matcher.rs\<close>), with the tries shown equivalent to scans of what was inserted;
  \<open>Rule_Matching\<close>: what each matcher of an index built from a rule list returns, in terms of
  the list; \<open>Geoip\<close> (\<^verbatim>\<open>routing/geoip.rs\<close>): the table is a linear scan of its entries;
  \<open>Routing_Engine\<close> (\<^verbatim>\<open>routing/engine.rs\<close>): decisions are sound and complete for the rules, and
  the index, the memory and the file stay in step along every run.

  \<^bold>\<open>Settings and files.\<close>  \<open>Config\<close> (\<^verbatim>\<open>config/schema.rs\<close>, \<^verbatim>\<open>config/manager.rs\<close>): a file system is a
  map from paths to contents and every write has its failures as an argument; writes are all
  or nothing.

  \<^bold>\<open>Nodes.\<close>  \<open>Node_Model\<close>, \<open>Node_Health\<close>, \<open>Node_Manager\<close> (\<^verbatim>\<open>nodes/\<close>): validation, scores and
  hysteresis, edits that survive a restart, subscription refreshes, selection.

  \<^bold>\<open>The core.\<close>  \<open>Core_Builder\<close> (\<^verbatim>\<open>proxy/config_builder.rs\<close>, \<^verbatim>\<open>proxy/xray_builder.rs\<close>): both
  configurations, and exactly which nodes they exist for; \<open>Core_Adapter\<close> (\<^verbatim>\<open>proxy/manager.rs\<close>,
  \<^verbatim>\<open>proxy/adapter.rs\<close>): when a start succeeds, and what the adapter reports along any run; \<open>Core_Reaper\<close>: the command
  that reaps stale cores and its quoting.  The
  locale \<open>proxy_core\<close> is the interface the orchestration relies on, interpreted on the adapter.

  \<^bold>\<open>System proxy and adapter.\<close>  \<open>Proxy_Route\<close> (\<^verbatim>\<open>route/manager.rs\<close>, \<^verbatim>\<open>route/bypass.rs\<close>): the registry
  key, the snapshot and its backup, with a failure possible at every call; \<open>Tun_Manager\<close>
  (\<^verbatim>\<open>tun/manager.rs\<close>); \<open>Tun_Driver\<close> (\<^verbatim>\<open>tun/adapter.rs\<close>, \<^verbatim>\<open>route/table.rs\<close>): the calls into the driver, and
  the handles held along every sequence of starts and stops; \<open>Ip_Packet\<close> (\<^verbatim>\<open>tun/packet.rs\<close>).

  \<^bold>\<open>Statistics, names, frames.\<close>  \<open>Statistics\<close> (\<^verbatim>\<open>statistics/\<close>): counters against stored samples;
  \<open>Stats_Tables\<close> (\<^verbatim>\<open>statistics/database.rs\<close>, the midnight of \<^verbatim>\<open>common.rs\<close>): the file of the database, opened
  statement by statement, and its balance over any number of starts of the service;
  \<open>Dns_Wire\<close>, \<open>Dns_Cache\<close>, \<open>Dns_Manager\<close> (\<^verbatim>\<open>dns/\<close>): the parser never panics and reads back what
  a conforming server writes, a cache hit is a fresh answer, resolution asks in policy order;
  \<open>Dns_Transport\<close> (\<^verbatim>\<open>dns/doh.rs\<close>, the sockets of \<^verbatim>\<open>dns/resolver.rs\<close>): what stands behind its transport;
  \<open>Ipc_Frame\<close> (\<^verbatim>\<open>ipc/frame.rs\<close>).

  \<^bold>\<open>The connection.\<close>  \<open>Conn_State\<close> (\<^verbatim>\<open>app/state.rs\<close>): the state machine and its events;
  \<open>Lifecycle\<close> (\<^verbatim>\<open>app/lifecycle.rs\<close>): the record \<open>conn_manager\<close> holds the states of all managers,
  and connect, disconnect, recovery and boot are functions on it; \<open>Lifecycle_Runs\<close>: each step as
  an equation on the resources held, and the invariant of all runs; \<open>Lifecycle_Connect\<close>: when a
  connect succeeds, what a disconnect gives back, and the ends in which the service is stuck
  or the proxy dangles; \<open>Lifecycle_Spec\<close>: the runs refine a five-state automaton; \<open>Monitor\<close>
  (\<^verbatim>\<open>health/monitor.rs\<close>): when the supervisor asks for a recovery.

  \<^bold>\<open>Subscriptions and secrets.\<close>  \<open>Sub_Parser\<close> (\<^verbatim>\<open>subscription/decoder.rs\<close>, \<^verbatim>\<open>subscription/parser/\<close>):
  bodies to lines, lines to nodes, over the base64, percent, URL and JSON crates as a record of
  functions; every line is accounted for, and exactly which encoded links are read back.
  \<open>Secret_Store\<close> (\<^verbatim>\<open>config/crypto.rs\<close>): what is protected is given back.  \<open>Sub_Manager\<close>
  (\<^verbatim>\<open>subscription/manager.rs\<close>, \<^verbatim>\<open>subscription/downloader.rs\<close>): the manager with the node manager and
  the disk as one state; a refresh is split at its download, so that edits may come between.
  \<open>Sub_Refresh\<close>: all outcomes of a refresh, and the ownership of nodes along every sequence of
  edits, begins and ends of refreshes.  \<open>Sub_Again\<close>: refreshing over and over, and a link that two
  subscriptions carry.

  \<^bold>\<open>Diagnostics and counters.\<close>  \<open>Diagnostics\<close> (\<^verbatim>\<open>diagnostics/\<close>): the six steps with what each one
  announces and stores, and the guard of runs; \<open>Stats_Poller\<close> (\<^verbatim>\<open>proxy/xray_stats.rs\<close>, the polling
  loop of \<^verbatim>\<open>main.rs\<close>, the flush loop of \<^verbatim>\<open>statistics/manager.rs\<close>): what of the counters of the core
  process is counted.

  \<^bold>\<open>Clients.\<close>  \<open>Ipc_Server\<close> (\<^verbatim>\<open>ipc/server.rs\<close>, \<^verbatim>\<open>ipc/events.rs\<close>): the request loop of a connection
  over the bytes that arrive, the response to each outcome of a handler, the event forwarder and
  the writer; \<open>App_Context\<close> (\<^verbatim>\<open>app/context.rs\<close>): the method table over the record \<open>app\<close>, which adds the
  subscriptions, the resolver and the running tasks to \<open>conn_manager\<close>; \<open>App_Runs\<close>: questions change
  nothing, and every run of the service, requests of all kinds included, is a run of the
  connection, so that the invariant of \<open>Lifecycle_Runs\<close> holds of what clients are shown.
  \<open>Store_Walk\<close>: every such run reaches the state store through the operations of the store only.
  \<open>Service_Start\<close> (\<^verbatim>\<open>main.rs\<close>): loading and wiring, which begins such runs, and the teardown, which
  leaves nothing behind.  \<open>Ipc_Listener\<close> (\<^verbatim>\<open>ipc/server.rs\<close>): pipe instances with their access list,
  and the loop that accepts clients; \<open>Client_Runs\<close>: all clients at once, their messages and tasks
  interleaved with a run of the service, so that every message is answered once and every reply
  comes from one history; \<open>Service_Events\<close> (\<^verbatim>\<open>ipc/events.rs\<close>): the events of all managers on the bus,
  and what a client that listens, or lags, sees of the connection.

  \<^bold>\<open>Conventions.\<close>  A \<^verbatim>\<open>Result\<close> is a sum with \<open>Inl\<close> for the error; a panic is \<open>None\<close> of an outer
  option where the code indexes buffers.  Strings are their UTF-8 bytes.  Machine integers are
  words; sizes and instants are natural numbers.  Doubles are exact rationals (scores) or an
  argument (traffic rates).  A clock, a uuid, a socket, a child process, a registry or disk
  failure, the regex crate and the JSON encoders are arguments of the operations, grouped in
  records such as \<open>connect_io\<close> and \<open>route_env\<close>; laws assumed of them are hypotheses of the
  theorems that need them.  Arithmetic and shifts are those of the release profile.

  \<^bold>\<open>Concurrency.\<close>  Operations under the connection lock are single steps.  A recovery runs
  outside the lock and is split where it becomes visible, at its transition to
  \<^verbatim>\<open>RECONNECTING\<close>; an operation that stops the supervisor first lets a recovery in flight run
  to its end.  The boot task is a step possible at any time.  Everything else that changes
  settings, nodes, rules or files is one arbitrary step.  Tasks that requests leave behind, a
  refresh or a diagnostic run, take their steps between requests.

  \<^bold>\<open>Bounds and fuel.\<close>  No fuel is used.  Recursions are structural or have a measure: name
  compression by the hop limit of 16 and the buffer length, address groups by their number,
  the supervisor by the rounds left.  A list of rounds or attempts that ends stands for a
  task that is still waiting.

  \<^bold>\<open>Not modelled.\<close>  When the broadcast channel overtakes a slow receiver is an argument of the
  forwarder; the encodings of the messages, which the build generates from the protobuf file, are
  arguments, with the laws needed of them as hypotheses; the set-up of the log (\<^verbatim>\<open>main.rs\<close>); the
  engines of SQLite, of the data protection of the operating system and of the shell that reaps
  stale cores; the C# client.  What else is not translated is declarations of modules, loggings
  and the unit tests.
\<close>

end
